(* ===== verification/TxPrelude.thy ===== *)
theory TxPrelude
  imports Main "HOL-Library.Word"
begin

text \<open>
  Shared vocabulary of the development: results of fallible Go functions as sums, byte strings and
  the positional number formats of \<^verbatim>\<open>math/big\<close> and \<^verbatim>\<open>strconv\<close>, the anchored hex patterns of
  the repository's regular expressions, \<^verbatim>\<open>crypto/sha256\<close>, \<^verbatim>\<open>encoding/hex\<close> and the
  \<^verbatim>\<open>time.RFC3339Nano\<close> layout, and generic facts on lists that stand for database tables.
\<close>

named_theorems rbind_rules "decomposition of successful sequences of fallible steps"
named_theorems table_simps "facts on tables as lists of rows"

section \<open>Results\<close>

text \<open>A Go function returning \<open>(v, err)\<close> is a sum: \<open>Inl\<close> the error, \<open>Inr\<close> the value. \<open>rbind\<close> is the
  source's \<open>if err != nil { return err }\<close>.\<close>

definition rbind :: "'e + 'a \<Rightarrow> ('a \<Rightarrow> 'e + 'b) \<Rightarrow> 'e + 'b" where
  "rbind m f = (case m of Inl e \<Rightarrow> Inl e | Inr x \<Rightarrow> f x)"

definition map_err :: "('e \<Rightarrow> 'f) \<Rightarrow> 'e + 'a \<Rightarrow> 'f + 'a" where
  "map_err g m = (case m of Inl e \<Rightarrow> Inl (g e) | Inr x \<Rightarrow> Inr x)"

lemma rbind_simps [simp]:
  "rbind (Inl e) f = Inl e" "rbind (Inr x) f = f x"
  by (simp_all add: rbind_def)

lemma map_err_simps [simp]:
  "map_err g (Inl e) = Inl (g e)" "map_err g (Inr x) = Inr x"
  by (simp_all add: map_err_def)

lemma rbind_eq_Inr [rbind_rules]: "rbind m f = Inr y \<longleftrightarrow> (\<exists>x. m = Inr x \<and> f x = Inr y)"
  by (cases m) auto

lemma rbind_eq_Inl: "rbind m f = Inl e \<longleftrightarrow> m = Inl e \<or> (\<exists>x. m = Inr x \<and> f x = Inl e)"
  by (cases m) auto

lemma map_err_eq_Inr [rbind_rules]: "map_err g m = Inr y \<longleftrightarrow> m = Inr y"
  by (cases m) auto

lemma rbind_cong [fundef_cong]:
  "m = m' \<Longrightarrow> (\<And>x. m' = Inr x \<Longrightarrow> f x = f' x) \<Longrightarrow> rbind m f = rbind m' f'"
  by (cases m') auto

section \<open>Bytes of strings\<close>

text \<open>Go strings are byte sequences, as \<open>char list\<close> is.\<close>

abbreviation byte :: "char \<Rightarrow> nat" where
  "byte c \<equiv> of_char c"

definition is_dec :: "char \<Rightarrow> bool" where
  "is_dec c \<longleftrightarrow> 48 \<le> byte c \<and> byte c \<le> 57"

definition is_lower_hex :: "char \<Rightarrow> bool" where
  "is_lower_hex c \<longleftrightarrow> is_dec c \<or> 97 \<le> byte c \<and> byte c \<le> 102"

definition is_hex :: "char \<Rightarrow> bool" where
  "is_hex c \<longleftrightarrow> is_dec c \<or> 97 \<le> byte c \<and> byte c \<le> 102 \<or> 65 \<le> byte c \<and> byte c \<le> 70"

text \<open>\<open>^0x[0-9a-f]{n}$\<close>; Go's \<open>$\<close> without the multi-line flag is the end of the text.\<close>

definition matches_lower_hex :: "nat \<Rightarrow> string \<Rightarrow> bool" where
  "matches_lower_hex n s \<longleftrightarrow>
     take 2 s = ''0x'' \<and> length s = n + 2 \<and> list_all is_lower_hex (drop 2 s)"

definition has_prefix :: "string \<Rightarrow> string \<Rightarrow> bool" where
  "has_prefix s p \<longleftrightarrow> take (length p) s = p"

lemma has_prefix_code [code]:
  "has_prefix s [] \<longleftrightarrow> True" "has_prefix [] (d # p) \<longleftrightarrow> False"
  "has_prefix (c # s) (d # p) \<longleftrightarrow> c = d \<and> has_prefix s p"
  by (auto simp: has_prefix_def)

lemma has_prefix_append [simp]: "has_prefix (p @ s) p"
  by (simp add: has_prefix_def)

section \<open>Positional numbers\<close>

definition digit_val :: "char \<Rightarrow> nat" where
  "digit_val c = (if is_dec c then byte c - 48
     else if 97 \<le> byte c \<and> byte c \<le> 102 then byte c - 87 else byte c - 55)"

definition digit_char :: "nat \<Rightarrow> char" where
  "digit_char d = (if d < 10 then char_of (d + 48) else char_of (d + 87))"

definition num_val :: "nat \<Rightarrow> string \<Rightarrow> nat" where
  "num_val b s = foldl (\<lambda>a c. a * b + digit_val c) 0 s"

fun num_text :: "nat \<Rightarrow> nat \<Rightarrow> string" where
  "num_text b n = (if b < 2 \<or> n < b then [digit_char n]
     else num_text b (n div b) @ [digit_char (n mod b)])"

declare num_text.simps [simp del]

lemma byte_digit_char: "d < 16 \<Longrightarrow> byte (digit_char d) = (if d < 10 then d + 48 else d + 87)"
  by (simp add: digit_char_def)

lemma digit_val_char [simp]: "d < 16 \<Longrightarrow> digit_val (digit_char d) = d"
  by (auto simp: digit_val_def is_dec_def byte_digit_char)

lemma digit_char_is_dec: "d < 10 \<Longrightarrow> is_dec (digit_char d)"
  by (simp add: is_dec_def byte_digit_char)

lemma digit_char_is_lower_hex: "d < 16 \<Longrightarrow> is_lower_hex (digit_char d)"
  by (simp add: is_lower_hex_def is_dec_def byte_digit_char)

lemma num_val_snoc: "num_val b (s @ [c]) = num_val b s * b + digit_val c"
  by (simp add: num_val_def)

lemma num_text_nonempty [simp]: "num_text b n \<noteq> []"
  by (subst num_text.simps) simp

lemma num_val_text: "2 \<le> b \<Longrightarrow> b \<le> 16 \<Longrightarrow> num_val b (num_text b n) = n"
proof (induction b n rule: num_text.induct)
  case (1 b n)
  show ?case
  proof (cases "n < b")
    case True
    with "1.prems" show ?thesis by (subst num_text.simps) (simp add: num_val_def)
  next
    case False
    with "1.prems" have "num_val b (num_text b (n div b)) = n div b"
      by (intro "1.IH") auto
    moreover from "1.prems" have "n mod b < 16"
      by (metis less_le_trans mod_less_divisor neq0_conv not_numeral_le_zero)
    ultimately show ?thesis using False "1.prems"
      by (subst num_text.simps) (simp add: num_val_snoc)
  qed
qed

lemma num_text_all:
  assumes "\<And>d. d < b \<Longrightarrow> P (digit_char d)" and "2 \<le> b"
  shows "list_all P (num_text b n)"
  using assms
proof (induction b n rule: num_text.induct)
  case (1 b n)
  show ?case
  proof (cases "n < b")
    case True
    with "1.prems" show ?thesis by (subst num_text.simps) simp
  next
    case False
    with "1.prems" have "list_all P (num_text b (n div b))"
      by (intro "1.IH") auto
    with False "1.prems" show ?thesis
      by (subst num_text.simps) simp
  qed
qed

lemma num_text_dec: "list_all is_dec (num_text 10 n)"
  by (rule num_text_all) (auto intro: digit_char_is_dec)

lemma num_text_hex: "list_all is_lower_hex (num_text 16 n)"
  by (rule num_text_all) (auto intro: digit_char_is_lower_hex)

text \<open>\<^verbatim>\<open>(*big.Int).String\<close>, \<^verbatim>\<open>(*big.Int).Text(16)\<close> and \<^verbatim>\<open>strconv.FormatInt\<close>.\<close>

definition int_text :: "nat \<Rightarrow> int \<Rightarrow> string" where
  "int_text b n = (if n < 0 then ''-'' @ num_text b (nat (- n)) else num_text b (nat n))"

section \<open>crypto/sha256 and encoding/hex\<close>

unbundle bit_operations_syntax

type_synonym u8 = "8 word"
type_synonym u32 = "32 word"

definition sha_k :: "u32 list" where
  "sha_k = [
    0x428a2f98, 0x71374491, 0xb5c0fbcf, 0xe9b5dba5, 0x3956c25b, 0x59f111f1, 0x923f82a4,
    0xab1c5ed5, 0xd807aa98, 0x12835b01, 0x243185be, 0x550c7dc3, 0x72be5d74, 0x80deb1fe,
    0x9bdc06a7, 0xc19bf174, 0xe49b69c1, 0xefbe4786, 0x0fc19dc6, 0x240ca1cc, 0x2de92c6f,
    0x4a7484aa, 0x5cb0a9dc, 0x76f988da, 0x983e5152, 0xa831c66d, 0xb00327c8, 0xbf597fc7,
    0xc6e00bf3, 0xd5a79147, 0x06ca6351, 0x14292967, 0x27b70a85, 0x2e1b2138, 0x4d2c6dfc,
    0x53380d13, 0x650a7354, 0x766a0abb, 0x81c2c92e, 0x92722c85, 0xa2bfe8a1, 0xa81a664b,
    0xc24b8b70, 0xc76c51a3, 0xd192e819, 0xd6990624, 0xf40e3585, 0x106aa070, 0x19a4c116,
    0x1e376c08, 0x2748774c, 0x34b0bcb5, 0x391c0cb3, 0x4ed8aa4a, 0x5b9cca4f, 0x682e6ff3,
    0x748f82ee, 0x78a5636f, 0x84c87814, 0x8cc70208, 0x90befffa, 0xa4506ceb, 0xbef9a3f7, 0xc67178f2]"

definition sha_h0 :: "u32 list" where
  "sha_h0 = [
    0x6a09e667, 0xbb67ae85, 0x3c6ef372, 0xa54ff53a, 0x510e527f, 0x9b05688c, 0x1f83d9ab, 0x5be0cd19]"

definition sha_ch :: "u32 \<Rightarrow> u32 \<Rightarrow> u32 \<Rightarrow> u32" where
  "sha_ch x y z = ((x AND y) XOR (NOT x AND z))"

definition sha_maj :: "u32 \<Rightarrow> u32 \<Rightarrow> u32 \<Rightarrow> u32" where
  "sha_maj x y z = ((x AND y) XOR (x AND z) XOR (y AND z))"

definition sha_S :: "nat \<Rightarrow> nat \<Rightarrow> nat \<Rightarrow> u32 \<Rightarrow> u32" where
  "sha_S a b c x = (word_rotr a x XOR word_rotr b x XOR word_rotr c x)"

definition sha_s :: "nat \<Rightarrow> nat \<Rightarrow> nat \<Rightarrow> u32 \<Rightarrow> u32" where
  "sha_s a b c x = (word_rotr a x XOR word_rotr b x XOR drop_bit c x)"

text \<open>Message padding: \<open>0x80\<close>, zeros up to 56 modulo 64, the bit length in eight big-endian bytes.\<close>

fun be_bytes :: "nat \<Rightarrow> int \<Rightarrow> u8 list" where
  "be_bytes 0 v = []"
| "be_bytes (Suc n) v = be_bytes n (v div 256) @ [word_of_int v]"

definition sha_pad :: "u8 list \<Rightarrow> u8 list" where
  "sha_pad m = m @ [0x80] @ replicate ((119 - length m mod 64) mod 64) 0 @ be_bytes 8 (8 * int (length m))"

fun words_be :: "u8 list \<Rightarrow> u32 list" where
  "words_be (a # b # c # d # r) =
     word_of_int (((uint a * 256 + uint b) * 256 + uint c) * 256 + uint d) # words_be r"
| "words_be _ = []"

fun sha_sched :: "nat \<Rightarrow> u32 list \<Rightarrow> u32 list" where
  "sha_sched 0 w = w"
| "sha_sched (Suc k) w = sha_sched k (w @
     [sha_s 17 19 10 (w ! (length w - 2)) + w ! (length w - 7)
      + sha_s 7 18 3 (w ! (length w - 15)) + w ! (length w - 16)])"

fun sha_round :: "u32 list \<Rightarrow> u32 \<times> u32 \<Rightarrow> u32 list" where
  "sha_round [a, b, c, d, e, f, g, h] (k, w) =
     (let t1 = h + sha_S 6 11 25 e + sha_ch e f g + k + w;
          t2 = sha_S 2 13 22 a + sha_maj a b c
      in [t1 + t2, a, b, c, d + t1, e, f, g])"
| "sha_round hs _ = hs"

definition sha_block :: "u32 list \<Rightarrow> u32 list \<Rightarrow> u32 list" where
  "sha_block hs ws =
     map2 (+) hs (foldl sha_round hs (zip sha_k (sha_sched 48 ws)))"

fun sha_blocks :: "nat \<Rightarrow> u32 list \<Rightarrow> u32 list \<Rightarrow> u32 list" where
  "sha_blocks 0 hs ws = hs"
| "sha_blocks (Suc n) hs ws = sha_blocks n (sha_block hs (take 16 ws)) (drop 16 ws)"

definition str_bytes :: "string \<Rightarrow> u8 list" where
  "str_bytes s = map (\<lambda>c. word_of_nat (byte c)) s"

definition sha256 :: "u8 list \<Rightarrow> u8 list" where
  "sha256 m = (let ws = words_be (sha_pad m)
     in concat (map (\<lambda>h. be_bytes 4 (uint h)) (sha_blocks (length ws div 16) sha_h0 ws)))"

text \<open>\<^verbatim>\<open>hex.EncodeToString\<close>.\<close>

definition hex_encode :: "u8 list \<Rightarrow> string" where
  "hex_encode bs = concat (map (\<lambda>b. [digit_char (unat b div 16), digit_char (unat b mod 16)]) bs)"

text \<open>Every digest is 64 lowercase hex characters, whatever the message.\<close>

lemma length_sha_round: "length hs = 8 \<Longrightarrow> length (sha_round hs kw) = 8"
  by (cases "(hs, kw)" rule: sha_round.cases) (auto simp: Let_def)

lemma length_sha_rounds: "length hs = 8 \<Longrightarrow> length (foldl sha_round hs kws) = 8"
  by (induction kws arbitrary: hs) (auto simp: length_sha_round simp del: sha_round.simps)

lemma length_sha_block: "length hs = 8 \<Longrightarrow> length (sha_block hs ws) = 8"
  by (simp add: sha_block_def length_sha_rounds)

lemma length_sha_blocks: "length hs = 8 \<Longrightarrow> length (sha_blocks n hs ws) = 8"
  by (induction n hs ws rule: sha_blocks.induct) (auto simp: length_sha_block)

lemma length_be_bytes [simp]: "length (be_bytes n v) = n"
  by (induction n v rule: be_bytes.induct) simp_all

lemma length_sha_h0: "length sha_h0 = 8"
  by (simp add: sha_h0_def)

lemma length_sha256 [simp]: "length (sha256 m) = 32"
  by (simp add: sha256_def Let_def length_concat comp_def length_sha_blocks length_sha_h0 sum_list_triv)

lemma hex_digits_lower_hex:
  fixes b :: u8
  shows "is_lower_hex (digit_char (unat b div 16))" and "is_lower_hex (digit_char (unat b mod 16))"
proof -
  have "unat b < 256"
    using unsigned_less [of b, where ?'a = nat] by simp
  then have "unat b div 16 < 16"
    by (simp add: less_mult_imp_div_less)
  then show "is_lower_hex (digit_char (unat b div 16))"
    by (rule digit_char_is_lower_hex)
  show "is_lower_hex (digit_char (unat b mod 16))"
    by (rule digit_char_is_lower_hex) simp
qed

lemma hex_encode_Cons:
  "hex_encode (b # bs) = digit_char (unat b div 16) # digit_char (unat b mod 16) # hex_encode bs"
  by (simp add: hex_encode_def)

lemma hex_encode_Nil [simp]: "hex_encode [] = []"
  by (simp add: hex_encode_def)

lemma hex_encode_lower_hex: "list_all is_lower_hex (hex_encode bs)"
  by (induction bs) (simp_all add: hex_encode_Cons hex_digits_lower_hex)

lemma length_hex_encode [simp]: "length (hex_encode bs) = 2 * length bs"
  by (induction bs) (simp_all add: hex_encode_Cons)

section \<open>time.RFC3339Nano in UTC\<close>

text \<open>An instant is its number of nanoseconds since the Unix epoch. The date is the proleptic
  Gregorian one; the fraction drops trailing zeros and disappears when it is zero.\<close>

type_synonym instant = int

definition civil_of_days :: "int \<Rightarrow> int \<times> int \<times> int" where
  "civil_of_days d =
     (let z = d + 719468; era = z div 146097; doe = z mod 146097;
          yoe = (doe - doe div 1460 + doe div 36524 - doe div 146096) div 365;
          doy = doe - (365 * yoe + yoe div 4 - yoe div 100);
          mp = (5 * doy + 2) div 153;
          day = doy - (153 * mp + 2) div 5 + 1;
          month = (if mp < 10 then mp + 3 else mp - 9);
          year = yoe + era * 400 + (if month \<le> 2 then 1 else 0)
      in (year, month, day))"

definition pad_left :: "nat \<Rightarrow> string \<Rightarrow> string" where
  "pad_left n s = replicate (n - length s) (CHR ''0'') @ s"

definition pad_int :: "nat \<Rightarrow> int \<Rightarrow> string" where
  "pad_int n v = (if v < 0 then ''-'' @ pad_left n (num_text 10 (nat (- v)))
     else pad_left n (num_text 10 (nat v)))"

definition frac_text :: "int \<Rightarrow> string" where
  "frac_text ns = (if ns = 0 then []
     else ''.'' @ rev (dropWhile (\<lambda>c. c = CHR ''0'') (rev (pad_int 9 ns))))"

definition rfc3339_nano :: "instant \<Rightarrow> string" where
  "rfc3339_nano t =
     (let s = t div 1000000000; ns = t mod 1000000000; d = s div 86400; r = s mod 86400
      in case civil_of_days d of (y, m, dd) \<Rightarrow>
        pad_int 4 y @ ''-'' @ pad_int 2 m @ ''-'' @ pad_int 2 dd @ ''T'' @
        pad_int 2 (r div 3600) @ '':'' @ pad_int 2 (r mod 3600 div 60) @ '':'' @ pad_int 2 (r mod 60) @
        frac_text ns @ ''Z'')"

section \<open>Tables\<close>

text \<open>A table is the list of its rows. \<open>update_where\<close> is \<open>UPDATE ... WHERE\<close>; its \<open>RowsAffected\<close> is
  \<open>count_where\<close> on the table before.\<close>

definition count_where :: "('a \<Rightarrow> bool) \<Rightarrow> 'a list \<Rightarrow> nat" where
  "count_where P t = length (filter P t)"

definition update_where :: "('a \<Rightarrow> bool) \<Rightarrow> ('a \<Rightarrow> 'a) \<Rightarrow> 'a list \<Rightarrow> 'a list" where
  "update_where P f t = map (\<lambda>r. if P r then f r else r) t"

definition has_row :: "('a \<Rightarrow> bool) \<Rightarrow> 'a list \<Rightarrow> bool" where
  "has_row P t = list_ex P t"

lemma has_row_iff [table_simps]: "has_row P t \<longleftrightarrow> (\<exists>r \<in> set t. P r)"
  by (simp add: has_row_def list_ex_iff)

lemma set_update_where [table_simps]:
  "set (update_where P f t) = (\<lambda>r. if P r then f r else r) ` set t"
  by (simp add: update_where_def)

lemma length_update_where [simp]: "length (update_where P f t) = length t"
  by (simp add: update_where_def)

lemma map_update_where:
  "(\<And>r. P r \<Longrightarrow> g (f r) = g r) \<Longrightarrow> map g (update_where P f t) = map g t"
  by (auto simp: update_where_def)

lemma update_where_none: "\<not> has_row P t \<Longrightarrow> update_where P f t = t"
  by (auto simp: update_where_def has_row_iff map_idI)

lemma count_where_pos: "0 < count_where P t \<longleftrightarrow> has_row P t"
  by (auto simp: count_where_def has_row_iff filter_empty_conv)

lemma count_where_unique:
  assumes "distinct (map key t)" and "\<And>r r'. P r \<Longrightarrow> P r' \<Longrightarrow> key r = key r'"
  shows "count_where P t \<le> 1"
  using assms(1)
proof (induction t)
  case (Cons a t)
  show ?case
  proof (cases "P a")
    case True
    then have "key a = key r" if "P r" for r
      using assms(2) that by blast
    with Cons.prems have "\<not> has_row P t"
      by (metis distinct.simps(2) has_row_iff image_eqI list.set_map list.simps(9))
    then have "filter P t = []"
      by (auto simp: has_row_iff filter_empty_conv)
    with True show ?thesis by (simp add: count_where_def)
  next
    case False
    with Cons show ?thesis by (simp add: count_where_def)
  qed
qed (simp add: count_where_def)

lemma find_Some_set: "List.find P t = Some r \<Longrightarrow> r \<in> set t \<and> P r"
  by (auto simp: find_Some_iff)

lemma find_None_set: "List.find P t = None \<longleftrightarrow> (\<forall>r \<in> set t. \<not> P r)"
  by (auto simp: find_None_iff)

lemma find_unique:
  assumes "distinct (map key t)" and "r \<in> set t" and "P r"
    and "\<And>r'. P r' \<Longrightarrow> key r' = key r"
  shows "List.find P t = Some r"
proof (cases "List.find P t")
  case None
  with assms(2,3) show ?thesis by (auto simp: find_None_set)
next
  case (Some r')
  then have "r' \<in> set t" and "P r'" by (auto dest: find_Some_set)
  with assms have "r' = r" by (auto simp: distinct_map dest: inj_onD)
  with Some show ?thesis by simp
qed

text \<open>A \<^verbatim>\<open>*pgconn.PgError\<close> (SQLSTATE code and constraint name) or any other driver error.\<close>

datatype pg_error = PgError string string | DriverError string

text \<open>PostgreSQL refuses every further statement of a transaction in which one has failed on the server
  (\<open>25P02\<close>), and its COMMIT rolls back. The code returns on the first error nearly everywhere, so a
  transaction body that failed is not continued; the two places that swallow a statement's error (the
  gate read of the hold release, the recovery probe of the read API) carry the state of the
  transaction on.\<close>

datatype tx_state = TxOpen | TxAborted

fun tx_after :: "pg_error \<Rightarrow> tx_state" where
  "tx_after (PgError code name) = TxAborted"
| "tx_after (DriverError what) = TxOpen"

text \<open>Reading the rows of a query one by one, stopping at the first failing scan.\<close>

fun mapM_res :: "('a \<Rightarrow> 'e + 'b) \<Rightarrow> 'a list \<Rightarrow> 'e + 'b list" where
  "mapM_res f [] = Inr []"
| "mapM_res f (x # xs) = rbind (f x) (\<lambda>y. rbind (mapM_res f xs) (\<lambda>ys. Inr (y # ys)))"

lemma mapM_res_id: "(\<And>x. x \<in> set xs \<Longrightarrow> f x = Inr x) \<Longrightarrow> mapM_res f xs = Inr xs"
  by (induction xs) auto

lemma mapM_res_set: "mapM_res f xs = Inr ys \<Longrightarrow> y \<in> set ys \<Longrightarrow> \<exists>x \<in> set xs. f x = Inr y"
  by (induction xs arbitrary: ys) (auto simp: rbind_eq_Inr)

text \<open>The first violated constraint of a row: constraint names with their verdicts, in order.\<close>

fun first_violation :: "(string \<times> bool) list \<Rightarrow> string option" where
  "first_violation [] = None"
| "first_violation ((c, ok) # cs) = (if ok then first_violation cs else Some c)"

lemma first_violation_None: "first_violation cs = None \<longleftrightarrow> (\<forall>(c, ok) \<in> set cs. ok)"
  by (induction cs) (auto split: if_splits)

end
