(* ===== verification/TxEvolution.thy ===== *)
theory TxEvolution
  imports TxPrelude
begin

text \<open>
  The two interfaces through which the components reason about change. \<open>evolution\<close> and
  \<open>keyed_evolution\<close> are what a table owes to a preorder on its rows so that its history is only appended
  to and its rows only move forward. \<open>kept_along\<close> is what a labelled transition system owes to an
  invariant and a preorder on its states, and gives them along every trace.
\<close>

section \<open>Append-only tables whose rows move forward\<close>

definition grows :: "('r \<Rightarrow> 'r \<Rightarrow> bool) \<Rightarrow> 'r list \<Rightarrow> 'r list \<Rightarrow> bool" where
  "grows R xs ys \<longleftrightarrow> length xs \<le> length ys \<and> list_all2 R xs (take (length xs) ys)"

locale evolution =
  fixes R :: "'r \<Rightarrow> 'r \<Rightarrow> bool"
  assumes R_refl: "R x x"
    and R_trans: "R x y \<Longrightarrow> R y z \<Longrightarrow> R x z"
begin

lemma grows_refl: "grows R xs xs"
  by (simp add: grows_def list.rel_refl R_refl)

lemma grows_nth:
  "grows R xs ys \<longleftrightarrow> length xs \<le> length ys \<and> (\<forall>i < length xs. R (xs ! i) (ys ! i))"
  by (auto simp: grows_def list_all2_conv_all_nth)

lemma grows_trans:
  assumes "grows R xs ys" "grows R ys zs"
  shows "grows R xs zs"
  unfolding grows_nth
proof (intro conjI allI impI)
  show "length xs \<le> length zs" using assms by (simp add: grows_def)
  fix i assume "i < length xs"
  then have "R (xs ! i) (ys ! i)" "R (ys ! i) (zs ! i)" using assms by (simp_all add: grows_nth)
  then show "R (xs ! i) (zs ! i)" by (rule R_trans)
qed

lemma grows_append: "grows R xs (xs @ ys)"
  by (simp add: grows_def list.rel_refl R_refl)

lemma grows_update_where:
  assumes "\<And>r. r \<in> set xs \<Longrightarrow> P r \<Longrightarrow> R r (f r)"
  shows "grows R xs (update_where P f xs)"
  using assms by (auto simp: grows_def update_where_def list_all2_conv_all_nth R_refl)

lemma grows_row:
  assumes "grows R xs ys" "r \<in> set xs"
  shows "\<exists>r' \<in> set ys. R r r'"
proof -
  from assms(2) obtain i where "i < length xs" "xs ! i = r" by (auto simp: in_set_conv_nth)
  with assms(1) have "R r (ys ! i)" "i < length ys"
    by (auto simp: grows_def list_all2_conv_all_nth)
  then show ?thesis by force
qed

end

text \<open>A table whose rows also keep their key.\<close>

locale keyed_evolution = evolution +
  fixes key :: "'r \<Rightarrow> 'k"
  assumes R_key: "R x y \<Longrightarrow> key y = key x"
begin

lemma grows_key:
  assumes "grows R xs ys" "r \<in> set xs"
  obtains r' where "r' \<in> set ys" "key r' = key r" "R r r'"
  using grows_row [OF assms] R_key by blast

lemma keys_update_where:
  assumes "\<And>r. r \<in> set xs \<Longrightarrow> P r \<Longrightarrow> R r (f r)"
  shows "map key (update_where P f xs) = map key xs"
  using assms R_key by (auto simp: update_where_def)

lemma keys_grow: "grows R xs ys \<Longrightarrow> key ` set xs \<subseteq> key ` set ys"
  by (metis grows_key image_eqI image_subsetI)

end

lemma distinct_map_snoc:
  "distinct (map key (t @ [x])) \<longleftrightarrow> distinct (map key t) \<and> \<not> has_row (\<lambda>r. key r = key x) t"
  by (simp add: has_row_iff image_iff) metis

lemma sorted_wrt_snoc: "sorted_wrt Q (t @ [x]) \<longleftrightarrow> sorted_wrt Q t \<and> (\<forall>r \<in> set t. Q r x)"
  by (auto simp: sorted_wrt_append)

section \<open>Labelled transition systems\<close>

text \<open>What a labelled transition system owes to a state predicate and a preorder on states, and what its
  traces get from it.\<close>

locale kept_along =
  fixes step :: "'s \<Rightarrow> 'l \<Rightarrow> 's \<Rightarrow> bool" and trace :: "'s \<Rightarrow> 'l list \<Rightarrow> 's \<Rightarrow> bool"
    and I :: "'s \<Rightarrow> bool" and R :: "'s \<Rightarrow> 's \<Rightarrow> bool" and ok :: "'l \<Rightarrow> bool"
  assumes trace_Nil: "trace s [] t \<Longrightarrow> t = s"
    and trace_Cons: "trace s (x # xs) t \<Longrightarrow> \<exists>u. step s x u \<and> trace u xs t"
    and I_step: "I s \<Longrightarrow> step s x t \<Longrightarrow> ok x \<Longrightarrow> I t"
    and R_step: "I s \<Longrightarrow> step s x t \<Longrightarrow> ok x \<Longrightarrow> R s t"
    and preorder: "evolution R"
begin

lemma along: "trace s xs t \<Longrightarrow> I s \<Longrightarrow> \<forall>x \<in> set xs. ok x \<Longrightarrow> I t \<and> R s t"
proof (induction xs arbitrary: s)
  case Nil
  then show ?case using trace_Nil evolution.R_refl [OF preorder] by auto
next
  case (Cons x xs)
  then obtain u where "step s x u" "trace u xs t" using trace_Cons by blast
  with Cons show ?case using I_step R_step evolution.R_trans [OF preorder] by (metis list.set_intros)
qed

end

end
