(* ===== verification/NonceNumeric.thy ===== *)
theory NonceNumeric
  imports TxPrelude
begin

text \<open>
  Model of \<^verbatim>\<open>internal/nonce/numeric.go\<close>: the integer-only carriers of nonces and counts. A
  \<^verbatim>\<open>*big.Int\<close> is an \<open>int option\<close> (\<open>None\<close> for nil); each error message is a constructor that carries
  what the message prints. The lemmas give the exact domains of the parsers, the round trips of the
  decimal, hex and \<^verbatim>\<open>pgtype.Numeric\<close> carriers, and that the successor never wraps.
\<close>

datatype num_err =
    EmptyDecimal
  | NotUnsignedDecimal string
  | NotHexPrefixed string
  | EmptyHexQuantity string
  | NotHexQuantity string
  | MissingNumericValue
  | OutsideNonceRange int
  | NonceSpaceExhausted
  | NumericNotFinite
  | NumericFractional "32 word"

definition MaxNonceDecimal :: string where
  "MaxNonceDecimal = ''18446744073709551615''"

definition MaxNonceBig :: int where
  "MaxNonceBig = 2 ^ 64 - 1"

lemma MaxNonceBig_eval [simp]: "MaxNonceBig = 18446744073709551615"
  by (simp add: MaxNonceBig_def)

text \<open>\<^verbatim>\<open>(*big.Int).SetString(s, base)\<close> for the bases 10 and 16: an optional sign and one or more
  digits of the base.\<close>

definition base_digit :: "nat \<Rightarrow> char \<Rightarrow> bool" where
  "base_digit b c \<longleftrightarrow> is_hex c \<and> digit_val c < b"

definition big_digits :: "nat \<Rightarrow> string \<Rightarrow> int option" where
  "big_digits b ds =
     (if ds \<noteq> [] \<and> list_all (base_digit b) ds then Some (int (num_val b ds)) else None)"

definition big_set_string :: "nat \<Rightarrow> string \<Rightarrow> int option" where
  "big_set_string b s =
     (case s of
        [] \<Rightarrow> None
      | c # ds \<Rightarrow>
          if c = CHR ''-'' then map_option uminus (big_digits b ds)
          else if c = CHR ''+'' then big_digits b ds
          else big_digits b s)"

definition ValidateNonceRange :: "int option \<Rightarrow> num_err + unit" where
  "ValidateNonceRange n =
     (case n of
        None \<Rightarrow> Inl MissingNumericValue
      | Some v \<Rightarrow> if v < 0 \<or> v > MaxNonceBig then Inl (OutsideNonceRange v) else Inr ())"

definition ParseDecimal :: "string \<Rightarrow> num_err + int" where
  "ParseDecimal s =
     (if s = [] then Inl EmptyDecimal
      else if list_ex (\<lambda>c. byte c < 48 \<or> byte c > 57) s then Inl (NotUnsignedDecimal s)
      else case big_set_string 10 s of
             None \<Rightarrow> Inl (NotUnsignedDecimal s)
           | Some n \<Rightarrow> rbind (ValidateNonceRange (Some n)) (\<lambda>_. Inr n))"

definition ParseHexQuantity :: "string \<Rightarrow> num_err + int" where
  "ParseHexQuantity s =
     (if \<not> has_prefix s ''0x'' then Inl (NotHexPrefixed s)
      else let digits = drop 2 s in
        if digits = [] then Inl (EmptyHexQuantity s)
        else if list_ex (\<lambda>c. (byte c < 48 \<or> byte c > 57) \<and> (byte c < 97 \<or> byte c > 102)
                             \<and> (byte c < 65 \<or> byte c > 70)) digits
        then Inl (NotHexQuantity s)
        else case big_set_string 16 digits of
               None \<Rightarrow> Inl (NotHexQuantity s)
             | Some n \<Rightarrow> rbind (ValidateNonceRange (Some n)) (\<lambda>_. Inr n))"

definition NextNonce :: "int option \<Rightarrow> num_err + int" where
  "NextNonce n =
     rbind (ValidateNonceRange n) (\<lambda>_.
       let next = (case n of None \<Rightarrow> 0 | Some v \<Rightarrow> v) + 1
       in if next > MaxNonceBig then Inl NonceSpaceExhausted else Inr next)"

definition MaxBig :: "int option \<Rightarrow> int option \<Rightarrow> int option" where
  "MaxBig a b =
     (case (a, b) of
        (None, None) \<Rightarrow> None
      | (None, Some y) \<Rightarrow> Some y
      | (Some x, None) \<Rightarrow> Some x
      | (Some x, Some y) \<Rightarrow> if x \<ge> y then Some x else Some y)"

definition FormatDecimal :: "int option \<Rightarrow> string" where
  "FormatDecimal n = (case n of None \<Rightarrow> [] | Some v \<Rightarrow> int_text 10 v)"

definition FormatHexQuantity :: "int option \<Rightarrow> string" where
  "FormatHexQuantity n = (case n of None \<Rightarrow> [] | Some v \<Rightarrow> ''0x'' @ int_text 16 v)"

text \<open>The fields of \<^verbatim>\<open>pgtype.Numeric\<close> the source reads: the coefficient (a nil pointer possible), the
  \<^verbatim>\<open>int32\<close> decimal exponent, and the NaN, infinity and validity markers.\<close>

record pg_numeric =
  pn_Int :: "int option"
  pn_Exp :: "32 word"
  pn_NaN :: bool
  pn_Finite :: bool
  pn_Valid :: bool

definition NumericValue :: "int option \<Rightarrow> pg_numeric" where
  "NumericValue n =
     (case n of
        None \<Rightarrow> \<lparr>pn_Int = None, pn_Exp = 0, pn_NaN = False, pn_Finite = True, pn_Valid = False\<rparr>
      | Some v \<Rightarrow> \<lparr>pn_Int = Some v, pn_Exp = 0, pn_NaN = False, pn_Finite = True, pn_Valid = True\<rparr>)"

text \<open>\<^verbatim>\<open>(*big.Int).Exp(x, y, nil)\<close> is 1 for \<open>y \<le> 0\<close>; \<^verbatim>\<open>QuoRem\<close> truncates towards zero.\<close>

definition big_exp :: "int \<Rightarrow> int \<Rightarrow> int" where
  "big_exp x y = (if y \<le> 0 then 1 else x ^ nat y)"

definition quo_rem :: "int \<Rightarrow> int \<Rightarrow> int \<times> int" where
  "quo_rem a b = (let q = sgn a * sgn b * (\<bar>a\<bar> div \<bar>b\<bar>) in (q, a - q * b))"

definition BigFromNumeric :: "pg_numeric \<Rightarrow> num_err + int option" where
  "BigFromNumeric n =
     (if \<not> pn_Valid n then Inr None
      else if pn_NaN n \<or> \<not> pn_Finite n then Inl NumericNotFinite
      else let v = (case pn_Int n of None \<Rightarrow> 0 | Some i \<Rightarrow> i);
               range = (\<lambda>w. rbind (ValidateNonceRange (Some w)) (\<lambda>_. Inr (Some w)))
        in if sint (pn_Exp n) > 0 then range (v * big_exp 10 (sint (pn_Exp n)))
           else if sint (pn_Exp n) < 0 then
             (case quo_rem v (big_exp 10 (sint (- pn_Exp n))) of
                (q, r) \<Rightarrow> if r \<noteq> 0 then Inl (NumericFractional (pn_Exp n)) else range q)
           else range v)"

section \<open>Domains\<close>

definition in_nonce_range :: "int \<Rightarrow> bool" where
  "in_nonce_range v \<longleftrightarrow> 0 \<le> v \<and> v \<le> MaxNonceBig"

lemma ValidateNonceRange_Inr [simp, rbind_rules]:
  "ValidateNonceRange n = Inr u \<longleftrightarrow> (\<exists>v. n = Some v \<and> in_nonce_range v)"
  by (auto simp: ValidateNonceRange_def in_nonce_range_def split: option.splits)

lemma ValidateNonceRange_ok: "in_nonce_range v \<Longrightarrow> ValidateNonceRange (Some v) = Inr ()"
  by (simp add: ValidateNonceRange_def in_nonce_range_def)

lemma is_dec_not_out: "is_dec c \<longleftrightarrow> \<not> (byte c < 48 \<or> byte c > 57)"
  by (auto simp: is_dec_def)

lemma is_hex_not_out:
  "is_hex c \<longleftrightarrow> \<not> ((byte c < 48 \<or> byte c > 57) \<and> (byte c < 97 \<or> byte c > 102)
     \<and> (byte c < 65 \<or> byte c > 70))"
  by (auto simp: is_hex_def is_dec_def)

lemma is_dec_base_digit: "is_dec c \<Longrightarrow> base_digit 10 c"
  by (auto simp: base_digit_def is_hex_def digit_val_def is_dec_def)

lemma is_hex_base_digit: "is_hex c \<Longrightarrow> base_digit 16 c"
  by (auto simp: base_digit_def is_hex_def digit_val_def is_dec_def)

lemma is_hex_not_sign: "is_hex c \<Longrightarrow> c \<noteq> CHR ''-'' \<and> c \<noteq> CHR ''+''"
  by (auto simp: is_hex_def is_dec_def)

lemma is_dec_hex: "is_dec c \<Longrightarrow> is_hex c"
  by (simp add: is_hex_def)

lemma big_set_string_unsigned:
  "s \<noteq> [] \<Longrightarrow> list_all is_hex s \<Longrightarrow> list_all (base_digit b) s \<Longrightarrow>
   big_set_string b s = Some (int (num_val b s))"
  by (cases s) (auto simp: big_set_string_def big_digits_def dest: is_hex_not_sign)

text \<open>\<open>ParseDecimal\<close> accepts exactly the non-empty strings of decimal digits whose value lies in
  the nonce range 0..2^64-1, and returns that value: signs, blanks and other characters are refused,
  and an over-long digit string is refused rather than wrapped.\<close>

lemma ParseDecimal_exact:
  "ParseDecimal s = Inr n \<longleftrightarrow>
     s \<noteq> [] \<and> list_all is_dec s \<and> n = int (num_val 10 s) \<and> int (num_val 10 s) \<le> 2 ^ 64 - 1"
proof (cases "s \<noteq> [] \<and> list_all is_dec s")
  case True
  then have "big_set_string 10 s = Some (int (num_val 10 s))"
    by (intro big_set_string_unsigned) (auto simp: list_all_iff intro: is_dec_hex is_dec_base_digit)
  moreover have "\<not> list_ex (\<lambda>c. byte c < 48 \<or> byte c > 57) s"
    using True by (auto simp: list_ex_iff list_all_iff is_dec_not_out)
  ultimately show ?thesis using True
    by (auto simp: ParseDecimal_def rbind_eq_Inr in_nonce_range_def)
next
  case False
  then show ?thesis
    by (auto simp: ParseDecimal_def list_ex_iff list_all_iff is_dec_not_out)
qed

lemma ParseDecimal_range: "ParseDecimal s = Inr n \<Longrightarrow> in_nonce_range n"
  by (auto simp: ParseDecimal_def rbind_eq_Inr split: if_splits option.splits)

lemma ParseHexQuantity_range: "ParseHexQuantity s = Inr n \<Longrightarrow> in_nonce_range n"
  by (auto simp: ParseHexQuantity_def Let_def rbind_eq_Inr split: if_splits option.splits)

lemma ParseHexQuantity_digits:
  assumes "ds \<noteq> []" and "list_all is_hex ds"
  shows "ParseHexQuantity (''0x'' @ ds) = rbind (ValidateNonceRange (Some (int (num_val 16 ds))))
    (\<lambda>_. Inr (int (num_val 16 ds)))"
proof -
  have "big_set_string 16 ds = Some (int (num_val 16 ds))"
    using assms
    by (intro big_set_string_unsigned) (auto simp: list_all_iff intro: is_hex_base_digit)
  moreover have "\<not> list_ex (\<lambda>c. (byte c < 48 \<or> byte c > 57) \<and> (byte c < 97 \<or> byte c > 102)
       \<and> (byte c < 65 \<or> byte c > 70)) ds"
    using assms(2) by (auto simp: list_ex_iff list_all_iff is_hex_not_out)
  ultimately show ?thesis using assms(1)
    by (simp add: ParseHexQuantity_def has_prefix_def)
qed

section \<open>Round trips\<close>

lemma ParseDecimal_FormatDecimal:
  assumes "in_nonce_range n"
  shows "ParseDecimal (FormatDecimal (Some n)) = Inr n"
proof -
  have "0 \<le> n" using assms by (simp add: in_nonce_range_def)
  then have fmt: "FormatDecimal (Some n) = num_text 10 (nat n)"
    by (simp add: FormatDecimal_def int_text_def)
  have dec: "list_all is_dec (num_text 10 (nat n))" by (rule num_text_dec)
  then have nsign: "big_set_string 10 (num_text 10 (nat n)) = Some (int (num_val 10 (num_text 10 (nat n))))"
    by (intro big_set_string_unsigned) (auto simp: list_all_iff intro: is_dec_hex is_dec_base_digit)
  have "\<not> list_ex (\<lambda>c. byte c < 48 \<or> byte c > 57) (num_text 10 (nat n))"
    using dec by (auto simp: list_ex_iff list_all_iff is_dec_not_out)
  with fmt nsign \<open>0 \<le> n\<close> assms show ?thesis
    by (simp add: ParseDecimal_def num_val_text ValidateNonceRange_ok)
qed

lemma ParseHexQuantity_FormatHexQuantity:
  assumes "in_nonce_range n"
  shows "ParseHexQuantity (FormatHexQuantity (Some n)) = Inr n"
proof -
  have "0 \<le> n" using assms by (simp add: in_nonce_range_def)
  then have fmt: "FormatHexQuantity (Some n) = ''0x'' @ num_text 16 (nat n)"
    by (simp add: FormatHexQuantity_def int_text_def)
  have "list_all is_hex (num_text 16 (nat n))"
    using num_text_hex by (auto simp: list_all_iff is_hex_def is_lower_hex_def)
  then have "ParseHexQuantity (''0x'' @ num_text 16 (nat n)) =
      rbind (ValidateNonceRange (Some (int (num_val 16 (num_text 16 (nat n))))))
        (\<lambda>_. Inr (int (num_val 16 (num_text 16 (nat n)))))"
    by (intro ParseHexQuantity_digits) simp_all
  with fmt \<open>0 \<le> n\<close> assms show ?thesis by (simp add: num_val_text ValidateNonceRange_ok)
qed

text \<open>Every nonce survives each of its three carriers: the decimal text of the \<^verbatim>\<open>::text\<close>
  transport, the JSON-RPC hex quantity and the \<^verbatim>\<open>pgtype.Numeric\<close> parameter.\<close>

lemma numeric_round_trips:
  assumes "in_nonce_range n"
  shows "ParseDecimal (FormatDecimal (Some n)) = Inr n \<and>
    ParseHexQuantity (FormatHexQuantity (Some n)) = Inr n \<and>
    BigFromNumeric (NumericValue (Some n)) = Inr (Some n)"
  using assms
  by (simp add: ParseDecimal_FormatDecimal ParseHexQuantity_FormatHexQuantity
      BigFromNumeric_def NumericValue_def ValidateNonceRange_ok)

section \<open>Successor and maximum\<close>

text \<open>\<open>NextNonce\<close> returns the successor exactly for \<open>0 \<le> n < 2^64 - 1\<close>; at the end of the nonce
  space, and outside the range, it refuses, so its result never wraps.\<close>

lemma NextNonce_exact:
  "NextNonce n = Inr m \<longleftrightarrow> (\<exists>v. n = Some v \<and> 0 \<le> v \<and> v < 2 ^ 64 - 1 \<and> m = v + 1)"
  by (auto simp: NextNonce_def rbind_eq_Inr in_nonce_range_def Let_def split: option.splits)

lemma NextNonce_Inr:
  "NextNonce n = Inr m \<Longrightarrow> \<exists>v. n = Some v \<and> m = v + 1 \<and> in_nonce_range v \<and> in_nonce_range m"
  by (auto simp: NextNonce_def rbind_eq_Inr in_nonce_range_def Let_def split: if_splits option.splits)

lemma MaxBig_Some_left [simp]:
  "MaxBig (Some x) b = Some (case b of None \<Rightarrow> x | Some y \<Rightarrow> max x y)"
  by (auto simp: MaxBig_def max_def split: option.splits)

end
