(* ===== verification/NonceTypes.thy ===== *)
theory NonceTypes
  imports NonceNumeric
begin

text \<open>
  The vocabulary of \<^verbatim>\<open>internal/nonce/errors.go\<close> and the binding model of
  \<^verbatim>\<open>internal/nonce/binding.go\<close> with its explicit state machine. A Go string constant of a closed
  domain is a constructor; the constructor \<open>...Other\<close> stands for every other string, so that the
  default branches of the source stay reachable. The empty string is the one of \<open>Other []\<close>.
\<close>

section \<open>Outcomes and causes\<close>

datatype outcome =
    OutcomeNone
  | OutcomeAllocated
  | OutcomeReplayed
  | OutcomeAllocationConflict
  | OutcomeChainViewUnavailable
  | OutcomeScopeHeld
  | OutcomeSenderNotRegistered
  | OutcomeSenderDisabled
  | OutcomeAuthorizationInvalid
  | OutcomeRebuildIncomplete
  | OutcomeRecoveryActive
  | OutcomeTemporarilyUnavailable
  | OutcomeOperationConflict
  | ReadBound
  | ReadTerminal
  | ReadNotBound
  | ReadMismatch
  | ReadUnavailable
  | ReadUnauthenticated
  | AdminApplied
  | AdminNop
  | AdminRefused

fun outcome_str :: "outcome \<Rightarrow> string" where
  "outcome_str OutcomeNone = []"
| "outcome_str OutcomeAllocated = ''allocated''"
| "outcome_str OutcomeReplayed = ''replayed''"
| "outcome_str OutcomeAllocationConflict = ''allocation_conflict''"
| "outcome_str OutcomeChainViewUnavailable = ''chain_view_unavailable''"
| "outcome_str OutcomeScopeHeld = ''scope_held''"
| "outcome_str OutcomeSenderNotRegistered = ''sender_not_registered''"
| "outcome_str OutcomeSenderDisabled = ''sender_disabled''"
| "outcome_str OutcomeAuthorizationInvalid = ''authorization_invalid''"
| "outcome_str OutcomeRebuildIncomplete = ''rebuild_incomplete''"
| "outcome_str OutcomeRecoveryActive = ''recovery_active''"
| "outcome_str OutcomeTemporarilyUnavailable = ''temporarily_unavailable''"
| "outcome_str OutcomeOperationConflict = ''operation_conflict''"
| "outcome_str ReadBound = ''bound''"
| "outcome_str ReadTerminal = ''terminal''"
| "outcome_str ReadNotBound = ''not_bound''"
| "outcome_str ReadMismatch = ''mismatch''"
| "outcome_str ReadUnavailable = ''unavailable''"
| "outcome_str ReadUnauthenticated = ''unauthenticated''"
| "outcome_str AdminApplied = ''applied''"
| "outcome_str AdminNop = ''nop''"
| "outcome_str AdminRefused = ''refused''"

datatype hold_cause =
    CauseUnattributedConsumption
  | CauseUnexplainedGap
  | CauseChainViewDivergence
  | CauseOther string

fun cause_str :: "hold_cause \<Rightarrow> string" where
  "cause_str CauseUnattributedConsumption = ''unattributed_consumption''"
| "cause_str CauseUnexplainedGap = ''unexplained_gap''"
| "cause_str CauseChainViewDivergence = ''chain_view_divergence''"
| "cause_str (CauseOther s) = s"

text \<open>\<open>Error\<close> of \<^verbatim>\<open>errors.go\<close>: the classified refusal (its wrapped cause is the second component of
  \<open>Wrap\<close>, kept by the callers of the model where it matters).\<close>

record refusal =
  e_Outcome :: outcome
  e_Reason :: string

definition Refuse :: "outcome \<Rightarrow> string \<Rightarrow> refusal" where
  "Refuse oc r = \<lparr>e_Outcome = oc, e_Reason = r\<rparr>"

lemma Refuse_simps [simp]: "e_Outcome (Refuse oc r) = oc" "e_Reason (Refuse oc r) = r"
  by (simp_all add: Refuse_def)

definition Error_text :: "refusal \<Rightarrow> string" where
  "Error_text e = (if e_Reason e = [] then outcome_str (e_Outcome e)
     else outcome_str (e_Outcome e) @ '': '' @ e_Reason e)"

section \<open>Bindings and their state machine\<close>

datatype bstate =
    StateAllocated
  | StateInFlight
  | StateConsumed
  | StateReleased
  | StateOther string

fun state_str :: "bstate \<Rightarrow> string" where
  "state_str StateAllocated = ''allocated''"
| "state_str StateInFlight = ''in_flight''"
| "state_str StateConsumed = ''consumed''"
| "state_str StateReleased = ''released''"
| "state_str (StateOther s) = s"

record binding =
  b_BindingID :: string
  b_IntentID :: string
  b_ChainID :: int
  b_Sender :: string
  b_Nonce :: "int option"
  b_State :: bstate
  b_AuthorizationID :: string
  b_AuthorizationVersion :: string
  b_RegistrySeq :: int
  b_AllocationObservationID :: string
  b_CreatedAt :: instant
  b_UpdatedAt :: instant
  b_ConsumedAt :: "instant option"
  b_ReleasedAt :: "instant option"
  b_ReleaseOperationID :: "string option"

definition IsTerminal :: "bstate \<Rightarrow> bool" where
  "IsTerminal s \<longleftrightarrow> s = StateConsumed \<or> s = StateReleased"

definition CanTransition :: "bstate \<Rightarrow> bstate \<Rightarrow> bool" where
  "CanTransition from to =
     (case from of
        StateAllocated \<Rightarrow> to = StateInFlight \<or> to = StateConsumed \<or> to = StateReleased
      | StateInFlight \<Rightarrow> to = StateConsumed \<or> to = StateReleased
      | _ \<Rightarrow> False)"

definition CanAutoTransition :: "bstate \<Rightarrow> bstate \<Rightarrow> bool" where
  "CanAutoTransition from to \<longleftrightarrow> CanTransition from to \<and> to \<noteq> StateReleased"

definition TerminalConsistent :: "binding \<Rightarrow> bool" where
  "TerminalConsistent b =
     (if (b_State b = StateConsumed) \<noteq> (b_ConsumedAt b \<noteq> None) then False
      else if (b_State b = StateReleased) \<noteq> (b_ReleasedAt b \<noteq> None \<and> b_ReleaseOperationID b \<noteq> None)
      then False
      else True)"

record binding_event =
  ev_BindingID :: string
  ev_FromState :: "bstate option"
  ev_ToState :: bstate
  ev_ObservationID :: string
  ev_OperationID :: string
  ev_Detail :: string

text \<open>The rank of a state along its life; every legal edge climbs it, so no run of the machine
  returns to a state and at most two edges are ever taken.\<close>

fun state_rank :: "bstate \<Rightarrow> nat" where
  "state_rank StateAllocated = 0"
| "state_rank StateInFlight = 1"
| "state_rank StateConsumed = 2"
| "state_rank StateReleased = 2"
| "state_rank (StateOther s) = 3"

lemma CanTransition_cases:
  "CanTransition from to \<longleftrightarrow>
     (from = StateAllocated \<and> to = StateInFlight) \<or>
     (from \<in> {StateAllocated, StateInFlight} \<and> to \<in> {StateConsumed, StateReleased})"
  by (cases "from") (auto simp: CanTransition_def)

lemma CanTransition_terminal: "CanTransition from to \<Longrightarrow> \<not> IsTerminal from"
  by (auto simp: CanTransition_cases IsTerminal_def)

lemma CanTransition_rank: "CanTransition from to \<Longrightarrow> state_rank from < state_rank to"
  by (auto simp: CanTransition_cases)

lemma CanAutoTransition_cases:
  "CanAutoTransition from to \<longleftrightarrow>
     (from = StateAllocated \<and> to = StateInFlight) \<or>
     (from \<in> {StateAllocated, StateInFlight} \<and> to = StateConsumed)"
  by (auto simp: CanAutoTransition_def CanTransition_cases)

end
