(* ===== verification/NonceClassify.thy ===== *)
theory NonceClassify
  imports NonceTypes
begin

text \<open>
  Model of \<^verbatim>\<open>internal/nonce/classify.go\<close>: the classification matrix over the durable frontier and
  the fresh chain view, and the maximum bound nonce. The lemmas show that a candidate lies above
  everything bound, at or above the floor and the pending count, never depends on the chain view once
  a frontier exists, and that every other branch refuses.
\<close>

datatype classification =
    ClassificationConsistent
  | ClassificationBootstrapExternal
  | ClassificationUnattributedConsumption
  | ClassificationUnexplainedGap
  | ClassificationDivergence
  | ClassificationUnavailable
  | ClassificationOther string

fun class_str :: "classification \<Rightarrow> string" where
  "class_str ClassificationConsistent = ''consistent''"
| "class_str ClassificationBootstrapExternal = ''bootstrap_external_consumed''"
| "class_str ClassificationUnattributedConsumption = ''unattributed_consumption''"
| "class_str ClassificationUnexplainedGap = ''unexplained_gap''"
| "class_str ClassificationDivergence = ''divergence''"
| "class_str ClassificationUnavailable = ''unavailable''"
| "class_str (ClassificationOther s) = s"

record classification_input =
  ci_ReadFailed :: bool
  ci_Latest :: "int option"
  ci_Pending :: "int option"
  ci_PendingPrev :: "int option"
  ci_MaxBindingNonce :: "int option"
  ci_HasBindings :: bool
  ci_ReconciledFloor :: "int option"

record decision =
  d_Classification :: classification
  d_Candidate :: "int option"
  d_HoldCause :: hold_cause
  d_Refusal :: outcome

abbreviation NoCause :: hold_cause where
  "NoCause \<equiv> CauseOther []"

definition refused_as :: "classification \<Rightarrow> hold_cause \<Rightarrow> outcome \<Rightarrow> decision" where
  "refused_as c h r = \<lparr>d_Classification = c, d_Candidate = None, d_HoldCause = h, d_Refusal = r\<rparr>"

definition admitted_at :: "classification \<Rightarrow> int option \<Rightarrow> decision" where
  "admitted_at c n =
     \<lparr>d_Classification = c, d_Candidate = n, d_HoldCause = NoCause, d_Refusal = OutcomeNone\<rparr>"

lemma refused_as_sels [simp]:
  "d_Classification (refused_as c h r) = c" "d_Candidate (refused_as c h r) = None"
  "d_HoldCause (refused_as c h r) = h" "d_Refusal (refused_as c h r) = r"
  by (simp_all add: refused_as_def)

lemma admitted_at_sels [simp]:
  "d_Classification (admitted_at c n) = c" "d_Candidate (admitted_at c n) = n"
  "d_HoldCause (admitted_at c n) = NoCause" "d_Refusal (admitted_at c n) = OutcomeNone"
  by (simp_all add: admitted_at_def)

definition classifyFrontierBase :: "classification_input \<Rightarrow> num_err + int" where
  "classifyFrontierBase i =
     (if ci_HasBindings i \<and> ci_MaxBindingNonce i \<noteq> None then NextNonce (ci_MaxBindingNonce i)
      else if \<not> ci_HasBindings i \<and> ci_ReconciledFloor i \<noteq> None then
        rbind (ValidateNonceRange (ci_ReconciledFloor i)) (\<lambda>_. Inr (the (ci_ReconciledFloor i)))
      else Inr 0)"

definition Classify :: "classification_input \<Rightarrow> decision" where
  "Classify i =
     (case (ci_ReadFailed i, ci_Latest i, ci_Pending i) of
        (False, Some L, Some P) \<Rightarrow>
          if L > P \<or> (case ci_PendingPrev i of None \<Rightarrow> False | Some prev \<Rightarrow> P < prev)
          then refused_as ClassificationDivergence CauseChainViewDivergence OutcomeScopeHeld
          else let frontierExists = (ci_HasBindings i \<or> ci_ReconciledFloor i \<noteq> None) in
            (case classifyFrontierBase i of
               Inl _ \<Rightarrow> refused_as ClassificationUnavailable NoCause OutcomeTemporarilyUnavailable
             | Inr base \<Rightarrow>
                 if \<not> frontierExists \<and> P = 0 then admitted_at ClassificationConsistent (Some 0)
                 else if \<not> frontierExists then admitted_at ClassificationBootstrapExternal (Some P)
                 else if P \<le> base then
                   admitted_at ClassificationConsistent (MaxBig (Some base) (ci_ReconciledFloor i))
                 else if L > base then
                   refused_as ClassificationUnattributedConsumption CauseUnattributedConsumption
                     OutcomeScopeHeld
                 else refused_as ClassificationUnexplainedGap CauseUnexplainedGap OutcomeScopeHeld)
      | _ \<Rightarrow> refused_as ClassificationUnavailable NoCause OutcomeChainViewUnavailable)"

definition max_step :: "int option \<Rightarrow> binding \<Rightarrow> int option" where
  "max_step m b =
     (case b_Nonce b of
        None \<Rightarrow> m
      | Some n \<Rightarrow> (case m of None \<Rightarrow> Some n | Some x \<Rightarrow> if n > x then Some n else Some x))"

definition MaxBoundNonce :: "binding list \<Rightarrow> int option" where
  "MaxBoundNonce bs = foldl max_step None bs"

section \<open>The maximum bound nonce\<close>

lemma foldl_max_step_upper:
  "foldl max_step m bs = Some x \<Longrightarrow>
   (\<forall>y. m = Some y \<longrightarrow> y \<le> x) \<and> (\<forall>b \<in> set bs. \<forall>n. b_Nonce b = Some n \<longrightarrow> n \<le> x)"
proof (induction bs arbitrary: m)
  case (Cons b bs)
  then have IH: "(\<forall>y. max_step m b = Some y \<longrightarrow> y \<le> x) \<and>
      (\<forall>b \<in> set bs. \<forall>n. b_Nonce b = Some n \<longrightarrow> n \<le> x)"
    by simp
  then show ?case
    by (fastforce simp: max_step_def split: option.splits if_splits)
qed simp

lemma foldl_max_step_None:
  "foldl max_step m bs = None \<longleftrightarrow> m = None \<and> (\<forall>b \<in> set bs. b_Nonce b = None)"
  by (induction bs arbitrary: m) (auto simp: max_step_def split: option.splits)

lemma foldl_max_step_mem:
  "foldl max_step m bs = Some x \<Longrightarrow> m = Some x \<or> (\<exists>b \<in> set bs. b_Nonce b = Some x)"
proof (induction bs arbitrary: m)
  case (Cons b bs)
  then have "max_step m b = Some x \<or> (\<exists>b \<in> set bs. b_Nonce b = Some x)"
    by simp
  then show ?case
    by (auto simp: max_step_def split: option.splits if_splits)
qed simp

lemma MaxBoundNonce_upper: "MaxBoundNonce bs = Some x \<Longrightarrow> b \<in> set bs \<Longrightarrow> b_Nonce b = Some n \<Longrightarrow> n \<le> x"
  by (auto simp: MaxBoundNonce_def dest: foldl_max_step_upper)

lemma MaxBoundNonce_mem: "MaxBoundNonce bs = Some x \<Longrightarrow> \<exists>b \<in> set bs. b_Nonce b = Some x"
  by (auto simp: MaxBoundNonce_def dest: foldl_max_step_mem)

lemma MaxBoundNonce_None: "MaxBoundNonce bs = None \<longleftrightarrow> (\<forall>b \<in> set bs. b_Nonce b = None)"
  by (simp add: MaxBoundNonce_def foldl_max_step_None)

section \<open>The matrix\<close>

lemmas Classify_cases =
  Classify_def classifyFrontierBase_def

text \<open>What a candidate stands on: a readable view without contradiction or regression, and either no
  frontier (bootstrap at the pending count) or a frontier that covers the pending count.\<close>

lemma Classify_candidate:
  assumes "d_Candidate (Classify i) = Some c"
  obtains L P where "\<not> ci_ReadFailed i" "ci_Latest i = Some L" "ci_Pending i = Some P" "L \<le> P"
    and "\<And>prev. ci_PendingPrev i = Some prev \<Longrightarrow> prev \<le> P"
    and "(\<not> ci_HasBindings i \<and> ci_ReconciledFloor i = None \<and> c = P) \<or>
      (\<exists>base. (ci_HasBindings i \<or> ci_ReconciledFloor i \<noteq> None) \<and>
         classifyFrontierBase i = Inr base \<and> P \<le> base \<and>
         MaxBig (Some base) (ci_ReconciledFloor i) = Some c)"
  using assms that
  by (auto simp: Classify_def Let_def not_less
      split: bool.splits option.splits sum.splits if_splits simp del: MaxBig_Some_left)

lemma classifyFrontierBase_above:
  "classifyFrontierBase i = Inr base \<Longrightarrow> ci_HasBindings i \<Longrightarrow> ci_MaxBindingNonce i = Some m \<Longrightarrow> m < base"
  by (auto simp: classifyFrontierBase_def dest: NextNonce_Inr)

lemma classifyFrontierBase_range: "classifyFrontierBase i = Inr base \<Longrightarrow> in_nonce_range base"
  by (auto simp: classifyFrontierBase_def rbind_eq_Inr in_nonce_range_def
      dest!: NextNonce_Inr split: if_splits)

text \<open>A candidate is above every bound nonce, at or above the reconciled floor, and at or above
  both the mined and the pending count the chain reported, so it never names a nonce that is bound,
  reconciled or consumed.\<close>

lemma Classify_candidate_safe:
  assumes "d_Candidate (Classify i) = Some c"
  shows "(ci_HasBindings i \<longrightarrow> (\<forall>m. ci_MaxBindingNonce i = Some m \<longrightarrow> m < c)) \<and>
    (\<forall>f. ci_ReconciledFloor i = Some f \<longrightarrow> f \<le> c) \<and>
    (\<forall>p. ci_Pending i = Some p \<longrightarrow> p \<le> c) \<and> (\<forall>l. ci_Latest i = Some l \<longrightarrow> l \<le> c)"
proof -
  from assms obtain L P where view: "ci_Latest i = Some L" "ci_Pending i = Some P" "L \<le> P"
    and cand: "(\<not> ci_HasBindings i \<and> ci_ReconciledFloor i = None \<and> c = P) \<or>
      (\<exists>base. (ci_HasBindings i \<or> ci_ReconciledFloor i \<noteq> None) \<and>
         classifyFrontierBase i = Inr base \<and> P \<le> base \<and>
         MaxBig (Some base) (ci_ReconciledFloor i) = Some c)"
    by (rule Classify_candidate)
  from cand consider "\<not> ci_HasBindings i" "ci_ReconciledFloor i = None" "c = P"
    | base where "classifyFrontierBase i = Inr base" "P \<le> base"
      "MaxBig (Some base) (ci_ReconciledFloor i) = Some c"
    by (metis (no_types))
  then show ?thesis
  proof cases
    case 1
    with view show ?thesis by auto
  next
    case base: 2
    from base(3) have "base \<le> c" and "\<And>f. ci_ReconciledFloor i = Some f \<Longrightarrow> f \<le> c"
      by (auto split: option.splits)
    with base(1,2) view show ?thesis
      by (auto dest: classifyFrontierBase_above)
  qed
qed

lemma Classify_refusals:
  "d_Candidate (Classify i) = None \<longleftrightarrow> d_Refusal (Classify i) \<noteq> OutcomeNone"
  "d_HoldCause (Classify i) = NoCause \<longleftrightarrow> d_Refusal (Classify i) \<noteq> OutcomeScopeHeld"
  "d_Refusal (Classify i) \<in>
     {OutcomeNone, OutcomeScopeHeld, OutcomeChainViewUnavailable, OutcomeTemporarilyUnavailable}"
  by (auto simp: Classify_def Let_def split: bool.splits option.splits sum.splits if_splits)

text \<open>The matrix decides: it either gives a candidate and no refusal, or a refusal and no
  candidate; it asks for a hold exactly with \<open>scope_held\<close>; and an unreadable view, a contradictory or
  regressing view, and consumption above the frontier never give a candidate.\<close>

lemma Classify_fail_closed:
  shows "(d_Candidate (Classify i) = None \<longleftrightarrow> d_Refusal (Classify i) \<noteq> OutcomeNone) \<and>
    (d_HoldCause (Classify i) = NoCause \<longleftrightarrow> d_Refusal (Classify i) \<noteq> OutcomeScopeHeld) \<and>
    (d_Candidate (Classify i) \<noteq> None \<longleftrightarrow>
       d_Classification (Classify i) \<in> {ClassificationConsistent, ClassificationBootstrapExternal}) \<and>
    (d_Candidate (Classify i) \<noteq> None \<longrightarrow>
       \<not> ci_ReadFailed i \<and> ci_Latest i \<noteq> None \<and> ci_Pending i \<noteq> None \<and>
       the (ci_Latest i) \<le> the (ci_Pending i) \<and>
       (ci_HasBindings i \<longrightarrow> ci_MaxBindingNonce i \<noteq> None \<longrightarrow>
          the (ci_Pending i) \<le> the (ci_MaxBindingNonce i) + 1))"
proof -
  have "the (ci_Pending i) \<le> the (ci_MaxBindingNonce i) + 1"
    if "d_Candidate (Classify i) = Some c" "ci_HasBindings i" "ci_MaxBindingNonce i = Some m" for c m
  proof -
    from that(1) obtain P where "ci_Pending i = Some P"
      and "(\<not> ci_HasBindings i \<and> ci_ReconciledFloor i = None \<and> c = P) \<or>
        (\<exists>base. (ci_HasBindings i \<or> ci_ReconciledFloor i \<noteq> None) \<and>
           classifyFrontierBase i = Inr base \<and> P \<le> base \<and>
           MaxBig (Some base) (ci_ReconciledFloor i) = Some c)"
      by (rule Classify_candidate)
    with that show ?thesis
      by (auto simp: classifyFrontierBase_def dest: NextNonce_Inr)
  qed
  then show ?thesis
    by (auto simp: Classify_def Let_def split: bool.splits option.splits sum.splits if_splits)
qed

text \<open>Once a durable frontier exists the candidate comes from durable state alone: any two chain
  views that admit at all admit the same candidate.\<close>

lemma Classify_candidate_durable:
  assumes "ci_HasBindings i \<or> ci_ReconciledFloor i \<noteq> None"
    and "d_Candidate (Classify i) = Some c"
    and "d_Candidate (Classify (i\<lparr>ci_Latest := l, ci_Pending := p, ci_PendingPrev := q\<rparr>)) = Some c'"
  shows "c = c'"
proof -
  let ?j = "i\<lparr>ci_Latest := l, ci_Pending := p, ci_PendingPrev := q\<rparr>"
  have base: "classifyFrontierBase ?j = classifyFrontierBase i"
    by (auto simp: classifyFrontierBase_def)
  from assms(2) obtain P where "(\<not> ci_HasBindings i \<and> ci_ReconciledFloor i = None \<and> c = P) \<or>
      (\<exists>base. (ci_HasBindings i \<or> ci_ReconciledFloor i \<noteq> None) \<and>
         classifyFrontierBase i = Inr base \<and> P \<le> base \<and>
         MaxBig (Some base) (ci_ReconciledFloor i) = Some c)"
    by (rule Classify_candidate)
  moreover from assms(3) obtain P' where
    "(\<not> ci_HasBindings ?j \<and> ci_ReconciledFloor ?j = None \<and> c' = P') \<or>
      (\<exists>base. (ci_HasBindings ?j \<or> ci_ReconciledFloor ?j \<noteq> None) \<and>
         classifyFrontierBase ?j = Inr base \<and> P' \<le> base \<and>
         MaxBig (Some base) (ci_ReconciledFloor ?j) = Some c')"
    by (rule Classify_candidate)
  ultimately have "\<exists>base. classifyFrontierBase i = Inr base \<and>
      MaxBig (Some base) (ci_ReconciledFloor i) = Some c"
    and "\<exists>base. classifyFrontierBase i = Inr base \<and>
      MaxBig (Some base) (ci_ReconciledFloor i) = Some c'"
    using assms(1) base by auto
  then show ?thesis by auto
qed

end
