(* ===== verification/NonceStore.thy ===== *)
theory NonceStore
  imports NonceClassify "HOL-Library.Product_Lexorder" "HOL-Library.List_Lexorder"
    "HOL-Library.Char_ord"
begin

text \<open>
  The durable state of the nonce manager and the statements that read and write it: the tables of
  \<^verbatim>\<open>migrations/000008_nonce_manager.sql\<close> with their constraints, the read-only 006 and 007 tables,
  and the in-transaction helpers of \<^verbatim>\<open>coord.go\<close>, \<^verbatim>\<open>registry.go\<close>, \<^verbatim>\<open>hold.go\<close>,
  \<^verbatim>\<open>binding.go\<close> and \<^verbatim>\<open>observe.go\<close> under \<^verbatim>\<open>internal/nonce\<close>.

  A table is the list of its rows. Each SQL statement of the source is named by a constructor of
  \<open>stmt\<close>; the environment says, for every statement, whether PostgreSQL answers it with an error of
  its own (a timeout, a lost connection, a concurrent unique violation), so that every \<open>err != nil\<close>
  branch of the source is reachable. Constraint violations caused by the rows themselves are computed.
  \<open>now()\<close>, \<open>clock_timestamp()\<close>, the random bytes of minted identifiers and whether a COMMIT that
  reported an error nevertheless took effect are also given by the environment. Locks
  (\<open>FOR UPDATE\<close>, \<open>FOR SHARE\<close>) only serialise; a transaction is one step of the model.
\<close>

section \<open>Statements, faults and the environment\<close>

datatype stmt =
    BeginTx | CommitTx | LocalWriteGuard | ReadLockGuard
  | EnsureCoordRow | LockCoordRow
  | IndexerPauseExists | LogPauseExists | DepositPauseExists | ActiveRecovery
  | EnsureScopeRow | LockScopeRow | ShareScopeRow | ReadScopeState
  | ReadRegistryBySender | ReadActiveHolds | ReadActiveHoldByCause | InsertHold | ScopeIsHeld
  | UpdateScopeFrontier | AdvanceScopeFloor
  | ReadBindingByID | ReadBindingByIntent | ReadBindingByNonce | ReadBindingsByScope
  | InsertBinding | InsertBindingEvent string | AdvanceBindingState string
  | ReadAuthorizationForShare | InsertObservation
  | ReadHoldByIDForUpdate | ReleaseHold | ReadObservationScope | ReadBindingByIDForUpdate
  | EnsureRegistryRow | BumpRegistryActive | DisableRegistry
  | InsertAudit | ReadAuditByOperationID | ListKnownScopes
  | ReadRecoveryPhase | ReadRecoveryReleased
  | CountConstraints | CountScopes | CountBindings | CountHolds
  | CountInvalidBindings | CountInvalidRegistry | CountInvalidEvents | CountInvalidObservations
  | CountInvalidScopes | CountInvalidHolds | CountInvalidOps

datatype mint = MintObservation | MintHold | MintBinding

record env =
  fault :: "stmt \<Rightarrow> pg_error option"
  now_at :: instant
  clock_at :: instant
  rand_bytes :: "mint \<Rightarrow> u8 list option"
  commit_durable :: bool

datatype terr =
    Pg stmt pg_error
  | NoRows stmt
  | NumericField string num_err
  | MintFailed mint
  | UnknownHoldCause hold_cause
  | HoldNeedsObservation
  | FrontierNeedsObservation
  | ScopeRowMissing
  | IllegalTransition bstate bstate
  | ObservationChainID int
  | ObservationSender string
  | ObservationKindUnknown string
  | ObservationNotPersistable classification
  | ObservationHeadHash string
  | CreationEventMissing
  | HoldLostActiveRow
  | BindingLostState
  | ReleaseEventMissing
  | BindingWithoutScope string
  | BindingWithoutRegistry string

definition sql :: "env \<Rightarrow> stmt \<Rightarrow> terr + 'a \<Rightarrow> terr + 'a" where
  "sql e s k = (case fault e s of Some p \<Rightarrow> Inl (Pg s p) | None \<Rightarrow> k)"

lemma sql_Inr [rbind_rules]: "sql e s k = Inr x \<longleftrightarrow> fault e s = None \<and> k = Inr x"
  by (auto simp: sql_def split: option.splits)

lemma sql_ok [simp]: "fault e s = None \<Longrightarrow> sql e s k = k"
  by (simp add: sql_def)

section \<open>Rows\<close>

datatype registry_state = RegistryActive | RegistryDisabled | RegistryOther string

fun registry_state_str :: "registry_state \<Rightarrow> string" where
  "registry_state_str RegistryActive = ''active''"
| "registry_state_str RegistryDisabled = ''disabled''"
| "registry_state_str (RegistryOther s) = s"

record wallet_registry =
  r_ChainID :: int
  r_Sender :: string
  r_State :: registry_state
  r_RegistrySeq :: int
  r_CreatedAt :: instant
  r_UpdatedAt :: instant

record scope_state =
  s_ChainID :: int
  s_Sender :: string
  s_ReconciledFloor :: "int option"
  s_LastLatest :: "int option"
  s_LastPending :: "int option"
  s_LastObservationID :: "string option"
  s_UpdatedAt :: instant

datatype hold_status = HoldStatusActive | HoldStatusReleased | HoldStatusOther string

record scope_hold =
  h_HoldID :: string
  h_ChainID :: int
  h_Sender :: string
  h_Cause :: hold_cause
  h_Status :: hold_status
  h_EstablishedAt :: instant
  h_EvidenceObservationID :: string
  h_EvidenceDetail :: string
  h_ReleasedAt :: "instant option"
  h_ReleasedBy :: "string option"
  h_ReleaseOperationID :: "string option"
  h_ReleaseEvidence :: "string option"
  h_ReleaseObservationID :: "string option"

datatype obs_kind = ObservationKindAllocation | ObservationKindReconcile | ObservationKindOther string

record observation =
  o_ObservationID :: string
  o_ChainID :: int
  o_Sender :: string
  o_Kind :: obs_kind
  o_Classification :: classification
  o_LatestCount :: "int option"
  o_PendingCount :: "int option"
  o_HeadNumber :: "int option"
  o_HeadHash :: string
  o_ErrorClass :: string
  o_RPCRef :: string

datatype admin_action =
    AdminActionHoldRelease
  | AdminActionBindingRelease
  | AdminActionRegistryRegister
  | AdminActionRegistryDisable
  | AdminActionOther string

record admin_audit =
  au_OperationID :: string
  au_Action :: admin_action
  au_ChainID :: int
  au_Sender :: string
  au_SubjectID :: string
  au_Outcome :: outcome
  au_Operator :: string
  au_Reason :: string
  au_Evidence :: string
  au_Detail :: string
  au_RecordedAt :: instant

text \<open>The 007 grant columns this package reads, the 006 recovery row and the coordination row.\<close>

record authorization_row =
  az_AuthorizationID :: string
  az_ChainID :: int
  az_Asset :: string
  az_Recipient :: string
  az_Amount :: int
  az_State :: string
  az_ExpiresAt :: "instant option"

record recovery_row =
  rr_ChainID :: int
  rr_RecoveryID :: string
  rr_Phase :: string

record lease_row =
  l_ChainID :: int
  l_OwnerID :: string
  l_FencingToken :: int
  l_ExpiresAt :: instant

record nonce_db =
  registry_t :: "wallet_registry list"
  scope_t :: "scope_state list"
  binding_t :: "binding list"
  event_t :: "binding_event list"
  observation_t :: "observation list"
  hold_t :: "scope_hold list"
  audit_t :: "admin_audit list"
  lease_t :: "lease_row list"
  indexer_pause_t :: "int list"
  log_pause_t :: "int list"
  deposit_pause_t :: "int list"
  recovery_t :: "recovery_row list"
  recovery_event_t :: "(int \<times> string) list"
  authorization_t :: "authorization_row list"
  pg_constraint_t :: "string list"

section \<open>Coordination and 006 gates (coord.go)\<close>

definition coordPlaceholderExpirySeconds :: int where
  "coordPlaceholderExpirySeconds = -3600"

definition sender_ok :: "string \<Rightarrow> bool" where
  "sender_ok s = matches_lower_hex 40 s"

definition lockChain :: "env \<Rightarrow> nonce_db \<Rightarrow> int \<Rightarrow> terr + nonce_db" where
  "lockChain e db chain =
     sql e LocalWriteGuard (
     sql e EnsureCoordRow (
       let db' = (if has_row (\<lambda>l. l_ChainID l = chain) (lease_t db) then db
                  else db\<lparr>lease_t := lease_t db @
                    [\<lparr>l_ChainID = chain, l_OwnerID = ''nonce-008'', l_FencingToken = 0,
                      l_ExpiresAt = now_at e + coordPlaceholderExpirySeconds * 1000000000\<rparr>]\<rparr>)
       in sql e LockCoordRow
            (if has_row (\<lambda>l. l_ChainID l = chain) (lease_t db') then Inr db'
             else Inl (NoRows LockCoordRow))))"

record gate_state =
  g_IndexerPause :: bool
  g_LogPause :: bool
  g_DepositPause :: bool
  g_RecoveryID :: string
  g_RecoveryPhase :: string

definition GateState_Any :: "gate_state \<Rightarrow> bool" where
  "GateState_Any g \<longleftrightarrow> g_IndexerPause g \<or> g_LogPause g \<or> g_DepositPause g \<or> g_RecoveryID g \<noteq> []"

definition GateState_Causes :: "gate_state \<Rightarrow> string list" where
  "GateState_Causes g =
     (if g_IndexerPause g then [''indexer_pause''] else []) @
     (if g_LogPause g then [''log_pause''] else []) @
     (if g_DepositPause g then [''deposit_pause''] else []) @
     (if g_RecoveryID g \<noteq> [] then [''reorg_recovery:'' @ g_RecoveryPhase g] else [])"

definition GateState_Refusal :: "gate_state \<Rightarrow> outcome" where
  "GateState_Refusal g = (if GateState_Any g then OutcomeRecoveryActive else OutcomeNone)"

definition gate_of :: "nonce_db \<Rightarrow> int \<Rightarrow> gate_state" where
  "gate_of db chain =
     (let active = List.find (\<lambda>r. rr_ChainID r = chain) (recovery_t db) in
      \<lparr>g_IndexerPause = (chain \<in> set (indexer_pause_t db)),
       g_LogPause = (chain \<in> set (log_pause_t db)),
       g_DepositPause = (chain \<in> set (deposit_pause_t db)),
       g_RecoveryID = (case active of None \<Rightarrow> [] | Some r \<Rightarrow> rr_RecoveryID r),
       g_RecoveryPhase = (case active of None \<Rightarrow> [] | Some r \<Rightarrow> rr_Phase r)\<rparr>)"

definition readGateStateTx :: "env \<Rightarrow> nonce_db \<Rightarrow> int \<Rightarrow> terr + gate_state" where
  "readGateStateTx e db chain =
     sql e IndexerPauseExists (
     sql e LogPauseExists (
     sql e DepositPauseExists (
     sql e ActiveRecovery (Inr (gate_of db chain)))))"

definition in_scope :: "int \<Rightarrow> string \<Rightarrow> scope_state \<Rightarrow> bool" where
  "in_scope chain sender s \<longleftrightarrow> s_ChainID s = chain \<and> s_Sender s = sender"

definition registered :: "nonce_db \<Rightarrow> int \<Rightarrow> string \<Rightarrow> bool" where
  "registered db chain sender =
     has_row (\<lambda>r. r_ChainID r = chain \<and> r_Sender r = sender) (registry_t db)"

definition ensureScopeRowTx :: "env \<Rightarrow> nonce_db \<Rightarrow> int \<Rightarrow> string \<Rightarrow> terr + nonce_db" where
  "ensureScopeRowTx e db chain sender =
     sql e EnsureScopeRow (
       if \<not> chain > 0 then Inl (Pg EnsureScopeRow (PgError ''23514'' ''nonce_scope_state_chain_id_check''))
       else if \<not> sender_ok sender then
         Inl (Pg EnsureScopeRow (PgError ''23514'' ''nonce_scope_state_sender_check''))
       else if has_row (in_scope chain sender) (scope_t db) then Inr db
       else if \<not> registered db chain sender then
         Inl (Pg EnsureScopeRow (PgError ''23503'' ''nonce_scope_state_registry_fkey''))
       else Inr (db\<lparr>scope_t := scope_t db @
              [\<lparr>s_ChainID = chain, s_Sender = sender, s_ReconciledFloor = None, s_LastLatest = None,
                s_LastPending = None, s_LastObservationID = None, s_UpdatedAt = now_at e\<rparr>]\<rparr>))"

definition lockScopeRowTx :: "env \<Rightarrow> nonce_db \<Rightarrow> int \<Rightarrow> string \<Rightarrow> terr + unit" where
  "lockScopeRowTx e db chain sender =
     sql e LockScopeRow
       (if has_row (in_scope chain sender) (scope_t db) then Inr () else Inl (NoRows LockScopeRow))"

definition shareScopeRowTx :: "env \<Rightarrow> nonce_db \<Rightarrow> int \<Rightarrow> string \<Rightarrow> terr + bool" where
  "shareScopeRowTx e db chain sender =
     sql e ShareScopeRow (Inr (has_row (in_scope chain sender) (scope_t db)))"

text \<open>The startup gate: its zero value is closed.\<close>

record rebuild_gate =
  rg_open :: bool
  rg_reason :: string

definition NewRebuildGate :: rebuild_gate where
  "NewRebuildGate = \<lparr>rg_open = False, rg_reason = []\<rparr>"

definition RebuildGate_Open :: "rebuild_gate \<Rightarrow> rebuild_gate" where
  "RebuildGate_Open g = g\<lparr>rg_open := True, rg_reason := []\<rparr>"

definition RebuildGate_KeepClosed :: "rebuild_gate \<Rightarrow> string \<Rightarrow> rebuild_gate" where
  "RebuildGate_KeepClosed g reason = g\<lparr>rg_open := False, rg_reason := reason\<rparr>"

definition RebuildGate_State :: "rebuild_gate \<Rightarrow> bool \<times> string" where
  "RebuildGate_State g = (rg_open g, rg_reason g)"

definition RebuildGate_IsOpen :: "rebuild_gate \<Rightarrow> bool" where
  "RebuildGate_IsOpen g = (case RebuildGate_State g of (opened, _) \<Rightarrow> opened)"

section \<open>Registry (registry.go)\<close>

definition readRegistryBySenderTx :: "env \<Rightarrow> nonce_db \<Rightarrow> int \<Rightarrow> string \<Rightarrow> terr + wallet_registry option" where
  "readRegistryBySenderTx e db chain sender =
     sql e ReadRegistryBySender
       (Inr (List.find (\<lambda>r. r_ChainID r = chain \<and> r_Sender r = sender) (registry_t db)))"

definition AdmissionRefusal :: "wallet_registry option \<Rightarrow> outcome" where
  "AdmissionRefusal r =
     (case r of
        None \<Rightarrow> OutcomeSenderNotRegistered
      | Some w \<Rightarrow> if r_State w \<noteq> RegistryActive then OutcomeSenderDisabled else OutcomeNone)"

section \<open>Holds and the scope frontier (hold.go)\<close>

definition holdCauses :: "hold_cause \<Rightarrow> bool" where
  "holdCauses c \<longleftrightarrow>
     c = CauseUnattributedConsumption \<or> c = CauseUnexplainedGap \<or> c = CauseChainViewDivergence"

definition hold_active_in :: "int \<Rightarrow> string \<Rightarrow> scope_hold \<Rightarrow> bool" where
  "hold_active_in chain sender h \<longleftrightarrow>
     h_ChainID h = chain \<and> h_Sender h = sender \<and> h_Status h = HoldStatusActive"

definition hold_order :: "scope_hold list \<Rightarrow> scope_hold list" where
  "hold_order hs = sort_key (\<lambda>h. (h_EstablishedAt h, h_HoldID h)) hs"

definition readActiveHoldByCauseTx ::
  "env \<Rightarrow> nonce_db \<Rightarrow> int \<Rightarrow> string \<Rightarrow> hold_cause \<Rightarrow> terr + scope_hold option" where
  "readActiveHoldByCauseTx e db chain sender cause =
     sql e ReadActiveHoldByCause
       (Inr (case hold_order (filter (\<lambda>h. hold_active_in chain sender h \<and> h_Cause h = cause) (hold_t db)) of
               [] \<Rightarrow> None | h # _ \<Rightarrow> Some h))"

definition readActiveHoldsTx :: "env \<Rightarrow> nonce_db \<Rightarrow> int \<Rightarrow> string \<Rightarrow> terr + scope_hold list" where
  "readActiveHoldsTx e db chain sender =
     sql e ReadActiveHolds (Inr (hold_order (filter (hold_active_in chain sender) (hold_t db))))"

definition scopeIsHeldTx :: "env \<Rightarrow> nonce_db \<Rightarrow> int \<Rightarrow> string \<Rightarrow> terr + bool" where
  "scopeIsHeldTx e db chain sender =
     sql e ScopeIsHeld (Inr (has_row (hold_active_in chain sender) (hold_t db)))"

record hold_establishment =
  he_ChainID :: int
  he_Sender :: string
  he_Cause :: hold_cause
  he_ObservationID :: string
  he_Detail :: string

definition newHoldID :: "env \<Rightarrow> terr + string" where
  "newHoldID e = (case rand_bytes e MintHold of
     None \<Rightarrow> Inl (MintFailed MintHold) | Some bs \<Rightarrow> Inr (''nh-'' @ hex_encode bs))"

definition hold_insert_error :: "nonce_db \<Rightarrow> scope_hold \<Rightarrow> pg_error option" where
  "hold_insert_error db h =
     (case first_violation
        [(''nonce_scope_holds_status_consistency'',
            (h_Status h = HoldStatusActive) = (h_ReleasedAt h = None)),
         (''nonce_scope_holds_chain_id_check'', h_ChainID h > 0),
         (''nonce_scope_holds_sender_check'', sender_ok (h_Sender h)),
         (''nonce_scope_holds_cause_check'', holdCauses (h_Cause h)),
         (''nonce_scope_holds_status_check'',
            h_Status h = HoldStatusActive \<or> h_Status h = HoldStatusReleased)] of
        Some c \<Rightarrow> Some (PgError ''23514'' c)
      | None \<Rightarrow>
          if has_row (\<lambda>h'. h_HoldID h' = h_HoldID h) (hold_t db)
          then Some (PgError ''23505'' ''nonce_scope_holds_pkey'')
          else if \<not> registered db (h_ChainID h) (h_Sender h)
          then Some (PgError ''23503'' ''nonce_scope_holds_registry_fkey'')
          else None)"

text \<open>The zero \<^verbatim>\<open>time.Time\<close>, midnight of January 1 in the year 1: the hold that was just inserted is answered
  without its column defaults.\<close>

definition zero_time :: instant where
  "zero_time = - 62135596800 * 1000000000"

definition establishHoldTx :: "env \<Rightarrow> nonce_db \<Rightarrow> hold_establishment \<Rightarrow> terr + nonce_db \<times> scope_hold" where
  "establishHoldTx e db est =
     (if \<not> holdCauses (he_Cause est) then Inl (UnknownHoldCause (he_Cause est))
      else if he_ObservationID est = [] then Inl HoldNeedsObservation
      else rbind (readActiveHoldByCauseTx e db (he_ChainID est) (he_Sender est) (he_Cause est)) (\<lambda>existing.
        case existing of
          Some h \<Rightarrow> Inr (db, h)
        | None \<Rightarrow>
            rbind (newHoldID e) (\<lambda>holdID.
              let row = \<lparr>h_HoldID = holdID, h_ChainID = he_ChainID est, h_Sender = he_Sender est,
                    h_Cause = he_Cause est, h_Status = HoldStatusActive, h_EstablishedAt = now_at e,
                    h_EvidenceObservationID = he_ObservationID est, h_EvidenceDetail = he_Detail est,
                    h_ReleasedAt = None, h_ReleasedBy = None, h_ReleaseOperationID = None,
                    h_ReleaseEvidence = None, h_ReleaseObservationID = None\<rparr>
              in sql e InsertHold
                   (case hold_insert_error db row of
                      Some p \<Rightarrow> Inl (Pg InsertHold p)
                    | None \<Rightarrow> Inr (db\<lparr>hold_t := hold_t db @ [row]\<rparr>, row\<lparr>h_EstablishedAt := zero_time\<rparr>)))))"

definition parseNullableDecimal :: "string \<Rightarrow> string option \<Rightarrow> terr + int option" where
  "parseNullableDecimal field txt =
     (case txt of
        None \<Rightarrow> Inr None
      | Some s \<Rightarrow> map_err (NumericField field) (rbind (ParseDecimal s) (\<lambda>n. Inr (Some n))))"

definition numeric_text :: "int option \<Rightarrow> string option" where
  "numeric_text n = map_option (\<lambda>v. FormatDecimal (Some v)) n"

definition readScopeStateTx :: "env \<Rightarrow> nonce_db \<Rightarrow> int \<Rightarrow> string \<Rightarrow> terr + scope_state option" where
  "readScopeStateTx e db chain sender =
     sql e ReadScopeState
       (case List.find (in_scope chain sender) (scope_t db) of
          None \<Rightarrow> Inr None
        | Some st \<Rightarrow>
            rbind (parseNullableDecimal ''reconciled floor'' (numeric_text (s_ReconciledFloor st))) (\<lambda>f.
            rbind (parseNullableDecimal ''last_latest'' (numeric_text (s_LastLatest st))) (\<lambda>l.
            rbind (parseNullableDecimal ''last_pending'' (numeric_text (s_LastPending st))) (\<lambda>p.
              Inr (Some \<lparr>s_ChainID = chain, s_Sender = sender, s_ReconciledFloor = f, s_LastLatest = l,
                     s_LastPending = p, s_LastObservationID = s_LastObservationID st,
                     s_UpdatedAt = s_UpdatedAt st\<rparr>)))))"

definition updateScopeFrontierTx ::
  "env \<Rightarrow> nonce_db \<Rightarrow> int \<Rightarrow> string \<Rightarrow> int option \<Rightarrow> int option \<Rightarrow> string \<Rightarrow> terr + nonce_db" where
  "updateScopeFrontierTx e db chain sender latest pending obsID =
     rbind (map_err (NumericField ''scope last_latest'') (ValidateNonceRange latest)) (\<lambda>_.
     rbind (map_err (NumericField ''scope last_pending'') (ValidateNonceRange pending)) (\<lambda>_.
       if obsID = [] then Inl FrontierNeedsObservation
       else sql e UpdateScopeFrontier
              (if count_where (in_scope chain sender) (scope_t db) \<noteq> 1 then Inl ScopeRowMissing
               else Inr (db\<lparr>scope_t := update_where (in_scope chain sender)
                      (\<lambda>s. s\<lparr>s_LastLatest := latest, s_LastPending := pending,
                              s_LastObservationID := Some obsID, s_UpdatedAt := now_at e\<rparr>)
                      (scope_t db)\<rparr>))))"

definition floor_under :: "int \<Rightarrow> string \<Rightarrow> int \<Rightarrow> scope_state \<Rightarrow> bool" where
  "floor_under chain sender v s \<longleftrightarrow>
     in_scope chain sender s \<and> (case s_ReconciledFloor s of None \<Rightarrow> True | Some f \<Rightarrow> f < v)"

definition raise_floor :: "env \<Rightarrow> int \<Rightarrow> scope_state \<Rightarrow> scope_state" where
  "raise_floor e v s =
     s\<lparr>s_ReconciledFloor := Some (max (case s_ReconciledFloor s of None \<Rightarrow> 0 | Some f \<Rightarrow> f) v),
       s_UpdatedAt := now_at e\<rparr>"

definition advanceScopeFloorTx ::
  "env \<Rightarrow> nonce_db \<Rightarrow> int \<Rightarrow> string \<Rightarrow> int option \<Rightarrow> terr + nonce_db \<times> bool" where
  "advanceScopeFloorTx e db chain sender floor =
     rbind (map_err (NumericField ''scope reconciled floor'') (ValidateNonceRange floor)) (\<lambda>_.
       let v = the floor
       in sql e AdvanceScopeFloor
            (Inr (db\<lparr>scope_t := update_where (floor_under chain sender v) (raise_floor e v) (scope_t db)\<rparr>,
                  count_where (floor_under chain sender v) (scope_t db) = 1)))"

section \<open>Binding rows (binding.go)\<close>

definition scanBinding :: "binding \<Rightarrow> terr + binding" where
  "scanBinding row =
     (case ParseDecimal (FormatDecimal (b_Nonce row)) of
        Inl err \<Rightarrow> Inl (NumericField (''binding '' @ b_BindingID row @ '' nonce'') err)
      | Inr n \<Rightarrow> Inr (row\<lparr>b_Nonce := Some n\<rparr>))"

definition scanBindingRow :: "binding option \<Rightarrow> terr + binding option" where
  "scanBindingRow row =
     (case row of None \<Rightarrow> Inr None | Some b \<Rightarrow> rbind (scanBinding b) (\<lambda>b'. Inr (Some b')))"

definition readBindingByIDTx :: "env \<Rightarrow> nonce_db \<Rightarrow> string \<Rightarrow> terr + binding option" where
  "readBindingByIDTx e db bindingID =
     sql e ReadBindingByID (scanBindingRow (List.find (\<lambda>b. b_BindingID b = bindingID) (binding_t db)))"

definition readBindingByIntentTx :: "env \<Rightarrow> nonce_db \<Rightarrow> string \<Rightarrow> terr + binding option" where
  "readBindingByIntentTx e db intentID =
     sql e ReadBindingByIntent (scanBindingRow (List.find (\<lambda>b. b_IntentID b = intentID) (binding_t db)))"

definition readBindingByScopeNonceTx ::
  "env \<Rightarrow> nonce_db \<Rightarrow> int \<Rightarrow> string \<Rightarrow> int option \<Rightarrow> terr + binding option" where
  "readBindingByScopeNonceTx e db chain sender n =
     sql e ReadBindingByNonce
       (scanBindingRow (List.find (\<lambda>b. b_ChainID b = chain \<and> b_Sender b = sender \<and>
          n \<noteq> None \<and> b_Nonce b = n) (binding_t db)))"

definition in_binding_scope :: "int \<Rightarrow> string \<Rightarrow> binding \<Rightarrow> bool" where
  "in_binding_scope chain sender b \<longleftrightarrow> b_ChainID b = chain \<and> b_Sender b = sender"

definition scope_bindings :: "nonce_db \<Rightarrow> int \<Rightarrow> string \<Rightarrow> binding list" where
  "scope_bindings db chain sender =
     sort_key (\<lambda>b. the (b_Nonce b)) (filter (in_binding_scope chain sender) (binding_t db))"

definition readBindingsByScopeTx :: "env \<Rightarrow> nonce_db \<Rightarrow> int \<Rightarrow> string \<Rightarrow> terr + binding list" where
  "readBindingsByScopeTx e db chain sender =
     sql e ReadBindingsByScope (mapM_res scanBinding (scope_bindings db chain sender))"

definition intent_shape :: "string \<Rightarrow> bool" where
  "intent_shape s \<longleftrightarrow> 1 \<le> length s \<and> length s \<le> 128 \<and> list_all (\<lambda>c. 33 \<le> byte c \<and> byte c \<le> 126) s"

definition known_state :: "bstate \<Rightarrow> bool" where
  "known_state s \<longleftrightarrow> s = StateAllocated \<or> s = StateInFlight \<or> s = StateConsumed \<or> s = StateReleased"

definition hex64 :: "string \<Rightarrow> bool" where
  "hex64 s \<longleftrightarrow> length s = 64 \<and> list_all is_lower_hex s"

definition nonce_col_ok :: "int option \<Rightarrow> bool" where
  "nonce_col_ok n = (case n of None \<Rightarrow> False | Some v \<Rightarrow> in_nonce_range v)"

definition binding_checks :: "binding \<Rightarrow> (string \<times> bool) list" where
  "binding_checks b =
     [(''nonce_bindings_chain_id_check'', b_ChainID b > 0),
      (''nonce_bindings_sender_check'', sender_ok (b_Sender b)),
      (''nonce_bindings_state_check'', known_state (b_State b)),
      (''nonce_bindings_terminal_consistency'', TerminalConsistent b),
      (''nonce_bindings_nonce_range'', nonce_col_ok (b_Nonce b)),
      (''nonce_bindings_intent_shape'', intent_shape (b_IntentID b)),
      (''nonce_bindings_authorization_version_check'', hex64 (b_AuthorizationVersion b)),
      (''nonce_bindings_registry_seq_check'', b_RegistrySeq b > 0)]"

definition binding_insert_error :: "nonce_db \<Rightarrow> binding \<Rightarrow> pg_error option" where
  "binding_insert_error db b =
     (case first_violation (binding_checks b) of
        Some c \<Rightarrow> Some (PgError ''23514'' c)
      | None \<Rightarrow>
          if has_row (\<lambda>r. b_BindingID r = b_BindingID b) (binding_t db)
          then Some (PgError ''23505'' ''nonce_bindings_pkey'')
          else if has_row (\<lambda>r. b_IntentID r = b_IntentID b) (binding_t db)
          then Some (PgError ''23505'' ''nonce_bindings_intent_uniq'')
          else if has_row (\<lambda>r. b_ChainID r = b_ChainID b \<and> b_Sender r = b_Sender b \<and> b_Nonce r = b_Nonce b)
                    (binding_t db)
          then Some (PgError ''23505'' ''nonce_bindings_scope_nonce_uniq'')
          else if \<not> registered db (b_ChainID b) (b_Sender b)
          then Some (PgError ''23503'' ''nonce_bindings_registry_fkey'')
          else None)"

text \<open>The insert names ten columns; the two timestamps take their \<open>now()\<close> default and the terminal
  columns stay NULL.\<close>

definition inserted_binding :: "env \<Rightarrow> binding \<Rightarrow> binding" where
  "inserted_binding e b = b\<lparr>b_CreatedAt := now_at e, b_UpdatedAt := now_at e, b_ConsumedAt := None,
     b_ReleasedAt := None, b_ReleaseOperationID := None\<rparr>"

definition insertBindingTx :: "env \<Rightarrow> nonce_db \<Rightarrow> binding \<Rightarrow> terr + nonce_db" where
  "insertBindingTx e db b =
     sql e InsertBinding
       (case binding_insert_error db (inserted_binding e b) of
          Some p \<Rightarrow> Inl (Pg InsertBinding p)
        | None \<Rightarrow> Inr (db\<lparr>binding_t := binding_t db @ [inserted_binding e b]\<rparr>))"

definition insertBindingEventTx :: "env \<Rightarrow> nonce_db \<Rightarrow> binding_event \<Rightarrow> terr + nonce_db \<times> bool" where
  "insertBindingEventTx e db ev =
     (let from = (case ev_FromState ev of Some s \<Rightarrow> if s = StateOther [] then None else Some s | None \<Rightarrow> None);
          row = ev\<lparr>ev_FromState := from\<rparr>
      in sql e (InsertBindingEvent (ev_BindingID ev))
           (if \<not> (case from of None \<Rightarrow> True | Some s \<Rightarrow> known_state s)
            then Inl (Pg (InsertBindingEvent (ev_BindingID ev))
                   (PgError ''23514'' ''nonce_binding_events_from_state_check''))
            else if \<not> known_state (ev_ToState ev)
            then Inl (Pg (InsertBindingEvent (ev_BindingID ev))
                   (PgError ''23514'' ''nonce_binding_events_to_state_check''))
            else if has_row (\<lambda>r. ev_BindingID r = ev_BindingID ev \<and> ev_ToState r = ev_ToState ev) (event_t db)
            then Inr (db, False)
            else Inr (db\<lparr>event_t := event_t db @ [row]\<rparr>, True)))"

definition advanced_binding :: "env \<Rightarrow> bstate \<Rightarrow> string \<Rightarrow> binding \<Rightarrow> binding" where
  "advanced_binding e to op b =
     b\<lparr>b_State := to, b_UpdatedAt := now_at e,
       b_ConsumedAt := (if to = StateConsumed then Some (now_at e) else b_ConsumedAt b),
       b_ReleasedAt := (if to = StateReleased then Some (now_at e) else b_ReleasedAt b),
       b_ReleaseOperationID :=
         (if to = StateReleased then (if op = [] then None else Some op) else b_ReleaseOperationID b)\<rparr>"

definition advanceBindingStateTx ::
  "env \<Rightarrow> nonce_db \<Rightarrow> string \<Rightarrow> bstate \<Rightarrow> string \<Rightarrow> bstate \<Rightarrow> terr + nonce_db \<times> bool" where
  "advanceBindingStateTx e db bindingID to op from =
     (if \<not> CanTransition from to then Inl (IllegalTransition from to)
      else let hit = (\<lambda>b. b_BindingID b = bindingID \<and> b_State b = from)
        in sql e (AdvanceBindingState bindingID)
             (if has_row (\<lambda>b. hit b \<and> \<not> TerminalConsistent (advanced_binding e to op b)) (binding_t db)
              then Inl (Pg (AdvanceBindingState bindingID)
                     (PgError ''23514'' ''nonce_bindings_terminal_consistency''))
              else Inr (db\<lparr>binding_t := update_where hit (advanced_binding e to op) (binding_t db)\<rparr>,
                        count_where hit (binding_t db) = 1)))"

section \<open>Observation rows (observe.go)\<close>

definition persistable :: "classification \<Rightarrow> bool" where
  "persistable c = (case c of ClassificationOther _ \<Rightarrow> False | _ \<Rightarrow> True)"

fun validate_counts :: "(string \<times> int option) list \<Rightarrow> terr + unit" where
  "validate_counts [] = Inr ()"
| "validate_counts ((name, n) # rest) =
     (case n of
        None \<Rightarrow> validate_counts rest
      | Some v \<Rightarrow> rbind (map_err (NumericField name) (ValidateNonceRange (Some v)))
          (\<lambda>_. validate_counts rest))"

definition validateObservation :: "observation \<Rightarrow> terr + unit" where
  "validateObservation obs =
     (if o_ChainID obs \<le> 0 then Inl (ObservationChainID (o_ChainID obs))
      else if \<not> sender_ok (o_Sender obs) then Inl (ObservationSender (o_Sender obs))
      else case o_Kind obs of
          ObservationKindOther k \<Rightarrow> Inl (ObservationKindUnknown k)
        | _ \<Rightarrow>
          if \<not> persistable (o_Classification obs)
          then Inl (ObservationNotPersistable (o_Classification obs))
          else rbind (validate_counts
                 [(''latest_count'', o_LatestCount obs), (''pending_count'', o_PendingCount obs),
                  (''head_number'', o_HeadNumber obs)]) (\<lambda>_.
            if o_HeadHash obs \<noteq> [] \<and> \<not> matches_lower_hex 64 (o_HeadHash obs)
            then Inl (ObservationHeadHash (o_HeadHash obs))
            else Inr ()))"

definition mintObservationID :: "env \<Rightarrow> terr + string" where
  "mintObservationID e = (case rand_bytes e MintObservation of
     None \<Rightarrow> Inl (MintFailed MintObservation) | Some bs \<Rightarrow> Inr (''no-'' @ hex_encode bs))"

definition insertObservationTx :: "env \<Rightarrow> nonce_db \<Rightarrow> observation \<Rightarrow> terr + nonce_db \<times> string" where
  "insertObservationTx e db obs =
     rbind (validateObservation obs) (\<lambda>_.
     rbind (if o_ObservationID obs = [] then mintObservationID e else Inr (o_ObservationID obs)) (\<lambda>id.
       sql e InsertObservation
         (if has_row (\<lambda>r. o_ObservationID r = id) (observation_t db)
          then Inl (Pg InsertObservation (PgError ''23505'' ''nonce_observations_pkey''))
          else Inr (db\<lparr>observation_t := observation_t db @ [obs\<lparr>o_ObservationID := id\<rparr>]\<rparr>, id))))"

section \<open>Audit domains\<close>

definition audit_action_ok :: "admin_action \<Rightarrow> bool" where
  "audit_action_ok a = (case a of AdminActionOther _ \<Rightarrow> False | _ \<Rightarrow> True)"

definition audit_outcome_ok :: "outcome \<Rightarrow> bool" where
  "audit_outcome_ok oc \<longleftrightarrow> oc = AdminApplied \<or> oc = AdminNop \<or> oc = AdminRefused"

end
