(* ===== verification/NonceInv.thy ===== *)
theory NonceInv
  imports NonceStore TxEvolution
begin

text \<open>
  The invariant of the nonce tables and how they may evolve. \<open>nonce_inv\<close> collects the declared
  constraints (keys, CHECK domains, foreign keys) with what the transactions add to them: nonces of a
  scope grow in insertion order, every state of a binding is logged exactly once, and at most one hold
  is active per scope and cause. \<open>db_evolves\<close> says that history is only appended to and that rows move
  forward only. The theory proves the effect of every statement of the store on both.
\<close>

section \<open>How rows may change\<close>

definition registry_key :: "wallet_registry \<Rightarrow> int \<times> string" where
  "registry_key r = (r_ChainID r, r_Sender r)"

definition scope_key :: "scope_state \<Rightarrow> int \<times> string" where
  "scope_key s = (s_ChainID s, s_Sender s)"

definition event_key :: "binding_event \<Rightarrow> string \<times> bstate" where
  "event_key ev = (ev_BindingID ev, ev_ToState ev)"

text \<open>A state that lies before another or is the same.\<close>

definition reached :: "bstate \<Rightarrow> bstate \<Rightarrow> bool" where
  "reached s t \<longleftrightarrow> s = t \<or> CanTransition s t"

text \<open>The columns of a binding that no statement writes after the insert.\<close>

definition binding_identity ::
  "binding \<Rightarrow> (string \<times> string \<times> int \<times> string) \<times> int option \<times> string \<times> string \<times> int \<times> string \<times> instant" where
  "binding_identity b = ((b_BindingID b, b_IntentID b, b_ChainID b, b_Sender b), b_Nonce b,
     b_AuthorizationID b, b_AuthorizationVersion b, b_RegistrySeq b, b_AllocationObservationID b,
     b_CreatedAt b)"

definition binding_evolves :: "binding \<Rightarrow> binding \<Rightarrow> bool" where
  "binding_evolves b b' \<longleftrightarrow>
     b' = b \<or> binding_identity b' = binding_identity b \<and> CanTransition (b_State b) (b_State b')"

definition registry_evolves :: "wallet_registry \<Rightarrow> wallet_registry \<Rightarrow> bool" where
  "registry_evolves r r' \<longleftrightarrow>
     r' = r \<or> registry_key r' = registry_key r \<and> r_CreatedAt r' = r_CreatedAt r \<and>
       r_RegistrySeq r < r_RegistrySeq r'"

definition floor_le :: "int option \<Rightarrow> int option \<Rightarrow> bool" where
  "floor_le f g \<longleftrightarrow> (\<forall>v. f = Some v \<longrightarrow> (\<exists>w. g = Some w \<and> v \<le> w))"

definition scope_evolves :: "scope_state \<Rightarrow> scope_state \<Rightarrow> bool" where
  "scope_evolves s s' \<longleftrightarrow> scope_key s' = scope_key s \<and> floor_le (s_ReconciledFloor s) (s_ReconciledFloor s')"

definition hold_identity :: "scope_hold \<Rightarrow> string \<times> int \<times> string \<times> hold_cause \<times> instant \<times> string \<times> string" where
  "hold_identity h = (h_HoldID h, h_ChainID h, h_Sender h, h_Cause h, h_EstablishedAt h,
     h_EvidenceObservationID h, h_EvidenceDetail h)"

definition hold_evolves :: "scope_hold \<Rightarrow> scope_hold \<Rightarrow> bool" where
  "hold_evolves h h' \<longleftrightarrow>
     h' = h \<or> hold_identity h' = hold_identity h \<and> h_Status h = HoldStatusActive \<and>
       h_Status h' = HoldStatusReleased"

lemma CanTransition_trans: "CanTransition s t \<Longrightarrow> CanTransition t u \<Longrightarrow> CanTransition s u"
  by (auto simp: CanTransition_cases)

lemma CanTransition_asym: "CanTransition s t \<Longrightarrow> \<not> reached t s"
  by (auto simp: reached_def dest!: CanTransition_rank)

lemma reached_trans: "reached s t \<Longrightarrow> reached t u \<Longrightarrow> reached s u"
  by (auto simp: reached_def intro: CanTransition_trans)

interpretation registry_rows: keyed_evolution registry_evolves registry_key
  by unfold_locales (auto simp: registry_evolves_def)

interpretation scope_rows: keyed_evolution scope_evolves scope_key
proof unfold_locales
  fix x y z assume "scope_evolves x y" "scope_evolves y z"
  then show "scope_evolves x z"
    unfolding scope_evolves_def floor_le_def by (metis order_trans)
qed (auto simp: scope_evolves_def floor_le_def)

interpretation binding_rows: keyed_evolution binding_evolves binding_identity
  by unfold_locales (auto simp: binding_evolves_def intro: CanTransition_trans)

interpretation hold_rows: keyed_evolution hold_evolves hold_identity
  by unfold_locales (auto simp: hold_evolves_def)

interpretation log_rows: evolution "(=)"
  by unfold_locales auto

definition db_evolves :: "nonce_db \<Rightarrow> nonce_db \<Rightarrow> bool" where
  "db_evolves db db' \<longleftrightarrow>
     grows registry_evolves (registry_t db) (registry_t db') \<and>
     grows scope_evolves (scope_t db) (scope_t db') \<and>
     grows binding_evolves (binding_t db) (binding_t db') \<and>
     grows (=) (event_t db) (event_t db') \<and>
     grows (=) (observation_t db) (observation_t db') \<and>
     grows hold_evolves (hold_t db) (hold_t db') \<and>
     grows (=) (audit_t db) (audit_t db')"

lemmas grows_refls [simp] = registry_rows.grows_refl scope_rows.grows_refl binding_rows.grows_refl
  hold_rows.grows_refl log_rows.grows_refl

lemmas grows_appends [simp] = registry_rows.grows_append scope_rows.grows_append
  binding_rows.grows_append hold_rows.grows_append log_rows.grows_append

interpretation db_evolution: evolution db_evolves
proof unfold_locales
  fix x y z assume "db_evolves x y" "db_evolves y z"
  then show "db_evolves x z"
    unfolding db_evolves_def
    by (meson registry_rows.grows_trans scope_rows.grows_trans binding_rows.grows_trans
        hold_rows.grows_trans log_rows.grows_trans)
qed (simp add: db_evolves_def)

lemmas db_evolves_refl [simp] = db_evolution.R_refl
lemmas db_evolves_trans [trans] = db_evolution.R_trans

section \<open>The invariant\<close>

definition opt_in_range :: "int option \<Rightarrow> bool" where
  "opt_in_range n = (case n of None \<Rightarrow> True | Some v \<Rightarrow> in_nonce_range v)"

definition registry_row_ok :: "wallet_registry \<Rightarrow> bool" where
  "registry_row_ok r \<longleftrightarrow>
     r_ChainID r > 0 \<and> sender_ok (r_Sender r) \<and>
     (r_State r = RegistryActive \<or> r_State r = RegistryDisabled) \<and> r_RegistrySeq r > 0"

definition scope_row_ok :: "scope_state \<Rightarrow> bool" where
  "scope_row_ok s \<longleftrightarrow>
     s_ChainID s > 0 \<and> sender_ok (s_Sender s) \<and> opt_in_range (s_ReconciledFloor s) \<and>
     opt_in_range (s_LastLatest s) \<and> opt_in_range (s_LastPending s)"

definition binding_row_ok :: "binding \<Rightarrow> bool" where
  "binding_row_ok b \<longleftrightarrow> first_violation (binding_checks b) = None"

definition event_row_ok :: "binding_event \<Rightarrow> bool" where
  "event_row_ok ev \<longleftrightarrow>
     known_state (ev_ToState ev) \<and> (case ev_FromState ev of None \<Rightarrow> True | Some s \<Rightarrow> known_state s)"

definition hold_row_ok :: "scope_hold \<Rightarrow> bool" where
  "hold_row_ok h \<longleftrightarrow>
     h_ChainID h > 0 \<and> sender_ok (h_Sender h) \<and> holdCauses (h_Cause h) \<and>
     (h_Status h = HoldStatusActive \<or> h_Status h = HoldStatusReleased) \<and>
     (h_Status h = HoldStatusActive) = (h_ReleasedAt h = None) \<and> h_EvidenceObservationID h \<noteq> []"

definition audit_row_ok :: "admin_audit \<Rightarrow> bool" where
  "audit_row_ok a \<longleftrightarrow>
     au_ChainID a > 0 \<and> sender_ok (au_Sender a) \<and> audit_action_ok (au_Action a) \<and>
     audit_outcome_ok (au_Outcome a)"

definition hold_slot :: "scope_hold \<Rightarrow> int \<times> string \<times> hold_cause" where
  "hold_slot h = (h_ChainID h, h_Sender h, h_Cause h)"

definition active_hold :: "scope_hold \<Rightarrow> bool" where
  "active_hold h \<longleftrightarrow> h_Status h = HoldStatusActive"

text \<open>Within a scope, rows inserted later carry higher nonces.\<close>

definition scope_below :: "binding \<Rightarrow> binding \<Rightarrow> bool" where
  "scope_below b b' \<longleftrightarrow>
     (b_ChainID b = b_ChainID b' \<and> b_Sender b = b_Sender b' \<longrightarrow> the (b_Nonce b) < the (b_Nonce b'))"

definition registry_inv :: "nonce_db \<Rightarrow> bool" where
  "registry_inv db \<longleftrightarrow>
     distinct (map registry_key (registry_t db)) \<and> (\<forall>r \<in> set (registry_t db). registry_row_ok r)"

definition scope_inv :: "nonce_db \<Rightarrow> bool" where
  "scope_inv db \<longleftrightarrow>
     distinct (map scope_key (scope_t db)) \<and>
     (\<forall>s \<in> set (scope_t db). scope_row_ok s \<and> registered db (s_ChainID s) (s_Sender s))"

definition binding_inv :: "nonce_db \<Rightarrow> bool" where
  "binding_inv db \<longleftrightarrow>
     distinct (map b_BindingID (binding_t db)) \<and> distinct (map b_IntentID (binding_t db)) \<and>
     sorted_wrt scope_below (binding_t db) \<and>
     (\<forall>b \<in> set (binding_t db). binding_row_ok b \<and> has_row (in_scope (b_ChainID b) (b_Sender b)) (scope_t db))"

definition event_inv :: "nonce_db \<Rightarrow> bool" where
  "event_inv db \<longleftrightarrow>
     distinct (map event_key (event_t db)) \<and>
     (\<forall>ev \<in> set (event_t db). event_row_ok ev \<and>
        (\<exists>b \<in> set (binding_t db). b_BindingID b = ev_BindingID ev \<and> reached (ev_ToState ev) (b_State b)))"

definition logged :: "nonce_db \<Rightarrow> bool" where
  "logged db \<longleftrightarrow>
     (\<forall>b \<in> set (binding_t db). \<exists>ev \<in> set (event_t db). event_key ev = (b_BindingID b, b_State b))"

definition observation_inv :: "nonce_db \<Rightarrow> bool" where
  "observation_inv db \<longleftrightarrow>
     distinct (map o_ObservationID (observation_t db)) \<and>
     (\<forall>ob \<in> set (observation_t db). o_ObservationID ob \<noteq> [] \<and> validateObservation ob = Inr ())"

definition hold_inv :: "nonce_db \<Rightarrow> bool" where
  "hold_inv db \<longleftrightarrow>
     distinct (map h_HoldID (hold_t db)) \<and> distinct (map hold_slot (filter active_hold (hold_t db))) \<and>
     (\<forall>h \<in> set (hold_t db). hold_row_ok h \<and> registered db (h_ChainID h) (h_Sender h))"

definition audit_inv :: "nonce_db \<Rightarrow> bool" where
  "audit_inv db \<longleftrightarrow>
     distinct (map au_OperationID (audit_t db)) \<and> (\<forall>a \<in> set (audit_t db). audit_row_ok a)"

definition nonce_inv :: "nonce_db \<Rightarrow> bool" where
  "nonce_inv db \<longleftrightarrow>
     registry_inv db \<and> scope_inv db \<and> binding_inv db \<and> event_inv db \<and> logged db \<and>
     observation_inv db \<and> hold_inv db \<and> audit_inv db"

lemmas table_inv_defs = registry_inv_def scope_inv_def binding_inv_def event_inv_def logged_def
  observation_inv_def hold_inv_def audit_inv_def registered_def

subsection \<open>Frames\<close>

text \<open>The parts of the invariant read only their own tables and those they refer to.\<close>

lemma registry_inv_frame [simp]:
  "registry_inv (db\<lparr>scope_t := ss\<rparr>) = registry_inv db"
  "registry_inv (db\<lparr>binding_t := bs\<rparr>) = registry_inv db"
  "registry_inv (db\<lparr>event_t := es\<rparr>) = registry_inv db"
  "registry_inv (db\<lparr>observation_t := os\<rparr>) = registry_inv db"
  "registry_inv (db\<lparr>hold_t := hs\<rparr>) = registry_inv db"
  "registry_inv (db\<lparr>audit_t := as\<rparr>) = registry_inv db"
  by (simp_all add: registry_inv_def)

lemma scope_inv_frame [simp]:
  "scope_inv (db\<lparr>binding_t := bs\<rparr>) = scope_inv db"
  "scope_inv (db\<lparr>event_t := es\<rparr>) = scope_inv db"
  "scope_inv (db\<lparr>observation_t := os\<rparr>) = scope_inv db"
  "scope_inv (db\<lparr>hold_t := hs\<rparr>) = scope_inv db"
  "scope_inv (db\<lparr>audit_t := as\<rparr>) = scope_inv db"
  by (simp_all add: scope_inv_def registered_def)

lemma binding_inv_frame [simp]:
  "binding_inv (db\<lparr>registry_t := rs\<rparr>) = binding_inv db"
  "binding_inv (db\<lparr>event_t := es\<rparr>) = binding_inv db"
  "binding_inv (db\<lparr>observation_t := os\<rparr>) = binding_inv db"
  "binding_inv (db\<lparr>hold_t := hs\<rparr>) = binding_inv db"
  "binding_inv (db\<lparr>audit_t := as\<rparr>) = binding_inv db"
  by (simp_all add: binding_inv_def)

lemma event_inv_frame [simp]:
  "event_inv (db\<lparr>registry_t := rs\<rparr>) = event_inv db"
  "event_inv (db\<lparr>scope_t := ss\<rparr>) = event_inv db"
  "event_inv (db\<lparr>observation_t := os\<rparr>) = event_inv db"
  "event_inv (db\<lparr>hold_t := hs\<rparr>) = event_inv db"
  "event_inv (db\<lparr>audit_t := as\<rparr>) = event_inv db"
  by (simp_all add: event_inv_def)

lemma logged_frame [simp]:
  "logged (db\<lparr>registry_t := rs\<rparr>) = logged db"
  "logged (db\<lparr>scope_t := ss\<rparr>) = logged db"
  "logged (db\<lparr>observation_t := os\<rparr>) = logged db"
  "logged (db\<lparr>hold_t := hs\<rparr>) = logged db"
  "logged (db\<lparr>audit_t := as\<rparr>) = logged db"
  by (simp_all add: logged_def)

lemma observation_inv_frame [simp]:
  "observation_inv (db\<lparr>registry_t := rs\<rparr>) = observation_inv db"
  "observation_inv (db\<lparr>scope_t := ss\<rparr>) = observation_inv db"
  "observation_inv (db\<lparr>binding_t := bs\<rparr>) = observation_inv db"
  "observation_inv (db\<lparr>event_t := es\<rparr>) = observation_inv db"
  "observation_inv (db\<lparr>hold_t := hs\<rparr>) = observation_inv db"
  "observation_inv (db\<lparr>audit_t := as\<rparr>) = observation_inv db"
  by (simp_all add: observation_inv_def)

lemma hold_inv_frame [simp]:
  "hold_inv (db\<lparr>scope_t := ss\<rparr>) = hold_inv db"
  "hold_inv (db\<lparr>binding_t := bs\<rparr>) = hold_inv db"
  "hold_inv (db\<lparr>event_t := es\<rparr>) = hold_inv db"
  "hold_inv (db\<lparr>observation_t := os\<rparr>) = hold_inv db"
  "hold_inv (db\<lparr>audit_t := as\<rparr>) = hold_inv db"
  by (simp_all add: hold_inv_def registered_def)

lemma audit_inv_frame [simp]:
  "audit_inv (db\<lparr>registry_t := rs\<rparr>) = audit_inv db"
  "audit_inv (db\<lparr>scope_t := ss\<rparr>) = audit_inv db"
  "audit_inv (db\<lparr>binding_t := bs\<rparr>) = audit_inv db"
  "audit_inv (db\<lparr>event_t := es\<rparr>) = audit_inv db"
  "audit_inv (db\<lparr>observation_t := os\<rparr>) = audit_inv db"
  "audit_inv (db\<lparr>hold_t := hs\<rparr>) = audit_inv db"
  by (simp_all add: audit_inv_def)

text \<open>The tables this package owns; a change elsewhere (leases, pauses, recoveries, grants, the
  catalogue) is invisible to the invariant.\<close>

definition same_tables :: "nonce_db \<Rightarrow> nonce_db \<Rightarrow> bool" where
  "same_tables db db' \<longleftrightarrow>
     registry_t db' = registry_t db \<and> scope_t db' = scope_t db \<and> binding_t db' = binding_t db \<and>
     event_t db' = event_t db \<and> observation_t db' = observation_t db \<and> hold_t db' = hold_t db \<and>
     audit_t db' = audit_t db"

lemma same_tables_inv: "same_tables db db' \<Longrightarrow> nonce_inv db' = nonce_inv db"
  by (simp add: same_tables_def nonce_inv_def table_inv_defs)

lemma same_tables_evolves: "same_tables db db' \<Longrightarrow> db_evolves db db'"
  by (simp add: same_tables_def db_evolves_def)

section \<open>Writes that keep the invariant\<close>

lemma in_scope_key: "in_scope chain sender s \<longleftrightarrow> scope_key s = (chain, sender)"
  by (simp add: in_scope_def scope_key_def)

lemma registered_key: "registered db chain sender \<longleftrightarrow> (chain, sender) \<in> registry_key ` set (registry_t db)"
  by (force simp: registered_def has_row_iff registry_key_def)

lemma has_scope_key: "has_row (in_scope chain sender) t \<longleftrightarrow> (chain, sender) \<in> scope_key ` set t"
  by (force simp: has_row_iff in_scope_key)

lemma map_key_update_where:
  "(\<And>r. r \<in> set t \<Longrightarrow> P r \<Longrightarrow> key (f r) = key r) \<Longrightarrow> map key (update_where P f t) = map key t"
  by (auto simp: update_where_def)

lemma nonce_inv_scope_insert:
  assumes "nonce_inv db" "\<not> has_row (in_scope (s_ChainID s) (s_Sender s)) (scope_t db)"
    and "scope_row_ok s" "registered db (s_ChainID s) (s_Sender s)"
  shows "nonce_inv (db\<lparr>scope_t := scope_t db @ [s]\<rparr>)"
proof -
  let ?db = "db\<lparr>scope_t := scope_t db @ [s]\<rparr>"
  have "scope_inv ?db"
    using assms by (auto simp: nonce_inv_def scope_inv_def distinct_map_snoc in_scope_key scope_key_def
        has_row_iff registered_def)
  moreover have "binding_inv ?db"
    using assms(1) by (auto simp: nonce_inv_def binding_inv_def has_row_iff)
  ultimately show ?thesis
    using assms(1) by (simp add: nonce_inv_def)
qed

lemma nonce_inv_scope_update:
  assumes "nonce_inv db"
    and "\<And>s. s \<in> set (scope_t db) \<Longrightarrow> P s \<Longrightarrow> scope_key (f s) = scope_key s \<and> scope_row_ok (f s)"
  shows "nonce_inv (db\<lparr>scope_t := update_where P f (scope_t db)\<rparr>)"
proof -
  let ?t = "update_where P f (scope_t db)" and ?db = "db\<lparr>scope_t := update_where P f (scope_t db)\<rparr>"
  have keys: "map scope_key ?t = map scope_key (scope_t db)"
    using assms(2) by (intro map_key_update_where) blast
  then have "scope_key ` set ?t = scope_key ` set (scope_t db)" by (metis list.set_map)
  then have "binding_inv ?db"
    using assms(1) by (simp add: nonce_inv_def binding_inv_def has_scope_key)
  moreover have "scope_inv ?db"
    unfolding scope_inv_def
  proof (intro conjI ballI)
    show "distinct (map scope_key (scope_t ?db))"
      using assms(1) keys by (simp add: nonce_inv_def scope_inv_def)
    fix s assume "s \<in> set (scope_t ?db)"
    then obtain r where r: "r \<in> set (scope_t db)" "s = (if P r then f r else r)"
      by (auto simp: table_simps update_where_def)
    moreover have "scope_row_ok r" "registered db (s_ChainID r) (s_Sender r)"
      using assms(1) r(1) by (auto simp: nonce_inv_def scope_inv_def)
    moreover have "scope_key s = scope_key r" using r assms(2) by auto
    ultimately show "scope_row_ok s" "registered ?db (s_ChainID s) (s_Sender s)"
      using assms(2) by (auto simp: scope_key_def registered_def split: if_splits)
  qed
  ultimately show ?thesis
    using assms(1) by (simp add: nonce_inv_def)
qed

lemma nonce_inv_observation_insert:
  assumes "nonce_inv db" "\<not> has_row (\<lambda>r. o_ObservationID r = o_ObservationID ob) (observation_t db)"
    and "o_ObservationID ob \<noteq> []" "validateObservation ob = Inr ()"
  shows "nonce_inv (db\<lparr>observation_t := observation_t db @ [ob]\<rparr>)"
  using assms unfolding nonce_inv_def
  by (auto simp: observation_inv_def distinct_map_snoc simp del: map_append)

lemma nonce_inv_hold_insert:
  assumes "nonce_inv db" "\<not> has_row (\<lambda>r. h_HoldID r = h_HoldID h) (hold_t db)"
    and "\<not> has_row (\<lambda>r. active_hold r \<and> hold_slot r = hold_slot h) (hold_t db)"
    and "hold_row_ok h" "registered db (h_ChainID h) (h_Sender h)"
  shows "nonce_inv (db\<lparr>hold_t := hold_t db @ [h]\<rparr>)"
proof -
  let ?db = "db\<lparr>hold_t := hold_t db @ [h]\<rparr>"
  have "\<not> has_row (\<lambda>r. hold_slot r = hold_slot h) (filter active_hold (hold_t db))"
    using assms(3) by (auto simp: has_row_iff)
  then have "distinct (map hold_slot (filter active_hold (hold_t ?db)))"
    using assms(1) distinct_map_snoc [of hold_slot "filter active_hold (hold_t db)" h]
    by (auto simp: nonce_inv_def hold_inv_def)
  then have "hold_inv ?db"
    using assms distinct_map_snoc [of h_HoldID "hold_t db" h]
    unfolding nonce_inv_def hold_inv_def by (auto simp: registered_def)
  then show ?thesis
    using assms(1) by (simp add: nonce_inv_def)
qed

lemma nonce_inv_audit_insert:
  assumes "nonce_inv db" "\<not> has_row (\<lambda>r. au_OperationID r = au_OperationID a) (audit_t db)" "audit_row_ok a"
  shows "nonce_inv (db\<lparr>audit_t := audit_t db @ [a]\<rparr>)"
  using assms unfolding nonce_inv_def
  by (auto simp: audit_inv_def distinct_map_snoc simp del: map_append)

subsection \<open>Bindings and their events\<close>

lemma binding_row_ok_iff:
  "binding_row_ok b \<longleftrightarrow>
     b_ChainID b > 0 \<and> sender_ok (b_Sender b) \<and> known_state (b_State b) \<and> TerminalConsistent b \<and>
     nonce_col_ok (b_Nonce b) \<and> intent_shape (b_IntentID b) \<and> hex64 (b_AuthorizationVersion b) \<and>
     b_RegistrySeq b > 0"
  by (auto simp: binding_row_ok_def first_violation_None binding_checks_def)

lemma nonce_inv_binding_insert:
  assumes inv: "nonce_inv db"
    and fresh: "\<not> has_row (\<lambda>r. b_BindingID r = b_BindingID b) (binding_t db)"
      "\<not> has_row (\<lambda>r. b_IntentID r = b_IntentID b) (binding_t db)"
    and above: "\<And>r. r \<in> set (binding_t db) \<Longrightarrow> scope_below r b"
    and row: "binding_row_ok b" "has_row (in_scope (b_ChainID b) (b_Sender b)) (scope_t db)"
    and ev: "event_key ev = (b_BindingID b, b_State b)" "event_row_ok ev"
  shows "nonce_inv (db\<lparr>binding_t := binding_t db @ [b], event_t := event_t db @ [ev]\<rparr>)"
proof -
  let ?db = "db\<lparr>binding_t := binding_t db @ [b], event_t := event_t db @ [ev]\<rparr>"
  have "binding_inv ?db"
    using inv fresh above row distinct_map_snoc [of b_BindingID "binding_t db" b]
      distinct_map_snoc [of b_IntentID "binding_t db" b]
    unfolding nonce_inv_def binding_inv_def by (auto simp: sorted_wrt_snoc)
  moreover have "\<not> has_row (\<lambda>r. event_key r = event_key ev) (event_t db)"
    using inv fresh(1) ev(1) unfolding nonce_inv_def event_inv_def
    by (auto simp: has_row_iff event_key_def)
  then have "event_inv ?db"
    using inv ev distinct_map_snoc [of event_key "event_t db" ev]
    unfolding nonce_inv_def event_inv_def by (auto simp: event_key_def reached_def)
  moreover have "logged ?db"
    using inv ev(1) unfolding nonce_inv_def logged_def by auto
  ultimately show ?thesis
    using inv by (simp add: nonce_inv_def)
qed

text \<open>One binding moves along a legal edge and the move is logged.\<close>

lemma binding_unique:
  "nonce_inv db \<Longrightarrow> b \<in> set (binding_t db) \<Longrightarrow> b' \<in> set (binding_t db) \<Longrightarrow>
   b_BindingID b = b_BindingID b' \<Longrightarrow> b = b'"
  by (auto simp: nonce_inv_def binding_inv_def distinct_map inj_on_def)

lemma move_not_logged:
  assumes "nonce_inv db" "b \<in> set (binding_t db)" "CanTransition (b_State b) to"
  shows "\<not> has_row (\<lambda>r. event_key r = (b_BindingID b, to)) (event_t db)"
proof
  assume "has_row (\<lambda>r. event_key r = (b_BindingID b, to)) (event_t db)"
  then obtain ev where "ev \<in> set (event_t db)" "ev_BindingID ev = b_BindingID b" "ev_ToState ev = to"
    by (auto simp: has_row_iff event_key_def)
  with assms(1) obtain c where "c \<in> set (binding_t db)" "b_BindingID c = b_BindingID b" "reached to (b_State c)"
    by (fastforce simp: nonce_inv_def event_inv_def)
  with assms binding_unique [OF assms(1,2)] have "reached to (b_State b)" by metis
  with assms(3) show False using CanTransition_asym by blast
qed

lemma binding_identity_keeps:
  assumes "binding_identity b' = binding_identity b"
  shows "b_BindingID b' = b_BindingID b" "b_IntentID b' = b_IntentID b" "b_ChainID b' = b_ChainID b"
    "b_Sender b' = b_Sender b" "b_Nonce b' = b_Nonce b" "b_AuthorizationID b' = b_AuthorizationID b"
    "b_AuthorizationVersion b' = b_AuthorizationVersion b" "b_RegistrySeq b' = b_RegistrySeq b"
  using assms by (simp_all add: binding_identity_def)

lemma binding_inv_move:
  assumes "binding_inv db"
    and "\<And>b. b \<in> set (binding_t db) \<Longrightarrow> P b \<Longrightarrow> binding_identity (f b) = binding_identity b \<and> binding_row_ok (f b)"
  shows "binding_inv (db\<lparr>binding_t := update_where P f (binding_t db)\<rparr>)"
proof -
  define g where "g b = (if P b then f b else b)" for b
  have t: "update_where P f (binding_t db) = map g (binding_t db)" by (simp add: update_where_def g_def)
  have id: "binding_identity (g b) = binding_identity b" if "b \<in> set (binding_t db)" for b
    using assms(2) that by (simp add: g_def)
  note keep = binding_identity_keeps [OF id]
  have ids: "map b_BindingID (map g (binding_t db)) = map b_BindingID (binding_t db)"
    "map b_IntentID (map g (binding_t db)) = map b_IntentID (binding_t db)"
    using keep by auto
  have "sorted_wrt (\<lambda>b b'. scope_below (g b) (g b')) (binding_t db)"
    by (rule sorted_wrt_mono_rel [OF _ conjunct1 [OF conjunct2 [OF conjunct2
        [OF assms(1) [unfolded binding_inv_def]]]]])
      (simp only: scope_below_def keep)
  then have "sorted_wrt scope_below (map g (binding_t db))" by (simp add: sorted_wrt_map)
  moreover have "binding_row_ok (g b) \<and> has_row (in_scope (b_ChainID (g b)) (b_Sender (g b))) (scope_t db)"
    if "b \<in> set (binding_t db)" for b
  proof -
    have "binding_row_ok b" "has_row (in_scope (b_ChainID b) (b_Sender b)) (scope_t db)"
      using assms(1) that by (auto simp: binding_inv_def)
    then show ?thesis
      using assms(2) [OF that] keep(3,4) [OF that] by (auto simp: g_def)
  qed
  ultimately show ?thesis
    using assms(1) ids unfolding binding_inv_def by (simp add: t del: map_map)
qed

lemma nonce_inv_move:
  assumes inv: "nonce_inv db" and b: "b \<in> set (binding_t db)" and edge: "CanTransition (b_State b) to"
    and f: "binding_identity (f b) = binding_identity b" "b_State (f b) = to" "binding_row_ok (f b)"
    and ev: "event_key ev = (b_BindingID b, to)" "event_row_ok ev"
    and P: "\<And>r. r \<in> set (binding_t db) \<Longrightarrow> P r \<longleftrightarrow> r = b"
  shows "nonce_inv (db\<lparr>binding_t := update_where P f (binding_t db), event_t := event_t db @ [ev]\<rparr>)"
proof -
  let ?db = "db\<lparr>binding_t := update_where P f (binding_t db), event_t := event_t db @ [ev]\<rparr>"
  have bs: "set (binding_t ?db) = (\<lambda>r. if r = b then f b else r) ` set (binding_t db)"
    using P by (auto simp: update_where_def image_iff)
  have "binding_inv ?db"
    using inv f P binding_inv_move [of db P f] by (auto simp: nonce_inv_def)
  moreover have "event_inv ?db"
    unfolding event_inv_def
  proof (intro conjI)
    show "distinct (map event_key (event_t ?db))"
      using inv move_not_logged [OF inv b edge] ev(1) distinct_map_snoc [of event_key "event_t db" ev]
      by (auto simp: nonce_inv_def event_inv_def)
    have "event_row_ok r \<and> (\<exists>c \<in> set (binding_t ?db).
        b_BindingID c = ev_BindingID r \<and> reached (ev_ToState r) (b_State c))"
      if "r \<in> set (event_t ?db)" for r
    proof (cases "r = ev")
      case True
      then show ?thesis
        using ev f b binding_identity_keeps(1) [OF f(1)] unfolding bs
        by (auto simp: event_key_def reached_def)
    next
      case False
      with inv that obtain c where c: "c \<in> set (binding_t db)" "b_BindingID c = ev_BindingID r"
        "reached (ev_ToState r) (b_State c)" "event_row_ok r"
        by (auto simp: nonce_inv_def event_inv_def)
      have "reached (ev_ToState r) (b_State (if c = b then f b else c))"
        using c(3) f(2) edge reached_trans [of "ev_ToState r" "b_State b" to] by (auto simp: reached_def)
      moreover have "b_BindingID (if c = b then f b else c) = ev_BindingID r"
        using c(2) binding_identity_keeps(1) [OF f(1)] by auto
      ultimately show ?thesis
        unfolding bs using c(1,4) by blast
    qed
    then show "\<forall>r \<in> set (event_t ?db). event_row_ok r \<and> (\<exists>c \<in> set (binding_t ?db).
        b_BindingID c = ev_BindingID r \<and> reached (ev_ToState r) (b_State c))" by blast
  qed
  moreover have "logged ?db"
    using inv ev(1) f(2) binding_identity_keeps(1) [OF f(1)]
    unfolding nonce_inv_def logged_def bs by auto
  ultimately show ?thesis
    using inv by (simp add: nonce_inv_def)
qed

section \<open>Reads on an invariant database\<close>

text \<open>The decimal transport of the columns gives back the stored rows.\<close>

named_theorems read_rules

lemma scanBinding_ok: "nonce_col_ok (b_Nonce b) \<Longrightarrow> scanBinding b = Inr b"
  by (cases "b_Nonce b") (auto simp: scanBinding_def nonce_col_ok_def ParseDecimal_FormatDecimal)

lemma nonce_inv_row: "nonce_inv db \<Longrightarrow> b \<in> set (binding_t db) \<Longrightarrow> binding_row_ok b"
  by (simp add: nonce_inv_def binding_inv_def)

lemma scanBindingRow_find:
  assumes "nonce_inv db"
  shows "scanBindingRow (List.find P (binding_t db)) = Inr (List.find P (binding_t db))"
proof (cases "List.find P (binding_t db)")
  case (Some b)
  then have "nonce_col_ok (b_Nonce b)"
    using nonce_inv_row [OF assms] by (auto dest!: find_Some_set simp: binding_row_ok_iff)
  with Some show ?thesis by (simp add: scanBindingRow_def scanBinding_ok)
qed (simp add: scanBindingRow_def)

lemma readBindingByIDTx_inv [read_rules]:
  "nonce_inv db \<Longrightarrow> readBindingByIDTx e db i =
     sql e ReadBindingByID (Inr (List.find (\<lambda>b. b_BindingID b = i) (binding_t db)))"
  by (simp add: readBindingByIDTx_def scanBindingRow_find)

lemma readBindingByIntentTx_inv [read_rules]:
  "nonce_inv db \<Longrightarrow> readBindingByIntentTx e db i =
     sql e ReadBindingByIntent (Inr (List.find (\<lambda>b. b_IntentID b = i) (binding_t db)))"
  by (simp add: readBindingByIntentTx_def scanBindingRow_find)

lemma set_scope_bindings:
  "set (scope_bindings db chain sender) = {b \<in> set (binding_t db). in_binding_scope chain sender b}"
  by (auto simp: scope_bindings_def)

lemma readBindingsByScopeTx_inv [read_rules]:
  assumes "nonce_inv db"
  shows "readBindingsByScopeTx e db chain sender =
    sql e ReadBindingsByScope (Inr (scope_bindings db chain sender))"
proof -
  have "mapM_res scanBinding (scope_bindings db chain sender) = Inr (scope_bindings db chain sender)"
    using nonce_inv_row [OF assms]
    by (intro mapM_res_id scanBinding_ok) (auto simp: set_scope_bindings binding_row_ok_iff)
  then show ?thesis by (simp add: readBindingsByScopeTx_def)
qed

lemma parseNullableDecimal_ok: "opt_in_range n \<Longrightarrow> parseNullableDecimal f (numeric_text n) = Inr n"
  by (cases n) (auto simp: parseNullableDecimal_def numeric_text_def opt_in_range_def ParseDecimal_FormatDecimal)

lemma readScopeStateTx_inv [read_rules]:
  assumes "nonce_inv db"
  shows "readScopeStateTx e db chain sender =
    sql e ReadScopeState (Inr (List.find (in_scope chain sender) (scope_t db)))"
proof (cases "List.find (in_scope chain sender) (scope_t db)")
  case (Some st)
  then have st: "st \<in> set (scope_t db)" "in_scope chain sender st" by (auto dest: find_Some_set)
  then have "scope_row_ok st" using assms by (simp add: nonce_inv_def scope_inv_def)
  then show ?thesis
    using Some st(2)
    by (cases st) (simp add: readScopeStateTx_def scope_row_ok_def parseNullableDecimal_ok in_scope_def)
qed (simp add: readScopeStateTx_def)

section \<open>Statements\<close>

text \<open>A write keeps the invariant and only moves the tables forward.\<close>

definition keeps :: "nonce_db \<Rightarrow> nonce_db \<Rightarrow> bool" where
  "keeps db db' \<longleftrightarrow> (nonce_inv db \<longrightarrow> nonce_inv db') \<and> db_evolves db db'"

interpretation keeping: evolution keeps
  by unfold_locales (auto simp: keeps_def intro: db_evolves_trans)

lemmas keeps_refl [simp] = keeping.R_refl
lemmas keeps_trans = keeping.R_trans

lemma keeps_inv: "keeps db db' \<Longrightarrow> nonce_inv db \<Longrightarrow> nonce_inv db'"
  by (simp add: keeps_def)

lemma keeps_evolves: "keeps db db' \<Longrightarrow> db_evolves db db'"
  by (simp add: keeps_def)

lemma same_tables_keeps: "same_tables db db' \<Longrightarrow> keeps db db'"
  by (simp add: keeps_def same_tables_inv same_tables_evolves)

named_theorems keeps_rules

text \<open>The lock row of the chain is the only thing \<open>lockChain\<close> can add.\<close>

lemma lockChain_Inr:
  "lockChain e db chain = Inr db' \<Longrightarrow> \<exists>ls. db' = db\<lparr>lease_t := ls\<rparr>"
  by (auto simp: lockChain_def rbind_rules Let_def split: if_splits intro: exI [of _ "lease_t db"])

lemma lockChain_keeps [keeps_rules]: "lockChain e db chain = Inr db' \<Longrightarrow> keeps db db'"
  by (auto dest!: lockChain_Inr intro!: same_tables_keeps simp: same_tables_def)

lemma lockChain_inv:
  "lockChain e db chain = Inr db' \<Longrightarrow> nonce_inv db' = nonce_inv db"
  by (auto dest!: lockChain_Inr intro!: same_tables_inv simp: same_tables_def)

lemma ensureScopeRowTx_Inr:
  assumes "ensureScopeRowTx e db chain sender = Inr db'"
  shows "has_row (in_scope chain sender) (scope_t db') \<and>
    (db' = db \<or> \<not> has_row (in_scope chain sender) (scope_t db) \<and> registered db chain sender \<and>
       chain > 0 \<and> sender_ok sender \<and>
       db' = db\<lparr>scope_t := scope_t db @ [\<lparr>s_ChainID = chain, s_Sender = sender, s_ReconciledFloor = None,
         s_LastLatest = None, s_LastPending = None, s_LastObservationID = None, s_UpdatedAt = now_at e\<rparr>]\<rparr>)"
  using assms by (auto simp: ensureScopeRowTx_def rbind_rules has_row_iff in_scope_def split: if_splits)

lemma ensureScopeRowTx_keeps [keeps_rules]:
  assumes "ensureScopeRowTx e db chain sender = Inr db'"
  shows "keeps db db'"
  using ensureScopeRowTx_Inr [OF assms]
  by (auto simp: keeps_def db_evolves_def scope_row_ok_def opt_in_range_def intro!: nonce_inv_scope_insert)

lemma validateObservation_id [simp]:
  "validateObservation (ob\<lparr>o_ObservationID := i\<rparr>) = validateObservation ob"
  by (simp add: validateObservation_def split: obs_kind.split)

lemma insertObservationTx_Inr:
  assumes "insertObservationTx e db ob = Inr (db', i)"
  shows "db' = db\<lparr>observation_t := observation_t db @ [ob\<lparr>o_ObservationID := i\<rparr>]\<rparr> \<and> i \<noteq> [] \<and>
    validateObservation ob = Inr () \<and> \<not> has_row (\<lambda>r. o_ObservationID r = i) (observation_t db)"
  using assms
  by (auto simp: insertObservationTx_def rbind_rules mintObservationID_def split: if_splits option.splits)

lemma insertObservationTx_keeps [keeps_rules]:
  assumes "insertObservationTx e db ob = Inr (db', i)"
  shows "keeps db db'"
  using insertObservationTx_Inr [OF assms]
  by (auto simp: keeps_def db_evolves_def intro!: nonce_inv_observation_insert)

lemma updateScopeFrontierTx_Inr:
  assumes "updateScopeFrontierTx e db chain sender l p i = Inr db'"
  shows "nonce_col_ok l \<and> nonce_col_ok p \<and> i \<noteq> [] \<and>
    db' = db\<lparr>scope_t := update_where (in_scope chain sender)
      (\<lambda>s. s\<lparr>s_LastLatest := l, s_LastPending := p, s_LastObservationID := Some i, s_UpdatedAt := now_at e\<rparr>)
      (scope_t db)\<rparr>"
  using assms
  by (auto simp: updateScopeFrontierTx_def rbind_rules nonce_col_ok_def split: if_splits option.splits)

lemma keeps_scope_update:
  assumes "\<And>s. P s \<Longrightarrow> scope_evolves s (f s)" "\<And>s. scope_row_ok s \<Longrightarrow> scope_row_ok (f s)"
  shows "keeps db (db\<lparr>scope_t := update_where P f (scope_t db)\<rparr>)"
proof -
  have "nonce_inv (db\<lparr>scope_t := update_where P f (scope_t db)\<rparr>)" if inv: "nonce_inv db"
  proof (rule nonce_inv_scope_update [OF inv])
    fix s assume "s \<in> set (scope_t db)" "P s"
    with inv have "scope_row_ok s" by (simp add: nonce_inv_def scope_inv_def)
    with \<open>P s\<close> show "scope_key (f s) = scope_key s \<and> scope_row_ok (f s)"
      using assms scope_rows.R_key by blast
  qed
  then show ?thesis
    using assms(1) by (auto simp: keeps_def db_evolves_def intro!: scope_rows.grows_update_where)
qed

lemma updateScopeFrontierTx_keeps [keeps_rules]:
  assumes "updateScopeFrontierTx e db chain sender l p i = Inr db'"
  shows "keeps db db'"
proof -
  note u = updateScopeFrontierTx_Inr [OF assms]
  then have "opt_in_range l" "opt_in_range p"
    by (auto simp: opt_in_range_def nonce_col_ok_def split: option.splits)
  with u show ?thesis
    by (auto intro!: keeps_scope_update simp: scope_evolves_def scope_key_def floor_le_def scope_row_ok_def)
qed

lemma updateScopeFrontierTx_effect:
  assumes "updateScopeFrontierTx e db chain sender l p i = Inr db'"
  shows "keeps db db' \<and> binding_t db' = binding_t db \<and> event_t db' = event_t db \<and> hold_t db' = hold_t db \<and>
    scope_key ` set (scope_t db') = scope_key ` set (scope_t db) \<and>
    map s_ReconciledFloor (scope_t db') = map s_ReconciledFloor (scope_t db)"
proof -
  note u = updateScopeFrontierTx_Inr [OF assms]
  then have "map scope_key (scope_t db') = map scope_key (scope_t db)"
    "map s_ReconciledFloor (scope_t db') = map s_ReconciledFloor (scope_t db)"
    by (auto simp: scope_key_def update_where_def)
  moreover from this(1) have "scope_key ` set (scope_t db') = scope_key ` set (scope_t db)"
    by (metis list.set_map)
  ultimately show ?thesis
    using updateScopeFrontierTx_keeps [OF assms] u by simp
qed

lemma advanceScopeFloorTx_Inr:
  assumes "advanceScopeFloorTx e db chain sender floor = Inr (db', moved)"
  obtains v where "floor = Some v" "in_nonce_range v"
    "db' = db\<lparr>scope_t := update_where (floor_under chain sender v) (raise_floor e v) (scope_t db)\<rparr>"
  using assms by (auto simp: advanceScopeFloorTx_def rbind_rules Let_def)

lemma raise_floor_row:
  "floor_under chain sender v s \<Longrightarrow> scope_evolves s (raise_floor e v s)"
  "scope_row_ok s \<Longrightarrow> in_nonce_range v \<Longrightarrow> scope_row_ok (raise_floor e v s)"
  by (auto simp: floor_under_def raise_floor_def scope_evolves_def scope_key_def floor_le_def
      scope_row_ok_def opt_in_range_def in_nonce_range_def max_def split: option.splits)

lemma advanceScopeFloorTx_keeps [keeps_rules]:
  assumes "advanceScopeFloorTx e db chain sender floor = Inr (db', moved)"
  shows "keeps db db'"
  using assms
proof (rule advanceScopeFloorTx_Inr)
  fix v assume "in_nonce_range v"
    "db' = db\<lparr>scope_t := update_where (floor_under chain sender v) (raise_floor e v) (scope_t db)\<rparr>"
  then show ?thesis
    by (auto intro!: keeps_scope_update raise_floor_row)
qed

lemma hold_order_set [simp]: "set (hold_order hs) = set hs"
  by (simp add: hold_order_def)

lemma hold_order_Nil [simp]: "hold_order hs = [] \<longleftrightarrow> hs = []"
  by (metis hold_order_set set_empty)

lemma readActiveHoldByCauseTx_Inr:
  assumes "readActiveHoldByCauseTx e db chain sender cause = Inr found"
  shows "case found of
      None \<Rightarrow> \<not> has_row (\<lambda>h. active_hold h \<and> hold_slot h = (chain, sender, cause)) (hold_t db)
    | Some h \<Rightarrow> h \<in> set (hold_t db) \<and> active_hold h \<and> hold_slot h = (chain, sender, cause)"
proof -
  define hs where "hs = filter (\<lambda>h. hold_active_in chain sender h \<and> h_Cause h = cause) (hold_t db)"
  have "found = (case hold_order hs of [] \<Rightarrow> None | h # _ \<Rightarrow> Some h)"
    using assms by (simp add: readActiveHoldByCauseTx_def rbind_rules hs_def)
  moreover have "h \<in> set hs" if "hold_order hs = h # t" for h t
    using that hold_order_set [of hs] by (metis list.set_intros(1))
  moreover have "set hs = {h \<in> set (hold_t db). active_hold h \<and> hold_slot h = (chain, sender, cause)}"
    by (auto simp: hs_def hold_active_in_def active_hold_def hold_slot_def)
  ultimately show ?thesis
    by (auto simp: has_row_iff split: list.splits)
qed

lemma establishHoldTx_Inr:
  assumes "establishHoldTx e db est = Inr (db', h)"
  shows "\<exists>r. h_HoldID r = h_HoldID h \<and> r \<in> set (hold_t db') \<and> active_hold r \<and>
    hold_slot r = (he_ChainID est, he_Sender est, he_Cause est) \<and>
    (db' = db \<or> db' = db\<lparr>hold_t := hold_t db @ [r]\<rparr> \<and> hold_row_ok r \<and>
       registered db (h_ChainID r) (h_Sender r) \<and>
       \<not> has_row (\<lambda>x. h_HoldID x = h_HoldID r) (hold_t db) \<and>
       \<not> has_row (\<lambda>x. active_hold x \<and> hold_slot x = hold_slot r) (hold_t db))"
proof -
  from assms obtain found where
    found: "readActiveHoldByCauseTx e db (he_ChainID est) (he_Sender est) (he_Cause est) = Inr found"
    and est: "holdCauses (he_Cause est)" "he_ObservationID est \<noteq> []"
    by (auto simp: establishHoldTx_def rbind_rules split: if_splits)
  show ?thesis
  proof (cases found)
    case (Some x)
    with assms found est readActiveHoldByCauseTx_Inr [OF found] show ?thesis
      by (auto simp: establishHoldTx_def rbind_rules)
  next
    case None
    with assms found est readActiveHoldByCauseTx_Inr [OF found] show ?thesis
      by (intro exI [of _ "h\<lparr>h_EstablishedAt := now_at e\<rparr>"])
        (auto simp: establishHoldTx_def rbind_rules Let_def hold_insert_error_def first_violation_None
          hold_row_ok_def hold_slot_def active_hold_def split: if_splits option.splits)
  qed
qed

lemma establishHoldTx_keeps [keeps_rules]:
  assumes "establishHoldTx e db est = Inr (db', h)"
  shows "keeps db db'"
  using establishHoldTx_Inr [OF assms]
  by (auto simp: keeps_def db_evolves_def intro!: nonce_inv_hold_insert)

lemma establishHoldTx_effect:
  assumes "establishHoldTx e db est = Inr (db', h)"
  shows "keeps db db' \<and> binding_t db' = binding_t db \<and> event_t db' = event_t db \<and> scope_t db' = scope_t db"
  using establishHoldTx_keeps [OF assms] establishHoldTx_Inr [OF assms] by auto

lemma insertBindingTx_Inr:
  assumes "insertBindingTx e db b = Inr db'"
  shows "db' = db\<lparr>binding_t := binding_t db @ [inserted_binding e b]\<rparr> \<and>
    binding_row_ok (inserted_binding e b) \<and>
    \<not> has_row (\<lambda>r. b_BindingID r = b_BindingID b) (binding_t db) \<and>
    \<not> has_row (\<lambda>r. b_IntentID r = b_IntentID b) (binding_t db) \<and>
    registered db (b_ChainID b) (b_Sender b)"
  using assms
  by (auto simp: insertBindingTx_def binding_insert_error_def rbind_rules binding_row_ok_def inserted_binding_def
      registered_def split: option.splits if_splits)

lemma insertBindingEventTx_Inr:
  assumes "insertBindingEventTx e db ev = Inr (db', created)" "ev_FromState ev \<noteq> Some (StateOther [])"
  shows "event_row_ok ev \<and> created = (\<not> has_row (\<lambda>r. event_key r = event_key ev) (event_t db)) \<and>
    db' = (if created then db\<lparr>event_t := event_t db @ [ev]\<rparr> else db)"
proof -
  have "ev\<lparr>ev_FromState := ev_FromState ev\<rparr> = ev" by simp
  moreover have "(case ev_FromState ev of Some s \<Rightarrow> if s = StateOther [] then None else Some s | None \<Rightarrow> None) = ev_FromState ev"
    using assms(2) by (auto split: option.splits)
  ultimately show ?thesis
    using assms(1)
    by (auto simp: insertBindingEventTx_def Let_def rbind_rules event_row_ok_def event_key_def split: if_splits)
qed

lemma advanceBindingStateTx_Inr:
  assumes "advanceBindingStateTx e db i to op from = Inr (db', moved)"
  shows "CanTransition from to \<and>
    (\<forall>b \<in> set (binding_t db). b_BindingID b = i \<longrightarrow> b_State b = from \<longrightarrow>
       TerminalConsistent (advanced_binding e to op b)) \<and>
    moved = (count_where (\<lambda>b. b_BindingID b = i \<and> b_State b = from) (binding_t db) = 1) \<and>
    db' = db\<lparr>binding_t := update_where (\<lambda>b. b_BindingID b = i \<and> b_State b = from)
      (advanced_binding e to op) (binding_t db)\<rparr>"
  using assms by (auto simp: advanceBindingStateTx_def Let_def rbind_rules has_row_iff split: if_splits)

lemma advanced_binding_row:
  "binding_identity (advanced_binding e to op b) = binding_identity b"
  "b_State (advanced_binding e to op b) = to"
  by (simp_all add: advanced_binding_def binding_identity_def)

lemma advanced_binding_ok:
  assumes "binding_row_ok b" "CanTransition (b_State b) to" "TerminalConsistent (advanced_binding e to op b)"
  shows "binding_row_ok (advanced_binding e to op b)"
  using assms by (auto simp: binding_row_ok_iff known_state_def CanTransition_cases advanced_binding_def)

text \<open>A guarded advance with its event, in either order of the two statements.\<close>

lemma advance_logged:
  assumes inv: "nonce_inv db" and b: "b \<in> set (binding_t db)" and edge: "CanTransition (b_State b) to"
    and tc: "TerminalConsistent (advanced_binding e to op b)"
    and ev: "event_key ev = (b_BindingID b, to)" "event_row_ok ev"
  shows "nonce_inv (db\<lparr>binding_t := update_where (\<lambda>r. b_BindingID r = b_BindingID b \<and> b_State r = b_State b)
    (advanced_binding e to op) (binding_t db), event_t := event_t db @ [ev]\<rparr>)"
  using b edge ev binding_unique [OF inv _ b] nonce_inv_row [OF inv b] tc
  by (intro nonce_inv_move [OF inv b edge]) (auto simp: advanced_binding_row intro: advanced_binding_ok)

lemma advance_evolves:
  "CanTransition from to \<Longrightarrow> grows binding_evolves (binding_t db)
     (update_where (\<lambda>r. b_BindingID r = i \<and> b_State r = from) (advanced_binding e to op) (binding_t db))"
  by (rule binding_rows.grows_update_where) (auto simp: binding_evolves_def advanced_binding_row)

end
