(* ===== verification/NonceAllocate.thy ===== *)
theory NonceAllocate
  imports NonceInv
begin

text \<open>
  Model of \<^verbatim>\<open>internal/nonce/allocate.go\<close>: the admission transaction. \<open>Allocate\<close> is the whole entry
  point (validation, rebuild gate, the transaction with its commit and rollback branches, the
  classification after a unique-carrier race, the emitted metrics); \<open>allocateInTx\<close> is cut at its two
  natural joints into \<open>allocateInTx\<close> (locks and gates), \<open>allocateCandidate\<close> (replay, classification,
  evidence) and \<open>allocateCommit\<close> (hold or binding).
\<close>

section \<open>The request\<close>

record allocation_request =
  ar_IntentID :: string
  ar_ChainID :: int
  ar_Sender :: string
  ar_AuthorizationID :: string

datatype request_err =
    RequestChainID int
  | RequestSender string
  | OpaqueLength string nat
  | OpaqueByte string nat

text \<open>The offset of the first byte outside \<open>from..0x7e\<close>, as the loop of \<^verbatim>\<open>validateOpaqueID\<close> finds it.\<close>

fun bad_byte_at :: "nat \<Rightarrow> nat \<Rightarrow> string \<Rightarrow> nat option" where
  "bad_byte_at from i [] = None"
| "bad_byte_at from i (c # cs) =
     (if byte c < from \<or> byte c > 126 then Some i else bad_byte_at from (Suc i) cs)"

definition validateOpaqueID :: "string \<Rightarrow> string \<Rightarrow> nat \<Rightarrow> request_err + unit" where
  "validateOpaqueID name value printableFrom =
     (if length value < 1 \<or> length value > 128 then Inl (OpaqueLength name (length value))
      else case bad_byte_at printableFrom 0 value of
             Some i \<Rightarrow> Inl (OpaqueByte name i)
           | None \<Rightarrow> Inr ())"

definition AllocationRequest_Validate :: "allocation_request \<Rightarrow> request_err + unit" where
  "AllocationRequest_Validate r =
     (if ar_ChainID r \<le> 0 then Inl (RequestChainID (ar_ChainID r))
      else if \<not> sender_ok (ar_Sender r) then Inl (RequestSender (ar_Sender r))
      else rbind (validateOpaqueID ''intent_id'' (ar_IntentID r) 33) (\<lambda>_.
        validateOpaqueID ''authorization_id'' (ar_AuthorizationID r) 32))"

section \<open>Observability payload\<close>

record allocation_observation =
  ao_chainID :: int
  ao_sender :: string
  ao_nonce :: "int option"
  ao_bindingID :: string
  ao_intentID :: string
  ao_holdID :: string
  ao_cause :: string
  ao_classification :: string
  ao_registrySeq :: int
  ao_result :: outcome

definition newAllocObservation :: "allocation_request \<Rightarrow> allocation_observation" where
  "newAllocObservation r =
     \<lparr>ao_chainID = ar_ChainID r, ao_sender = ar_Sender r, ao_nonce = None, ao_bindingID = [],
      ao_intentID = ar_IntentID r, ao_holdID = [], ao_cause = [], ao_classification = [],
      ao_registrySeq = 0, ao_result = OutcomeNone\<rparr>"

definition mergeAllocObservation ::
  "allocation_observation \<Rightarrow> allocation_observation \<Rightarrow> allocation_observation" where
  "mergeAllocObservation dst src =
     dst\<lparr>ao_result := (if ao_result src \<noteq> OutcomeNone then ao_result src else ao_result dst),
         ao_cause := (if ao_cause src \<noteq> [] then ao_cause src else ao_cause dst),
         ao_classification :=
           (if ao_classification src \<noteq> [] then ao_classification src else ao_classification dst),
         ao_holdID := (if ao_holdID src \<noteq> [] then ao_holdID src else ao_holdID dst),
         ao_bindingID := (if ao_bindingID src \<noteq> [] then ao_bindingID src else ao_bindingID dst),
         ao_nonce := (if ao_nonce src \<noteq> None then ao_nonce src else ao_nonce dst),
         ao_registrySeq := (if ao_registrySeq src \<noteq> 0 then ao_registrySeq src else ao_registrySeq dst)\<rparr>"

datatype sink_call =
    ObserveNonceAllocation string
  | ObserveNonceReplay
  | ObserveNonceObservation string
  | ObserveNonceHoldEstablished

text \<open>The metric calls of \<^verbatim>\<open>emitAllocation\<close> on a registry that implements the hold extension; the log
  line carries the same fields and nothing else.\<close>

definition emitAllocation :: "allocation_observation \<Rightarrow> sink_call list" where
  "emitAllocation obs =
     (if ao_result obs = OutcomeNone then []
      else [ObserveNonceAllocation (outcome_str (ao_result obs))] @
        (if ao_result obs = OutcomeReplayed then [ObserveNonceReplay] else []) @
        (if ao_classification obs \<noteq> [] then [ObserveNonceObservation (ao_classification obs)] else []) @
        (if ao_holdID obs \<noteq> [] \<and> ao_classification obs \<noteq> [] then [ObserveNonceHoldEstablished] else []))"

section \<open>Authorization\<close>

definition grant_valid :: "env \<Rightarrow> string \<Rightarrow> int \<Rightarrow> authorization_row \<Rightarrow> bool" where
  "grant_valid e authorizationID chain a \<longleftrightarrow>
     az_AuthorizationID a = authorizationID \<and> az_ChainID a = chain \<and> az_State a = ''active'' \<and>
     (case az_ExpiresAt a of None \<Rightarrow> True | Some t \<Rightarrow> t > clock_at e)"

definition readAuthorizationForShareTx ::
  "env \<Rightarrow> nonce_db \<Rightarrow> string \<Rightarrow> int \<Rightarrow> terr + authorization_row option" where
  "readAuthorizationForShareTx e db authorizationID chain =
     sql e ReadAuthorizationForShare
       (Inr (List.find (grant_valid e authorizationID chain) (authorization_t db)))"

definition digest_lines :: "string list \<Rightarrow> string" where
  "digest_lines parts = hex_encode (sha256 (str_bytes (concat (map (\<lambda>p. p @ [CHR 0x0A]) parts))))"

definition authorizationVersionDigest :: "authorization_row \<Rightarrow> string \<Rightarrow> string" where
  "authorizationVersionDigest row authorizationID =
     digest_lines
       [''txharbor:nonce:authorization:v1'',
        authorizationID,
        int_text 10 (az_ChainID row),
        az_Asset row,
        az_Recipient row,
        int_text 10 (az_Amount row),
        az_State row,
        (case az_ExpiresAt row of None \<Rightarrow> [] | Some t \<Rightarrow> rfc3339_nano t)]"

lemma hex64_digest_lines [simp]: "hex64 (digest_lines parts)"
  by (simp add: hex64_def digest_lines_def hex_encode_lower_hex)

section \<open>The transaction body\<close>

record alloc_result =
  ax_binding :: "binding option"
  ax_refuse :: "refusal option"
  ax_persist :: bool
  ax_obs :: allocation_observation

text \<open>An error return also carries the attempted binding when its insert failed.\<close>

type_synonym alloc_fail = "terr \<times> binding option"

definition early :: "terr + 'a \<Rightarrow> alloc_fail + 'a" where
  "early m = map_err (\<lambda>err. (err, None)) m"

lemma early_Inr [rbind_rules]: "early m = Inr x \<longleftrightarrow> m = Inr x"
  by (simp add: early_def rbind_rules)

lemma early_simps [simp]: "early (Inr x) = Inr x" "early (Inl err) = Inl (err, None)"
  by (simp_all add: early_def)

definition attempted :: "binding \<Rightarrow> terr + 'a \<Rightarrow> alloc_fail + 'a" where
  "attempted b m = map_err (\<lambda>err. (err, Some b)) m"

lemma attempted_Inr [rbind_rules]: "attempted b m = Inr x \<longleftrightarrow> m = Inr x"
  by (simp add: attempted_def rbind_rules)

definition refuse_plain :: "outcome \<Rightarrow> string \<Rightarrow> allocation_observation \<Rightarrow> alloc_result" where
  "refuse_plain oc cause obs =
     \<lparr>ax_binding = None, ax_refuse = Some (Refuse oc cause), ax_persist = False,
      ax_obs = obs\<lparr>ao_result := oc, ao_cause := cause\<rparr>\<rparr>"

definition bindingMatchesInput :: "binding \<Rightarrow> allocation_request \<Rightarrow> bool" where
  "bindingMatchesInput b req \<longleftrightarrow>
     b_ChainID b = ar_ChainID req \<and> b_Sender b = ar_Sender req \<and>
     b_AuthorizationID b = ar_AuthorizationID req"

definition registryRefusalReason :: "wallet_registry option \<Rightarrow> string" where
  "registryRefusalReason r =
     (case r of None \<Rightarrow> ''sender is not in nonce_wallet_registry''
      | Some w \<Rightarrow> ''sender registry state is '' @ registry_state_str (r_State w))"

definition holdCauseList :: "scope_hold list \<Rightarrow> string list" where
  "holdCauseList hs = map (\<lambda>h. cause_str (h_Cause h)) hs"

fun join_comma :: "string list \<Rightarrow> string" where
  "join_comma [] = []"
| "join_comma [s] = s"
| "join_comma (s # ss) = s @ '','' @ join_comma ss"

definition scopeLastPending :: "scope_state option \<Rightarrow> int option" where
  "scopeLastPending s = (case s of None \<Rightarrow> None | Some st \<Rightarrow> s_LastPending st)"

definition scopeFloor :: "scope_state option \<Rightarrow> int option" where
  "scopeFloor s = (case s of None \<Rightarrow> None | Some st \<Rightarrow> s_ReconciledFloor st)"

definition newBindingID :: "env \<Rightarrow> terr + string" where
  "newBindingID e = (case rand_bytes e MintBinding of
     None \<Rightarrow> Inl (MintFailed MintBinding) | Some bs \<Rightarrow> Inr (''nb-'' @ hex_encode bs))"

definition scope_classify ::
  "observation \<Rightarrow> scope_state option \<Rightarrow> binding list \<Rightarrow> decision" where
  "scope_classify obs scope bs =
     Classify \<lparr>ci_ReadFailed = (o_Classification obs = ClassificationUnavailable),
       ci_Latest = o_LatestCount obs, ci_Pending = o_PendingCount obs,
       ci_PendingPrev = scopeLastPending scope, ci_MaxBindingNonce = MaxBoundNonce bs,
       ci_HasBindings = (bs \<noteq> []), ci_ReconciledFloor = scopeFloor scope\<rparr>"

text \<open>Only a readable, uncontradicted view advances the waterline.\<close>

definition trusted_view :: "observation \<Rightarrow> classification \<Rightarrow> bool" where
  "trusted_view obs c \<longleftrightarrow> o_LatestCount obs \<noteq> None \<and> o_PendingCount obs \<noteq> None \<and>
     c \<noteq> ClassificationUnavailable \<and> c \<noteq> ClassificationDivergence"

definition new_binding ::
  "allocation_request \<Rightarrow> wallet_registry \<Rightarrow> authorization_row \<Rightarrow> string \<Rightarrow> string \<Rightarrow> int option \<Rightarrow> binding" where
  "new_binding req reg auth bindingID observationID candidate =
     \<lparr>b_BindingID = bindingID, b_IntentID = ar_IntentID req, b_ChainID = ar_ChainID req,
      b_Sender = ar_Sender req, b_Nonce = candidate, b_State = StateAllocated,
      b_AuthorizationID = ar_AuthorizationID req,
      b_AuthorizationVersion = authorizationVersionDigest auth (ar_AuthorizationID req),
      b_RegistrySeq = r_RegistrySeq reg, b_AllocationObservationID = observationID,
      b_CreatedAt = 0, b_UpdatedAt = 0, b_ConsumedAt = None, b_ReleasedAt = None,
      b_ReleaseOperationID = None\<rparr>"

definition allocateCommit ::
  "env \<Rightarrow> nonce_db \<Rightarrow> allocation_request \<Rightarrow> wallet_registry \<Rightarrow> authorization_row \<Rightarrow> decision \<Rightarrow> string
   \<Rightarrow> alloc_fail + nonce_db \<times> alloc_result" where
  "allocateCommit e db req reg auth dec observationID =
     (let o0 = newAllocObservation req in
      case d_Candidate dec of
        None \<Rightarrow>
          let o1 = o0\<lparr>ao_result := d_Refusal dec, ao_cause := class_str (d_Classification dec),
                      ao_classification := class_str (d_Classification dec)\<rparr>
          in rbind (if d_HoldCause dec \<noteq> NoCause
                    then early (rbind (establishHoldTx e db
                           \<lparr>he_ChainID = ar_ChainID req, he_Sender = ar_Sender req,
                            he_Cause = d_HoldCause dec, he_ObservationID = observationID,
                            he_Detail = class_str (d_Classification dec)\<rparr>)
                         (\<lambda>(db', hold). Inr (db', o1\<lparr>ao_holdID := h_HoldID hold\<rparr>)))
                    else Inr (db, o1)) (\<lambda>(db', o2).
               Inr (db', \<lparr>ax_binding = None,
                 ax_refuse = Some (Refuse (d_Refusal dec) (class_str (d_Classification dec))),
                 ax_persist = True, ax_obs = o2\<rparr>))
      | Some c \<Rightarrow>
          rbind (early (newBindingID e)) (\<lambda>bindingID.
            let binding = new_binding req reg auth bindingID observationID (Some c)
            in rbind (attempted binding (insertBindingTx e db binding)) (\<lambda>db1.
               rbind (attempted binding (insertBindingEventTx e db1
                        \<lparr>ev_BindingID = bindingID, ev_FromState = None, ev_ToState = StateAllocated,
                         ev_ObservationID = observationID, ev_OperationID = [], ev_Detail = ''admission''\<rparr>))
                 (\<lambda>(db2, created).
                    if \<not> created then Inl (CreationEventMissing, Some binding)
                    else Inr (db2, \<lparr>ax_binding = Some binding, ax_refuse = None, ax_persist = False,
                           ax_obs = o0\<lparr>ao_result := OutcomeAllocated,
                             ao_classification := class_str (d_Classification dec),
                             ao_bindingID := b_BindingID binding, ao_nonce := b_Nonce binding,
                             ao_registrySeq := b_RegistrySeq binding\<rparr>\<rparr>)))))"

definition allocateCandidate ::
  "env \<Rightarrow> nonce_db \<Rightarrow> allocation_request \<Rightarrow> observation \<Rightarrow> wallet_registry \<Rightarrow> authorization_row
   \<Rightarrow> alloc_fail + nonce_db \<times> alloc_result" where
  "allocateCandidate e db req obs reg auth =
     (let o0 = newAllocObservation req in
      rbind (early (readBindingByIntentTx e db (ar_IntentID req))) (\<lambda>existing.
      case existing of
        Some b \<Rightarrow>
          if bindingMatchesInput b req
          then Inr (db, \<lparr>ax_binding = Some b,
                 ax_refuse = Some (Refuse OutcomeReplayed ''allocation input equality''),
                 ax_persist = False,
                 ax_obs = o0\<lparr>ao_result := OutcomeReplayed, ao_cause := ''allocation input equality'',
                   ao_bindingID := b_BindingID b, ao_nonce := b_Nonce b,
                   ao_registrySeq := b_RegistrySeq b\<rparr>\<rparr>)
          else Inr (db, refuse_plain OutcomeAllocationConflict
                 ''intent already bound to a differing input set'' o0)
      | None \<Rightarrow>
          rbind (early (readBindingsByScopeTx e db (ar_ChainID req) (ar_Sender req))) (\<lambda>bs.
          rbind (early (readScopeStateTx e db (ar_ChainID req) (ar_Sender req))) (\<lambda>scope.
            let dec = scope_classify obs scope bs in
            rbind (early (insertObservationTx e db (obs\<lparr>o_Classification := d_Classification dec\<rparr>)))
              (\<lambda>(db1, observationID).
            rbind (early (if trusted_view obs (d_Classification dec)
                          then updateScopeFrontierTx e db1 (ar_ChainID req) (ar_Sender req)
                                 (o_LatestCount obs) (o_PendingCount obs) observationID
                          else Inr db1)) (\<lambda>db2.
              allocateCommit e db2 req reg auth dec observationID))))))"

definition allocateInTx ::
  "env \<Rightarrow> nonce_db \<Rightarrow> allocation_request \<Rightarrow> observation \<Rightarrow> alloc_fail + nonce_db \<times> alloc_result" where
  "allocateInTx e db req obs =
     (let o0 = newAllocObservation req in
      rbind (early (lockChain e db (ar_ChainID req))) (\<lambda>db1.
      rbind (early (readGateStateTx e db1 (ar_ChainID req))) (\<lambda>gates.
      if GateState_Any gates
      then Inr (db1, refuse_plain OutcomeRecoveryActive
             (''006 gate active: '' @ join_comma (GateState_Causes gates)) o0)
      else rbind (early (readRegistryBySenderTx e db1 (ar_ChainID req) (ar_Sender req))) (\<lambda>registry.
      if AdmissionRefusal registry \<noteq> OutcomeNone
      then Inr (db1, refuse_plain (AdmissionRefusal registry) (registryRefusalReason registry)
             (case registry of None \<Rightarrow> o0 | Some w \<Rightarrow> o0\<lparr>ao_registrySeq := r_RegistrySeq w\<rparr>))
      else rbind (early (ensureScopeRowTx e db1 (ar_ChainID req) (ar_Sender req))) (\<lambda>db2.
      rbind (early (lockScopeRowTx e db2 (ar_ChainID req) (ar_Sender req))) (\<lambda>_.
      rbind (early (readActiveHoldsTx e db2 (ar_ChainID req) (ar_Sender req))) (\<lambda>holds.
      case holds of
        h # _ \<Rightarrow> Inr (db2, refuse_plain OutcomeScopeHeld
                   (''active holds: '' @ join_comma (holdCauseList holds)) (o0\<lparr>ao_holdID := h_HoldID h\<rparr>))
      | [] \<Rightarrow>
        rbind (early (readAuthorizationForShareTx e db2 (ar_AuthorizationID req) (ar_ChainID req))) (\<lambda>auth.
        case auth of
          None \<Rightarrow> Inr (db2, refuse_plain OutcomeAuthorizationInvalid
                     ''authorization is missing, inactive, expired, or chain-mismatched'' o0)
        | Some a \<Rightarrow> allocateCandidate e db2 req obs (the registry) a))))))))"

section \<open>Races and the entry point\<close>

definition bindingCarrierConstraint :: "terr \<Rightarrow> bool" where
  "bindingCarrierConstraint err =
     (case err of
        Pg _ (PgError code name) \<Rightarrow> code = ''23505'' \<and>
          (name = ''nonce_bindings_pkey'' \<or> name = ''nonce_bindings_intent_uniq'' \<or>
           name = ''nonce_bindings_scope_nonce_uniq'')
      | _ \<Rightarrow> False)"

definition attemptedNonce :: "binding option \<Rightarrow> int option" where
  "attemptedNonce b = (case b of None \<Rightarrow> None | Some x \<Rightarrow> b_Nonce x)"

definition resolveAdmissionRace ::
  "env \<Rightarrow> nonce_db \<Rightarrow> allocation_request \<Rightarrow> int option \<Rightarrow> terr + binding option \<times> refusal option" where
  "resolveAdmissionRace e db req raced =
     rbind (readBindingByIntentTx e db (ar_IntentID req)) (\<lambda>winner.
     case winner of
       Some w \<Rightarrow>
         if bindingMatchesInput w req then Inr (Some w, None)
         else Inr (None, Some (Refuse OutcomeAllocationConflict
                ''intent already bound to a differing input set''))
     | None \<Rightarrow>
         if raced = None
         then Inr (None, Some (Refuse OutcomeTemporarilyUnavailable ''allocation race classify miss''))
         else rbind (readBindingByScopeNonceTx e db (ar_ChainID req) (ar_Sender req) raced) (\<lambda>other.
           if other \<noteq> None
           then Inr (None, Some (Refuse OutcomeTemporarilyUnavailable
                  ''scope nonce carrier raced; retry with the same input set''))
           else Inr (None, Some (Refuse OutcomeTemporarilyUnavailable
                  ''allocation race classify miss; retry with the same input set''))))"

text \<open>A refusal with the error it wraps, if any.\<close>

type_synonym wrapped = "refusal \<times> terr option"

definition storageRefusal :: "string \<Rightarrow> terr \<Rightarrow> wrapped" where
  "storageRefusal reason cause = (Refuse OutcomeTemporarilyUnavailable reason, Some cause)"

datatype alloc_error =
    InvalidRequest request_err
  | Refused wrapped

record alloc_reply =
  rp_binding :: "binding option"
  rp_outcome :: outcome
  rp_error :: "alloc_error option"

definition convergeAfterRace ::
  "env \<Rightarrow> nonce_db \<Rightarrow> allocation_request \<Rightarrow> int option \<Rightarrow> alloc_reply" where
  "convergeAfterRace e db req raced =
     (case fault e BeginTx of
        Some p \<Rightarrow> \<lparr>rp_binding = None, rp_outcome = OutcomeTemporarilyUnavailable,
            rp_error = Some (Refused (storageRefusal ''open race classify transaction'' (Pg BeginTx p)))\<rparr>
      | None \<Rightarrow>
          (case resolveAdmissionRace e db req raced of
             Inl err \<Rightarrow> \<lparr>rp_binding = None, rp_outcome = OutcomeTemporarilyUnavailable,
                 rp_error = Some (Refused (storageRefusal ''race classify read failed'' err))\<rparr>
           | Inr (b, Some r) \<Rightarrow> \<lparr>rp_binding = None, rp_outcome = e_Outcome r, rp_error = Some (Refused (r, None))\<rparr>
           | Inr (b, None) \<Rightarrow> \<lparr>rp_binding = b, rp_outcome = OutcomeReplayed, rp_error = None\<rparr>))"

text \<open>COMMIT: on a reported error the change may or may not have become durable.\<close>

definition committed :: "env \<Rightarrow> nonce_db \<Rightarrow> nonce_db \<Rightarrow> nonce_db" where
  "committed e db db' = (if fault e CommitTx = None \<or> commit_durable e then db' else db)"

definition rebuildCause :: "rebuild_gate \<Rightarrow> string" where
  "rebuildCause g = (case RebuildGate_State g of (_, cause) \<Rightarrow>
     if cause = [] then ''startup rebuild verification has not completed'' else cause)"

text \<open>\<open>e2\<close> and \<open>db2\<close> are the environment and the committed database the classification transaction
  sees after a rolled-back race; every other branch runs on \<open>e\<close> and \<open>db\<close> alone.\<close>

definition Allocate ::
  "rebuild_gate option \<Rightarrow> env \<Rightarrow> nonce_db \<Rightarrow> allocation_request \<Rightarrow> observation \<Rightarrow> env \<Rightarrow> nonce_db
   \<Rightarrow> nonce_db \<times> alloc_reply \<times> sink_call list" where
  "Allocate gate e db req observation e2 db2 =
     (let o0 = newAllocObservation req;
          reply = (\<lambda>b oc err. \<lparr>rp_binding = b, rp_outcome = oc, rp_error = err\<rparr>);
          unavailable = (\<lambda>db' obs reason err.
            (db', reply None OutcomeTemporarilyUnavailable (Some (Refused (storageRefusal reason err))),
             emitAllocation (obs\<lparr>ao_result := OutcomeTemporarilyUnavailable, ao_cause := reason\<rparr>)))
      in case AllocationRequest_Validate req of
           Inl err \<Rightarrow> (db, reply None OutcomeNone (Some (InvalidRequest err)), emitAllocation o0)
         | Inr _ \<Rightarrow>
           if (case gate of None \<Rightarrow> False | Some g \<Rightarrow> \<not> RebuildGate_IsOpen g)
           then (db, reply None OutcomeRebuildIncomplete
                   (Some (Refused (Refuse OutcomeRebuildIncomplete (rebuildCause (the gate)), None))),
                 emitAllocation (o0\<lparr>ao_result := OutcomeRebuildIncomplete,
                   ao_cause := rebuildCause (the gate)\<rparr>))
           else case fault e BeginTx of
             Some p \<Rightarrow> unavailable db o0 ''open allocation transaction'' (Pg BeginTx p)
           | None \<Rightarrow>
             (case allocateInTx e db req observation of
                Inl (err, tried) \<Rightarrow>
                  if bindingCarrierConstraint err
                  then let rep = convergeAfterRace e2 db2 req (attemptedNonce tried);
                           obs = (case rp_binding rep of
                              Some b \<Rightarrow> o0\<lparr>ao_nonce := b_Nonce b, ao_bindingID := b_BindingID b,
                                            ao_registrySeq := b_RegistrySeq b\<rparr>
                            | None \<Rightarrow> o0\<lparr>ao_nonce := attemptedNonce tried\<rparr>)
                       in (db, rep, emitAllocation (obs\<lparr>ao_result :=
                             (if rp_error rep \<noteq> None then OutcomeTemporarilyUnavailable
                              else rp_outcome rep)\<rparr>))
                  else unavailable db o0 ''allocation transaction failed'' err
              | Inr (db', res) \<Rightarrow>
                  let obs = mergeAllocObservation o0 (ax_obs res) in
                  (case ax_refuse res of
                     Some r \<Rightarrow>
                       if e_Outcome r = OutcomeReplayed
                       then (db, reply (ax_binding res) OutcomeReplayed None, emitAllocation obs)
                       else if \<not> ax_persist res
                       then (db, reply None (e_Outcome r) (Some (Refused (r, None))), emitAllocation obs)
                       else (case fault e CommitTx of
                               Some p \<Rightarrow> unavailable (committed e db db') obs
                                           ''commit classification refusal'' (Pg CommitTx p)
                             | None \<Rightarrow> (db', reply None (e_Outcome r) (Some (Refused (r, None))),
                                        emitAllocation obs))
                   | None \<Rightarrow>
                       (case fault e CommitTx of
                          Some p \<Rightarrow> unavailable (committed e db db') obs ''commit allocation'' (Pg CommitTx p)
                        | None \<Rightarrow> (db', reply (ax_binding res) OutcomeAllocated None, emitAllocation obs)))))"

end
