(* ===== verification/NonceAllocateSpec.thy ===== *)
theory NonceAllocateSpec
  imports NonceAllocate
begin

text \<open>
  What the admission transaction guarantees. Every run of \<open>allocateInTx\<close> keeps the invariant and answers
  what \<open>allocate_spec\<close> reads off the durable state; \<open>Allocate\<close> adds the commit, the rollback and the race
  branches. In a healthy environment (no statement fails, minted identifiers are new) the transaction
  returns.
\<close>

section \<open>What one admission does to the database\<close>

text \<open>A candidate of the matrix lies above every nonce the scope has bound, released ones included.\<close>

lemma scope_classify_above:
  assumes inv: "nonce_inv db"
    and cand: "d_Candidate (scope_classify obs scope (scope_bindings db chain sender)) = Some c"
    and b: "b \<in> set (binding_t db)" "b_ChainID b = chain" "b_Sender b = sender"
  shows "the (b_Nonce b) < c"
proof -
  let ?bs = "scope_bindings db chain sender"
  have mem: "b \<in> set ?bs" using b by (simp add: set_scope_bindings in_binding_scope_def)
  obtain n where n: "b_Nonce b = Some n"
    using nonce_inv_row [OF inv b(1)] by (auto simp: binding_row_ok_iff nonce_col_ok_def split: option.splits)
  with mem obtain m where m: "MaxBoundNonce ?bs = Some m"
    using MaxBoundNonce_None [of ?bs] by fastforce
  have "n \<le> m" using MaxBoundNonce_upper [OF m mem n] .
  moreover have "m < c"
    using cand [unfolded scope_classify_def] mem m
    by (elim Classify_candidate) (force dest: classifyFrontierBase_above simp: max_def split: option.splits)
  ultimately show ?thesis by (simp add: n)
qed

lemma allocateCommit_refused:
  assumes run: "allocateCommit e db req reg auth dec oid = Inr (db', res)" and "d_Candidate dec = None"
  shows "keeps db db' \<and> binding_t db' = binding_t db \<and> event_t db' = event_t db \<and>
    ax_binding res = None \<and> ax_persist res \<and>
    ax_refuse res = Some (Refuse (d_Refusal dec) (class_str (d_Classification dec)))"
  using assms
  by (auto simp: allocateCommit_def Let_def rbind_rules split: if_splits
      dest!: establishHoldTx_effect)

lemma allocateCommit_bound:
  assumes run: "allocateCommit e db req reg auth dec oid = Inr (db', res)" and cand: "d_Candidate dec = Some c"
    and inv: "nonce_inv db" and scope: "has_row (in_scope (ar_ChainID req) (ar_Sender req)) (scope_t db)"
    and above: "\<And>b. b \<in> set (binding_t db) \<Longrightarrow> b_ChainID b = ar_ChainID req \<Longrightarrow> b_Sender b = ar_Sender req \<Longrightarrow>
      the (b_Nonce b) < c"
  shows "keeps db db' \<and> ax_refuse res = None \<and>
    (\<exists>b. ax_binding res = Some b \<and> (\<exists>i. b = new_binding req reg auth i oid (Some c)) \<and>
       binding_t db' = binding_t db @ [inserted_binding e b] \<and>
       \<not> has_row (\<lambda>r. b_IntentID r = ar_IntentID req) (binding_t db))"
proof -
  define ev where "ev i = \<lparr>ev_BindingID = i, ev_FromState = None, ev_ToState = StateAllocated,
    ev_ObservationID = oid, ev_OperationID = [], ev_Detail = ''admission''\<rparr>" for i
  from run cand obtain i db1 where
    ins: "insertBindingTx e db (new_binding req reg auth i oid (Some c)) = Inr db1" and
    evt: "insertBindingEventTx e db1 (ev i) = Inr (db', True)" and
    res: "ax_binding res = Some (new_binding req reg auth i oid (Some c))" "ax_refuse res = None"
    by (auto simp: allocateCommit_def Let_def rbind_rules ev_def split: if_splits)
  define b where "b = new_binding req reg auth i oid (Some c)"
  have b: "b_BindingID (inserted_binding e b) = i" "b_State (inserted_binding e b) = StateAllocated"
    "b_ChainID (inserted_binding e b) = ar_ChainID req" "b_Sender (inserted_binding e b) = ar_Sender req"
    "b_Nonce (inserted_binding e b) = Some c" "b_IntentID (inserted_binding e b) = ar_IntentID req"
    by (simp_all add: b_def new_binding_def inserted_binding_def)
  note i1 = insertBindingTx_Inr [OF ins [folded b_def]]
  have e1: "event_row_ok (ev i) \<and> db' = db1\<lparr>event_t := event_t db1 @ [ev i]\<rparr>"
    using insertBindingEventTx_Inr [OF evt] by (simp add: ev_def)
  have db': "db' = db\<lparr>binding_t := binding_t db @ [inserted_binding e b], event_t := event_t db @ [ev i]\<rparr>"
    using i1 e1 by simp
  have "scope_below r (inserted_binding e b)" if "r \<in> set (binding_t db)" for r
    using above that b by (auto simp: scope_below_def)
  then have "nonce_inv db'"
    unfolding db' using i1 e1 scope b
    by (intro nonce_inv_binding_insert [OF inv]) (auto simp: ev_def event_key_def b_def new_binding_def)
  then show ?thesis
    using i1 res by (auto simp: keeps_def db' db_evolves_def b_def new_binding_def)
qed

text \<open>The database a commit would make durable, and the answer, once the request reached the intent
  lookup.\<close>

definition scope_decision :: "nonce_db \<Rightarrow> int \<Rightarrow> string \<Rightarrow> observation \<Rightarrow> decision" where
  "scope_decision db chain sender obs =
     scope_classify obs (List.find (in_scope chain sender) (scope_t db)) (scope_bindings db chain sender)"

definition bound_by ::
  "env \<Rightarrow> allocation_request \<Rightarrow> observation \<Rightarrow> nonce_db \<Rightarrow> nonce_db \<Rightarrow> binding \<Rightarrow> bool" where
  "bound_by e req obs db db' b \<longleftrightarrow>
     binding_t db' = binding_t db @ [inserted_binding e b] \<and>
     \<not> has_row (\<lambda>r. b_IntentID r = ar_IntentID req) (binding_t db) \<and>
     b_IntentID b = ar_IntentID req \<and> b_ChainID b = ar_ChainID req \<and> b_Sender b = ar_Sender req \<and>
     b_AuthorizationID b = ar_AuthorizationID req \<and> b_State b = StateAllocated \<and>
     d_Candidate (scope_decision db (ar_ChainID req) (ar_Sender req) obs) = b_Nonce b \<and>
     (\<exists>c p. b_Nonce b = Some c \<and> o_PendingCount obs = Some p \<and> p \<le> c \<and>
        (\<forall>r \<in> set (binding_t db). b_ChainID r = ar_ChainID req \<longrightarrow> b_Sender r = ar_Sender req \<longrightarrow>
           the (b_Nonce r) < c))"

lemma scope_classify_pending:
  assumes "d_Candidate (scope_classify obs scope bs) = Some c"
  shows "\<exists>p. o_PendingCount obs = Some p \<and> p \<le> c"
  using assms [unfolded scope_classify_def]
  by (elim Classify_candidate) (auto simp: max_def split: option.splits if_splits)

lemma allocateCandidate_Inr:
  assumes run: "allocateCandidate e db req obs reg auth = Inr (db', res)"
    and inv: "nonce_inv db" and scope: "has_row (in_scope (ar_ChainID req) (ar_Sender req)) (scope_t db)"
  shows "keeps db db' \<and>
    (case List.find (\<lambda>b. b_IntentID b = ar_IntentID req) (binding_t db) of
       Some b \<Rightarrow> db' = db \<and> \<not> ax_persist res \<and>
         (if bindingMatchesInput b req
          then ax_binding res = Some b \<and> (\<exists>r. ax_refuse res = Some r \<and> e_Outcome r = OutcomeReplayed)
          else ax_binding res = None \<and> (\<exists>r. ax_refuse res = Some r \<and> e_Outcome r = OutcomeAllocationConflict))
     | None \<Rightarrow>
         (case ax_refuse res of
            Some r \<Rightarrow> ax_persist res \<and> ax_binding res = None \<and> binding_t db' = binding_t db \<and>
              event_t db' = event_t db \<and>
              e_Outcome r = d_Refusal (scope_decision db (ar_ChainID req) (ar_Sender req) obs) \<and>
              e_Outcome r \<noteq> OutcomeNone
          | None \<Rightarrow> d_Refusal (scope_decision db (ar_ChainID req) (ar_Sender req) obs) = OutcomeNone \<and> (\<exists>b. ax_binding res = Some b \<and> bound_by e req obs db db' b \<and>
              b_RegistrySeq b = r_RegistrySeq reg \<and>
              b_AuthorizationVersion b = authorizationVersionDigest auth (ar_AuthorizationID req))))"
proof (cases "List.find (\<lambda>b. b_IntentID b = ar_IntentID req) (binding_t db)")
  case (Some b)
  with run show ?thesis
    by (auto simp: allocateCandidate_def Let_def rbind_rules read_rules [OF inv] refuse_plain_def Refuse_def
        split: if_splits)
next
  case None
  let ?sc = "List.find (in_scope (ar_ChainID req) (ar_Sender req)) (scope_t db)"
  define dec where "dec = scope_classify obs ?sc (scope_bindings db (ar_ChainID req) (ar_Sender req))"
  from run None obtain db1 oid db2 where
    ins: "insertObservationTx e db (obs\<lparr>o_Classification := d_Classification dec\<rparr>) = Inr (db1, oid)" and
    upd: "(if trusted_view obs (d_Classification dec)
       then updateScopeFrontierTx e db1 (ar_ChainID req) (ar_Sender req) (o_LatestCount obs) (o_PendingCount obs) oid
       else Inr db1) = Inr db2" and
    com: "allocateCommit e db2 req reg auth dec oid = Inr (db', res)"
    by (auto simp: allocateCandidate_def Let_def rbind_rules read_rules [OF inv] dec_def)
  note i = insertObservationTx_Inr [OF ins] insertObservationTx_keeps [OF ins]
  have u: "keeps db1 db2 \<and> binding_t db2 = binding_t db1 \<and> event_t db2 = event_t db1 \<and>
      scope_key ` set (scope_t db2) = scope_key ` set (scope_t db1)"
    using upd by (auto split: if_splits dest!: updateScopeFrontierTx_effect)
  have k2: "keeps db db2" using i u keeps_trans by blast
  have b2: "binding_t db2 = binding_t db" "event_t db2 = event_t db" using i u by auto
  show ?thesis
  proof (cases "d_Candidate dec")
    case rej: None
    then have "d_Refusal dec \<noteq> OutcomeNone"
      by (simp add: dec_def scope_classify_def Classify_refusals(1))
    moreover have "keeps db db'"
      using allocateCommit_refused [OF com rej] k2 keeps_trans by blast
    ultimately show ?thesis
      using allocateCommit_refused [OF com rej] b2 None
      by (simp add: Refuse_def scope_decision_def flip: dec_def)
  next
    case (Some c)
    have above: "the (b_Nonce b) < c"
      if "b \<in> set (binding_t db2)" "b_ChainID b = ar_ChainID req" "b_Sender b = ar_Sender req" for b
      using scope_classify_above [OF inv Some [unfolded dec_def]] that b2 by simp
    have "has_row (in_scope (ar_ChainID req) (ar_Sender req)) (scope_t db2)"
      using scope i u by (simp add: has_scope_key)
    note bound = allocateCommit_bound [OF com Some keeps_inv [OF k2 inv] this above]
    then have "keeps db db'" using k2 keeps_trans by blast
    moreover from bound obtain b i where b: "ax_refuse res = None" "ax_binding res = Some b"
      "b = new_binding req reg auth i oid (Some c)"
      "binding_t db' = binding_t db2 @ [inserted_binding e b]"
      "\<not> has_row (\<lambda>r. b_IntentID r = ar_IntentID req) (binding_t db2)"
      by blast
    moreover have "bound_by e req obs db db' b"
      unfolding bound_by_def using b above scope_classify_pending [OF Some [unfolded dec_def]]
      by (simp add: b2 new_binding_def scope_decision_def Some flip: dec_def)
    moreover have "d_Refusal dec = OutcomeNone"
      using Some unfolding dec_def scope_classify_def by (metis Classify_refusals(1) option.distinct(1))
    ultimately show ?thesis
      using None by (simp add: new_binding_def scope_decision_def flip: dec_def)
  qed
qed

section \<open>Admission against its specification\<close>

text \<open>What the code promises to answer, read off the durable state alone: the gates in their order,
  then the intent, then the matrix.\<close>

definition admission_refusal :: "env \<Rightarrow> nonce_db \<Rightarrow> allocation_request \<Rightarrow> outcome" where
  "admission_refusal e db req =
     (let reg = List.find (\<lambda>r. r_ChainID r = ar_ChainID req \<and> r_Sender r = ar_Sender req) (registry_t db) in
      if GateState_Any (gate_of db (ar_ChainID req)) then OutcomeRecoveryActive
      else if AdmissionRefusal reg \<noteq> OutcomeNone then AdmissionRefusal reg
      else if has_row (hold_active_in (ar_ChainID req) (ar_Sender req)) (hold_t db) then OutcomeScopeHeld
      else if \<not> has_row (grant_valid e (ar_AuthorizationID req) (ar_ChainID req)) (authorization_t db)
      then OutcomeAuthorizationInvalid
      else OutcomeNone)"

definition allocate_spec :: "env \<Rightarrow> nonce_db \<Rightarrow> allocation_request \<Rightarrow> observation \<Rightarrow> outcome" where
  "allocate_spec e db req obs =
     (if admission_refusal e db req \<noteq> OutcomeNone then admission_refusal e db req
      else case List.find (\<lambda>b. b_IntentID b = ar_IntentID req) (binding_t db) of
          Some b \<Rightarrow> if bindingMatchesInput b req then OutcomeReplayed else OutcomeAllocationConflict
        | None \<Rightarrow>
            (case d_Refusal (scope_decision db (ar_ChainID req) (ar_Sender req) obs) of
               OutcomeNone \<Rightarrow> OutcomeAllocated
             | r \<Rightarrow> r))"

definition result_outcome :: "alloc_result \<Rightarrow> outcome" where
  "result_outcome res = (case ax_refuse res of None \<Rightarrow> OutcomeAllocated | Some r \<Rightarrow> e_Outcome r)"

definition untouched :: "nonce_db \<Rightarrow> nonce_db \<Rightarrow> bool" where
  "untouched db db' \<longleftrightarrow> binding_t db' = binding_t db \<and> event_t db' = event_t db"

lemma find_snoc:
  "List.find P (t @ [x]) = (case List.find P t of Some r \<Rightarrow> Some r | None \<Rightarrow> if P x then Some x else None)"
  by (induction t) auto

lemma ensureScopeRowTx_decision:
  assumes "ensureScopeRowTx e db chain sender = Inr db'"
  shows "scope_decision db' chain sender obs = scope_decision db chain sender obs"
proof (cases "db' = db")
  case False
  note shape = ensureScopeRowTx_Inr [OF assms]
  with False have "List.find (in_scope chain sender) (scope_t db) = None"
    by (simp add: find_None_set has_row_iff)
  with False shape show ?thesis
    by (simp add: scope_decision_def scope_classify_def scope_bindings_def find_snoc scopeLastPending_def
        scopeFloor_def in_scope_def)
qed simp

lemma ensureScopeRowTx_frame:
  assumes "ensureScopeRowTx e db chain sender = Inr db'"
  shows "binding_t db' = binding_t db \<and> event_t db' = event_t db \<and> hold_t db' = hold_t db \<and>
    registry_t db' = registry_t db \<and> authorization_t db' = authorization_t db"
  using ensureScopeRowTx_Inr [OF assms] by auto

lemma gate_of_lease [simp]: "gate_of (db\<lparr>lease_t := ls\<rparr>) chain = gate_of db chain"
  by (simp add: gate_of_def)

lemma readGateStateTx_Inr [rbind_rules]:
  "readGateStateTx e db chain = Inr g \<longleftrightarrow>
     fault e IndexerPauseExists = None \<and> fault e LogPauseExists = None \<and> fault e DepositPauseExists = None \<and>
     fault e ActiveRecovery = None \<and> g = gate_of db chain"
  by (auto simp: readGateStateTx_def rbind_rules)

lemma filter_Nil_has_row: "filter P hs = [] \<longleftrightarrow> \<not> has_row P hs"
  by (auto simp: has_row_iff filter_empty_conv)

lemma find_grant_None:
  "List.find (grant_valid e a c) t = None \<longleftrightarrow> \<not> has_row (grant_valid e a c) t"
  by (simp add: find_None_set has_row_iff)

text \<open>One run of the transaction body: it keeps the invariant, answers what the specification says, and
  touches bindings only to add the one it answers with.\<close>

lemma allocateInTx_refused_early:
  assumes run: "allocateInTx e db req obs = Inr (db', res)" and ref: "admission_refusal e db req \<noteq> OutcomeNone"
  shows "keeps db db' \<and> result_outcome res = admission_refusal e db req \<and> untouched db db' \<and>
    ax_binding res = None \<and> \<not> ax_persist res \<and> ax_refuse res \<noteq> None"
proof -
  from run obtain db1 where lock: "lockChain e db (ar_ChainID req) = Inr db1"
    by (auto simp: allocateInTx_def Let_def rbind_rules)
  then obtain ls where db1: "db1 = db\<lparr>lease_t := ls\<rparr>" using lockChain_Inr by blast
  have k1: "keeps db db1" using lock by (rule lockChain_keeps)
  let ?reg = "List.find (\<lambda>r. r_ChainID r = ar_ChainID req \<and> r_Sender r = ar_Sender req) (registry_t db)"
  consider "GateState_Any (gate_of db (ar_ChainID req))"
    | "\<not> GateState_Any (gate_of db (ar_ChainID req))" "AdmissionRefusal ?reg \<noteq> OutcomeNone"
    | "\<not> GateState_Any (gate_of db (ar_ChainID req))" "AdmissionRefusal ?reg = OutcomeNone" by blast
  then show ?thesis
  proof cases
    case 3
    with run lock obtain db2 holds where
      ens: "ensureScopeRowTx e db1 (ar_ChainID req) (ar_Sender req) = Inr db2" and
      holds: "holds = hold_order (filter (hold_active_in (ar_ChainID req) (ar_Sender req)) (hold_t db2))" and
      rest: "(case holds of
        h # _ \<Rightarrow> Inr (db2, refuse_plain OutcomeScopeHeld
                   (''active holds: '' @ join_comma (holdCauseList holds)) ((newAllocObservation req)\<lparr>ao_holdID := h_HoldID h\<rparr>))
      | [] \<Rightarrow>
        rbind (early (readAuthorizationForShareTx e db2 (ar_AuthorizationID req) (ar_ChainID req))) (\<lambda>auth.
        case auth of
          None \<Rightarrow> Inr (db2, refuse_plain OutcomeAuthorizationInvalid
                     ''authorization is missing, inactive, expired, or chain-mismatched'' (newAllocObservation req))
        | Some a \<Rightarrow> allocateCandidate e db2 req obs (the ?reg) a)) = Inr (db', res)"
      by (auto simp: allocateInTx_def Let_def rbind_rules readRegistryBySenderTx_def readActiveHoldsTx_def db1)
    note f = ensureScopeRowTx_frame [OF ens]
    have k2: "keeps db db2" using k1 ensureScopeRowTx_keeps [OF ens] keeps_trans by blast
    show ?thesis
    proof (cases "has_row (hold_active_in (ar_ChainID req) (ar_Sender req)) (hold_t db)")
      case True
      with f db1 have "holds \<noteq> []" by (simp add: holds filter_Nil_has_row)
      with rest 3 True k2 f db1 show ?thesis
        by (auto simp: refuse_plain_def Refuse_def result_outcome_def admission_refusal_def Let_def untouched_def neq_Nil_conv)
    next
      case False
      with ref 3 have "\<not> has_row (grant_valid e (ar_AuthorizationID req) (ar_ChainID req)) (authorization_t db)"
        by (auto simp: admission_refusal_def Let_def split: if_splits)
      moreover from False f db1 have "holds = []" by (simp add: holds filter_Nil_has_row)
      ultimately show ?thesis
        using rest 3 False k2 f db1
        by (auto simp: refuse_plain_def Refuse_def result_outcome_def admission_refusal_def Let_def untouched_def
            readAuthorizationForShareTx_def rbind_rules find_grant_None [THEN iffD2])
    qed
  qed (use run lock k1 db1 in \<open>auto simp: allocateInTx_def Let_def rbind_rules readRegistryBySenderTx_def
      refuse_plain_def Refuse_def result_outcome_def admission_refusal_def untouched_def\<close>)
qed

lemma allocateInTx_admitted:
  assumes run: "allocateInTx e db req obs = Inr (db', res)" and adm: "admission_refusal e db req = OutcomeNone"
  obtains db2 reg a where "keeps db db2" "untouched db db2" "has_row (in_scope (ar_ChainID req) (ar_Sender req)) (scope_t db2)"
    "scope_decision db2 (ar_ChainID req) (ar_Sender req) obs = scope_decision db (ar_ChainID req) (ar_Sender req) obs"
    "List.find (\<lambda>r. r_ChainID r = ar_ChainID req \<and> r_Sender r = ar_Sender req) (registry_t db) = Some reg"
    "List.find (grant_valid e (ar_AuthorizationID req) (ar_ChainID req)) (authorization_t db) = Some a"
    "allocateCandidate e db2 req obs reg a = Inr (db', res)"
proof -
  let ?reg = "List.find (\<lambda>r. r_ChainID r = ar_ChainID req \<and> r_Sender r = ar_Sender req) (registry_t db)"
  have adm': "\<not> GateState_Any (gate_of db (ar_ChainID req))" "AdmissionRefusal ?reg = OutcomeNone"
    "\<not> has_row (hold_active_in (ar_ChainID req) (ar_Sender req)) (hold_t db)"
    "has_row (grant_valid e (ar_AuthorizationID req) (ar_ChainID req)) (authorization_t db)"
    using adm by (auto simp: admission_refusal_def Let_def split: if_splits)
  from adm'(2) obtain reg where reg: "?reg = Some reg"
    by (auto simp: AdmissionRefusal_def split: option.splits)
  from adm'(4) obtain a where a: "List.find (grant_valid e (ar_AuthorizationID req) (ar_ChainID req)) (authorization_t db) = Some a"
    by (metis find_grant_None not_None_eq)
  from run obtain db1 where lock: "lockChain e db (ar_ChainID req) = Inr db1"
    by (auto simp: allocateInTx_def Let_def rbind_rules)
  then obtain ls where db1: "db1 = db\<lparr>lease_t := ls\<rparr>" using lockChain_Inr by blast
  from run lock adm'(1,2) obtain db2 where
    ens: "ensureScopeRowTx e db1 (ar_ChainID req) (ar_Sender req) = Inr db2"
    by (auto simp: allocateInTx_def Let_def rbind_rules readRegistryBySenderTx_def db1)
  note f = ensureScopeRowTx_frame [OF ens]
  have "hold_order (filter (hold_active_in (ar_ChainID req) (ar_Sender req)) (hold_t db2)) = []"
    using f adm'(3) by (simp add: db1 filter_Nil_has_row)
  then have "allocateCandidate e db2 req obs reg a = Inr (db', res)"
    using run lock ens adm'(1,2) reg a f
    by (auto simp: allocateInTx_def Let_def rbind_rules readRegistryBySenderTx_def readActiveHoldsTx_def db1
        readAuthorizationForShareTx_def simp del: hold_order_Nil)
  moreover have "keeps db db2"
    using lockChain_keeps [OF lock] ensureScopeRowTx_keeps [OF ens] keeps_trans by blast
  moreover have "scope_decision db2 (ar_ChainID req) (ar_Sender req) obs = scope_decision db (ar_ChainID req) (ar_Sender req) obs"
    using ensureScopeRowTx_decision [OF ens] by (simp add: db1 scope_decision_def scope_bindings_def)
  ultimately show thesis
    using that f reg a ensureScopeRowTx_Inr [OF ens] db1 by (simp add: untouched_def)
qed

lemma scope_decision_refusals:
  "d_Refusal (scope_decision db chain sender obs) \<in>
     {OutcomeNone, OutcomeScopeHeld, OutcomeChainViewUnavailable, OutcomeTemporarilyUnavailable}"
  by (simp only: scope_decision_def scope_classify_def Classify_refusals(3))

lemma admission_refusals:
  "admission_refusal e db req \<in> {OutcomeNone, OutcomeRecoveryActive, OutcomeSenderNotRegistered,
     OutcomeSenderDisabled, OutcomeScopeHeld, OutcomeAuthorizationInvalid}"
  by (auto simp: admission_refusal_def Let_def AdmissionRefusal_def split: option.splits)

lemma allocate_spec_answers: "allocate_spec e db req obs \<noteq> OutcomeNone"
  using scope_decision_refusals [of db "ar_ChainID req" "ar_Sender req" obs]
  by (auto simp: allocate_spec_def split: option.splits)

text \<open>The facts about a fresh binding that come from the registry and the grant.\<close>

definition vouched :: "env \<Rightarrow> nonce_db \<Rightarrow> allocation_request \<Rightarrow> binding \<Rightarrow> bool" where
  "vouched e db req b \<longleftrightarrow>
     (\<exists>reg \<in> set (registry_t db). r_ChainID reg = ar_ChainID req \<and> r_Sender reg = ar_Sender req \<and>
        r_State reg = RegistryActive \<and> b_RegistrySeq b = r_RegistrySeq reg) \<and>
     (\<exists>a \<in> set (authorization_t db). grant_valid e (ar_AuthorizationID req) (ar_ChainID req) a \<and>
        b_AuthorizationVersion b = authorizationVersionDigest a (ar_AuthorizationID req))"

lemma allocateInTx_spec:
  assumes run: "allocateInTx e db req obs = Inr (db', res)" and inv: "nonce_inv db"
  shows "keeps db db' \<and> result_outcome res = allocate_spec e db req obs \<and>
    (ax_refuse res = None \<longleftrightarrow> result_outcome res = OutcomeAllocated) \<and>
    (ax_persist res \<longrightarrow> ax_refuse res \<noteq> None \<longrightarrow>
       result_outcome res = d_Refusal (scope_decision db (ar_ChainID req) (ar_Sender req) obs)) \<and>
    (result_outcome res = OutcomeReplayed \<longrightarrow>
       ax_binding res = List.find (\<lambda>b. b_IntentID b = ar_IntentID req) (binding_t db)) \<and>
    (if result_outcome res = OutcomeAllocated
     then \<exists>b. ax_binding res = Some b \<and> bound_by e req obs db db' b \<and> vouched e db req b
     else untouched db db')"
proof (cases "admission_refusal e db req = OutcomeNone")
  case False
  with allocateInTx_refused_early [OF run False] admission_refusals [of e db req] show ?thesis
    by (auto simp: allocate_spec_def)
next
  case True
  from run True obtain db2 reg a where
    db2: "keeps db db2" "untouched db db2" "has_row (in_scope (ar_ChainID req) (ar_Sender req)) (scope_t db2)"
    and dec: "scope_decision db2 (ar_ChainID req) (ar_Sender req) obs = scope_decision db (ar_ChainID req) (ar_Sender req) obs"
    and reg: "List.find (\<lambda>r. r_ChainID r = ar_ChainID req \<and> r_Sender r = ar_Sender req) (registry_t db) = Some reg"
    and a: "List.find (grant_valid e (ar_AuthorizationID req) (ar_ChainID req)) (authorization_t db) = Some a"
    and cand: "allocateCandidate e db2 req obs reg a = Inr (db', res)"
    by (rule allocateInTx_admitted)
  note c = allocateCandidate_Inr [OF cand keeps_inv [OF db2(1) inv] db2(3)]
  have k: "keeps db db'" using c db2(1) keeps_trans by blast
  have same: "binding_t db2 = binding_t db" "event_t db2 = event_t db" using db2(2) by (auto simp: untouched_def)
  have active: "r_State reg = RegistryActive"
    using True reg by (auto simp: admission_refusal_def AdmissionRefusal_def Let_def split: if_splits)
  have v: "vouched e db req b" if "b_RegistrySeq b = r_RegistrySeq reg"
    "b_AuthorizationVersion b = authorizationVersionDigest a (ar_AuthorizationID req)" for b
    using that active find_Some_set [OF reg] find_Some_set [OF a] unfolding vouched_def by blast
  show ?thesis
  proof (cases "List.find (\<lambda>b. b_IntentID b = ar_IntentID req) (binding_t db)")
    case (Some b)
    with c k same True db2(2) show ?thesis
      by (cases "bindingMatchesInput b req") (auto simp: allocate_spec_def result_outcome_def)
  next
    case None
    show ?thesis
    proof (cases "ax_refuse res")
      case nr: None
      with c None same obtain b where "ax_binding res = Some b" "bound_by e req obs db2 db' b" "vouched e db req b"
        "d_Refusal (scope_decision db (ar_ChainID req) (ar_Sender req) obs) = OutcomeNone"
        using v by (auto simp: dec)
      moreover have "bound_by e req obs db db' b = bound_by e req obs db2 db' b" for b
        by (simp add: bound_by_def same dec)
      ultimately show ?thesis
        using None nr k True by (simp add: allocate_spec_def result_outcome_def)
    next
      case (Some r)
      with c None same True k scope_decision_refusals [of db "ar_ChainID req" "ar_Sender req" obs] show ?thesis
        by (auto simp: allocate_spec_def result_outcome_def untouched_def dec)
    qed
  qed
qed

lemma allocateInTx_bindings:
  assumes "allocateInTx e db req obs = Inr (db', res)" "nonce_inv db"
  shows "binding_t db' = binding_t db \<or> allocate_spec e db req obs = OutcomeAllocated \<and> (\<exists>b. bound_by e req obs db db' b)"
  using allocateInTx_spec [OF assms] by (auto simp: untouched_def split: if_splits)

section \<open>The entry point\<close>

definition gate_open :: "rebuild_gate option \<Rightarrow> bool" where
  "gate_open gate \<longleftrightarrow> (case gate of None \<Rightarrow> True | Some g \<Rightarrow> RebuildGate_IsOpen g)"

text \<open>The four ways an attempt can end.\<close>

lemma Allocate_reply:
  assumes run: "Allocate gate e db req obs e2 db2 = (db', rep, calls)"
  obtains (unstarted) "db' = db" "rp_binding rep = None" "rp_error rep \<noteq> None"
      "rp_outcome rep \<in> {OutcomeNone, OutcomeRebuildIncomplete, OutcomeTemporarilyUnavailable}"
      "AllocationRequest_Validate req = Inr () \<longrightarrow> gate_open gate \<longrightarrow>
         fault e BeginTx \<noteq> None \<or> (\<exists>f. allocateInTx e db req obs = Inl f)"
  | (raced) err tried where "allocateInTx e db req obs = Inl (err, tried)" "bindingCarrierConstraint err"
      "db' = db" "rep = convergeAfterRace e2 db2 req (attemptedNonce tried)"
  | (abandoned) dbt res r where "AllocationRequest_Validate req = Inr ()" "gate_open gate"
      "allocateInTx e db req obs = Inr (dbt, res)" "ax_refuse res = Some r" "db' = db"
      "e_Outcome r = OutcomeReplayed \<or> \<not> ax_persist res" "rp_outcome rep = e_Outcome r"
      "rp_binding rep = (if e_Outcome r = OutcomeReplayed then ax_binding res else None)"
      "rp_error rep = (if e_Outcome r = OutcomeReplayed then None else Some (Refused (r, None)))"
  | (ended) dbt res where "AllocationRequest_Validate req = Inr ()" "gate_open gate"
      "allocateInTx e db req obs = Inr (dbt, res)" "db' = committed e db dbt"
      "ax_refuse res = None \<or> ax_persist res \<and> result_outcome res \<noteq> OutcomeReplayed"
      "if fault e CommitTx = None
       then rp_outcome rep = result_outcome res \<and>
         rp_binding rep = (if ax_refuse res = None then ax_binding res else None) \<and>
         rp_error rep = map_option (\<lambda>r. Refused (r, None)) (ax_refuse res)
       else rp_outcome rep = OutcomeTemporarilyUnavailable \<and> rp_binding rep = None \<and> rp_error rep \<noteq> None"
proof (cases "AllocationRequest_Validate req")
  case (Inl err)
  with run show thesis by (intro unstarted) (auto simp: Allocate_def Let_def)
next
  case (Inr u)
  show thesis
  proof (cases "gate_open gate")
    case False
    with run Inr show thesis
      by (intro unstarted) (auto simp: Allocate_def Let_def gate_open_def split: option.splits)
  next
    case True
    then have g: "\<not> (case gate of None \<Rightarrow> False | Some g \<Rightarrow> \<not> RebuildGate_IsOpen g)"
      by (auto simp: gate_open_def split: option.splits)
    show thesis
    proof (cases "fault e BeginTx")
      case (Some p)
      with run Inr g show thesis by (intro unstarted) (auto simp: Allocate_def Let_def)
    next
      case nb: None
      show thesis
      proof (cases "allocateInTx e db req obs")
        case (Inl f)
        obtain err tried where "f = (err, tried)" by (cases f)
        with run Inr g nb Inl show thesis
          by (cases "bindingCarrierConstraint err")
            (auto simp: Allocate_def Let_def intro: unstarted raced)
      next
        case ir: (Inr x)
        obtain dbt res where x: "x = (dbt, res)" by (cases x)
        show thesis
        proof (cases "ax_refuse res")
          case None
          with run Inr g nb ir x True show thesis
            by (intro ended [of dbt res])
              (auto simp: Allocate_def Let_def committed_def result_outcome_def split: option.splits)
        next
          case (Some r)
          show thesis
          proof (cases "e_Outcome r = OutcomeReplayed \<or> \<not> ax_persist res")
            case True
            with run Inr g nb ir x Some \<open>gate_open gate\<close> show thesis
              by (intro abandoned [of dbt res r]) (auto simp: Allocate_def Let_def split: if_splits)
          next
            case False
            with run Inr g nb ir x Some \<open>gate_open gate\<close> show thesis
              by (intro ended [of dbt res])
                (auto simp: Allocate_def Let_def committed_def result_outcome_def split: option.splits)
          qed
        qed
      qed
    qed
  qed
qed

section \<open>Admission succeeds in a healthy environment\<close>

text \<open>No statement fails and the minted identifiers are new; a sample is well formed.\<close>

definition fresh_mint :: "env \<Rightarrow> mint \<Rightarrow> string \<Rightarrow> string list \<Rightarrow> bool" where
  "fresh_mint e m pre taken =
     (case rand_bytes e m of None \<Rightarrow> False | Some bs \<Rightarrow> pre @ hex_encode bs \<notin> set taken)"

definition healthy :: "env \<Rightarrow> nonce_db \<Rightarrow> bool" where
  "healthy e db \<longleftrightarrow>
     (\<forall>s. fault e s = None) \<and>
     fresh_mint e MintObservation ''no-'' (map o_ObservationID (observation_t db)) \<and>
     fresh_mint e MintHold ''nh-'' (map h_HoldID (hold_t db)) \<and>
     fresh_mint e MintBinding ''nb-'' (map b_BindingID (binding_t db))"

definition sampled :: "int \<Rightarrow> string \<Rightarrow> observation \<Rightarrow> bool" where
  "sampled chain sender obs \<longleftrightarrow>
     o_ObservationID obs = [] \<and> o_ChainID obs = chain \<and> o_Sender obs = sender \<and>
     (o_Kind obs = ObservationKindAllocation \<or> o_Kind obs = ObservationKindReconcile) \<and>
     opt_in_range (o_LatestCount obs) \<and> opt_in_range (o_PendingCount obs) \<and> opt_in_range (o_HeadNumber obs) \<and>
     (o_HeadHash obs = [] \<or> matches_lower_hex 64 (o_HeadHash obs))"

lemma fresh_mintE:
  assumes "fresh_mint e m pre (map key t)"
  obtains bs where "rand_bytes e m = Some bs" "\<not> has_row (\<lambda>r. key r = pre @ hex_encode bs) t"
proof (cases "rand_bytes e m")
  case (Some bs)
  with assms have "\<not> has_row (\<lambda>r. key r = pre @ hex_encode bs) t"
    by (force simp: fresh_mint_def has_row_iff)
  with Some that show thesis by blast
qed (use assms in \<open>simp add: fresh_mint_def\<close>)

lemma healthy_fault: "healthy e db \<Longrightarrow> fault e s = None"
  by (simp add: healthy_def)

lemma lockChain_total:
  assumes "\<And>s. fault e s = None"
  obtains ls where "lockChain e db chain = Inr (db\<lparr>lease_t := ls\<rparr>)"
proof (cases "has_row (\<lambda>l. l_ChainID l = chain) (lease_t db)")
  case True
  then show thesis using assms that [of "lease_t db"] by (simp add: lockChain_def Let_def)
next
  case False
  then show thesis using assms that by (simp add: lockChain_def Let_def has_row_iff)
qed

lemma validate_counts_ok: "list_all (\<lambda>(f, n). opt_in_range n) cs \<Longrightarrow> validate_counts cs = Inr ()"
  by (induction cs) (auto simp: opt_in_range_def ValidateNonceRange_ok split: option.splits)

lemma sampled_validates:
  assumes "sampled chain sender obs" "chain > 0" "sender_ok sender" "persistable c"
  shows "validateObservation (obs\<lparr>o_Classification := c\<rparr>) = Inr ()"
  using assms by (auto simp: sampled_def validateObservation_def validate_counts_ok simp del: validate_counts.simps)

lemma Classify_persistable: "persistable (d_Classification (Classify i))"
  by (auto simp: Classify_def Let_def persistable_def split: bool.splits option.splits sum.splits if_splits)

lemma insertObservationTx_total:
  assumes "healthy e db" "sampled chain sender obs" "chain > 0" "sender_ok sender" "persistable c"
  shows "\<exists>i. insertObservationTx e db (obs\<lparr>o_Classification := c\<rparr>) =
    Inr (db\<lparr>observation_t := observation_t db @ [obs\<lparr>o_Classification := c, o_ObservationID := i\<rparr>]\<rparr>, i) \<and> i \<noteq> []"
proof -
  have "o_ObservationID obs = []" using assms(2) by (simp add: sampled_def)
  moreover obtain bs where "rand_bytes e MintObservation = Some bs"
    "\<not> has_row (\<lambda>r. o_ObservationID r = ''no-'' @ hex_encode bs) (observation_t db)"
    using assms(1) unfolding healthy_def by (blast elim: fresh_mintE)
  ultimately show ?thesis
    using assms sampled_validates [OF assms(2-5)]
    by (simp add: insertObservationTx_def mintObservationID_def healthy_fault)
qed

lemma scope_count_1:
  assumes "nonce_inv db" "has_row (in_scope chain sender) (scope_t db)"
  shows "count_where (in_scope chain sender) (scope_t db) = 1"
proof -
  have "distinct (map scope_key (scope_t db))" using assms(1) by (simp add: nonce_inv_def scope_inv_def)
  then have "count_where (in_scope chain sender) (scope_t db) \<le> 1"
    by (rule count_where_unique) (simp add: in_scope_key)
  with assms(2) show ?thesis
    by (metis One_nat_def Suc_leI count_where_pos le_antisym)
qed

lemma updateScopeFrontierTx_total:
  assumes "\<And>s. fault e s = None" "nonce_inv db" "has_row (in_scope chain sender) (scope_t db)" "i \<noteq> []"
    "nonce_col_ok l" "nonce_col_ok p"
  shows "\<exists>db'. updateScopeFrontierTx e db chain sender l p i = Inr db'"
  using assms scope_count_1 [OF assms(2,3)]
  by (auto simp: updateScopeFrontierTx_def nonce_col_ok_def ValidateNonceRange_ok split: option.splits)

lemma establishHoldTx_total:
  assumes "\<And>s. fault e s = None" "fresh_mint e MintHold ''nh-'' (map h_HoldID (hold_t db))"
    "holdCauses (he_Cause est)" "he_ObservationID est \<noteq> []" "he_ChainID est > 0" "sender_ok (he_Sender est)"
    "registered db (he_ChainID est) (he_Sender est)"
  shows "\<exists>x. establishHoldTx e db est = Inr x"
proof -
  obtain bs where bs: "rand_bytes e MintHold = Some bs"
    "\<not> has_row (\<lambda>h. h_HoldID h = ''nh-'' @ hex_encode bs) (hold_t db)"
    using assms(2) by (rule fresh_mintE)
  show ?thesis
  proof (cases "readActiveHoldByCauseTx e db (he_ChainID est) (he_Sender est) (he_Cause est)")
    case (Inl err)
    then show ?thesis using assms(1) by (simp add: readActiveHoldByCauseTx_def)
  next
    case (Inr found)
    then show ?thesis
      using assms bs
      by (cases found) (simp_all add: establishHoldTx_def newHoldID_def hold_insert_error_def Let_def)
  qed
qed

lemma insertBindingEventTx_total:
  assumes "\<And>s. fault e s = None" "event_row_ok ev" "ev_FromState ev \<noteq> Some (StateOther [])"
  shows "\<exists>db' created. insertBindingEventTx e db ev = Inr (db', created)"
  using assms by (auto simp: insertBindingEventTx_def Let_def event_row_ok_def split: option.splits)

lemma Classify_hold_cause: "d_HoldCause (Classify i) \<noteq> NoCause \<Longrightarrow> holdCauses (d_HoldCause (Classify i))"
  by (auto simp: Classify_def Let_def holdCauses_def split: bool.splits option.splits sum.splits if_splits)

lemma Classify_candidate_range:
  assumes "d_Candidate (Classify i) = Some c" "opt_in_range (ci_Pending i)" "opt_in_range (ci_ReconciledFloor i)"
  shows "in_nonce_range c"
  using assms
  by (elim Classify_candidate)
    (auto simp: opt_in_range_def max_def dest: classifyFrontierBase_range split: option.splits if_splits)

lemma trusted_counts: "sampled chain sender obs \<Longrightarrow> trusted_view obs c \<Longrightarrow>
    nonce_col_ok (o_LatestCount obs) \<and> nonce_col_ok (o_PendingCount obs)"
  by (auto simp: sampled_def trusted_view_def opt_in_range_def nonce_col_ok_def)

lemma bad_byte_at_None: "bad_byte_at lo i s = None \<longleftrightarrow> list_all (\<lambda>c. lo \<le> byte c \<and> byte c \<le> 126) s"
  by (induction s arbitrary: i) auto

lemma AllocationRequest_valid:
  assumes "AllocationRequest_Validate req = Inr u"
  shows "ar_ChainID req > 0" "sender_ok (ar_Sender req)" "intent_shape (ar_IntentID req)"
  using assms
  by (auto simp: AllocationRequest_Validate_def validateOpaqueID_def intent_shape_def bad_byte_at_None rbind_rules
      Suc_le_eq split: if_splits option.splits)

lemma binding_insert_total:
  assumes "AllocationRequest_Validate req = Inr u" "in_nonce_range c" "r_RegistrySeq reg > 0"
    and "\<not> has_row (\<lambda>r. b_BindingID r = i) (binding_t db)"
    and "\<not> has_row (\<lambda>r. b_IntentID r = ar_IntentID req) (binding_t db)"
    and "\<And>b. b \<in> set (binding_t db) \<Longrightarrow> b_ChainID b = ar_ChainID req \<Longrightarrow> b_Sender b = ar_Sender req \<Longrightarrow>
      the (b_Nonce b) < c"
    and "registered db (ar_ChainID req) (ar_Sender req)"
  shows "binding_insert_error db (inserted_binding e (new_binding req reg auth i oid (Some c))) = None"
proof -
  let ?b = "inserted_binding e (new_binding req reg auth i oid (Some c))"
  have "binding_row_ok ?b"
    using assms(2,3) AllocationRequest_valid [OF assms(1)]
    by (auto simp: binding_row_ok_iff inserted_binding_def new_binding_def known_state_def TerminalConsistent_def
        nonce_col_ok_def authorizationVersionDigest_def)
  moreover have "\<not> has_row (\<lambda>r. b_ChainID r = ar_ChainID req \<and> b_Sender r = ar_Sender req \<and> b_Nonce r = Some c)
      (binding_t db)"
    using assms(6) by (fastforce simp: has_row_iff)
  ultimately show ?thesis
    using assms(4,5,7)
    by (simp add: binding_insert_error_def binding_row_ok_def) (simp add: inserted_binding_def new_binding_def)
qed

lemma allocateCommit_total:
  assumes nf: "\<And>s. fault e s = None" and inv: "nonce_inv db" and valid: "AllocationRequest_Validate req = Inr u"
    and mints: "fresh_mint e MintHold ''nh-'' (map h_HoldID (hold_t db))"
      "fresh_mint e MintBinding ''nb-'' (map b_BindingID (binding_t db))"
    and dec: "dec = Classify i" and oid: "oid \<noteq> []" and seq: "r_RegistrySeq reg > 0"
    and reg: "registered db (ar_ChainID req) (ar_Sender req)"
    and intent: "\<not> has_row (\<lambda>r. b_IntentID r = ar_IntentID req) (binding_t db)"
    and cand: "\<And>c. d_Candidate dec = Some c \<Longrightarrow> in_nonce_range c"
    and above: "\<And>c b. d_Candidate dec = Some c \<Longrightarrow> b \<in> set (binding_t db) \<Longrightarrow> b_ChainID b = ar_ChainID req \<Longrightarrow>
      b_Sender b = ar_Sender req \<Longrightarrow> the (b_Nonce b) < c"
  shows "\<exists>x. allocateCommit e db req reg auth dec oid = Inr x"
proof (cases "d_Candidate dec")
  case None
  show ?thesis
  proof (cases "d_HoldCause dec = NoCause")
    case True
    with None show ?thesis by (simp add: allocateCommit_def Let_def)
  next
    case False
    let ?est = "\<lparr>he_ChainID = ar_ChainID req, he_Sender = ar_Sender req, he_Cause = d_HoldCause dec,
      he_ObservationID = oid, he_Detail = class_str (d_Classification dec)\<rparr>"
    have "\<exists>x. establishHoldTx e db ?est = Inr x"
      using nf mints(1) False Classify_hold_cause [of i] dec oid reg AllocationRequest_valid [OF valid]
      by (intro establishHoldTx_total) auto
    with None False show ?thesis by (auto simp: allocateCommit_def Let_def)
  qed
next
  case (Some c)
  obtain bs where bs: "rand_bytes e MintBinding = Some bs"
    "\<not> has_row (\<lambda>r. b_BindingID r = ''nb-'' @ hex_encode bs) (binding_t db)"
    using mints(2) by (rule fresh_mintE)
  define j where "j = ''nb-'' @ hex_encode bs"
  define b where "b = new_binding req reg auth j oid (Some c)"
  have mint: "newBindingID e = Inr j" using bs by (simp add: newBindingID_def j_def)
  have "binding_insert_error db (inserted_binding e b) = None"
    unfolding b_def using bs(2) cand [OF Some] above [OF Some] seq intent reg
    by (intro binding_insert_total [OF valid]) (auto simp: j_def)
  then have ins: "insertBindingTx e db b = Inr (db\<lparr>binding_t := binding_t db @ [inserted_binding e b]\<rparr>)"
    by (simp add: insertBindingTx_def nf)
  define ev where "ev = \<lparr>ev_BindingID = j, ev_FromState = None, ev_ToState = StateAllocated,
    ev_ObservationID = oid, ev_OperationID = [], ev_Detail = ''admission''\<rparr>"
  have "\<not> has_row (\<lambda>r. event_key r = event_key ev) (event_t db)"
    using inv bs(2) unfolding nonce_inv_def event_inv_def
    by (auto simp: has_row_iff event_key_def ev_def j_def)
  moreover have ok: "event_row_ok ev" "ev_FromState ev \<noteq> Some (StateOther [])"
    by (simp_all add: ev_def event_row_ok_def known_state_def)
  moreover obtain db2 created where
    evt: "insertBindingEventTx e (db\<lparr>binding_t := binding_t db @ [inserted_binding e b]\<rparr>) ev = Inr (db2, created)"
    using insertBindingEventTx_total [OF nf ok] by blast
  ultimately have "created" using insertBindingEventTx_Inr [OF evt] by simp
  show ?thesis
    using Some mint ins evt \<open>created\<close> by (simp add: allocateCommit_def Let_def b_def ev_def attempted_def)
qed

lemma nonce_inv_scope_row: "nonce_inv db \<Longrightarrow> s \<in> set (scope_t db) \<Longrightarrow> scope_row_ok s"
  by (simp add: nonce_inv_def scope_inv_def)

lemma nonce_inv_registry_row: "nonce_inv db \<Longrightarrow> r \<in> set (registry_t db) \<Longrightarrow> registry_row_ok r"
  by (simp add: nonce_inv_def registry_inv_def)

lemma scopeFloor_range:
  assumes "nonce_inv db"
  shows "opt_in_range (scopeFloor (List.find (in_scope chain sender) (scope_t db)))"
proof (cases "List.find (in_scope chain sender) (scope_t db)")
  case (Some s)
  have "scope_row_ok s" by (rule nonce_inv_scope_row [OF assms]) (simp add: find_Some_set [OF Some])
  with Some show ?thesis by (simp add: scopeFloor_def scope_row_ok_def)
qed (simp add: scopeFloor_def opt_in_range_def)

lemma scope_classify_range:
  assumes "nonce_inv db" "sampled chain sender obs"
    and "d_Candidate (scope_classify obs (List.find (in_scope chain sender) (scope_t db)) bs) = Some c"
  shows "in_nonce_range c"
  using assms(2) scopeFloor_range [OF assms(1)]
  by (intro Classify_candidate_range [OF assms(3) [unfolded scope_classify_def]]) (simp_all add: sampled_def)

lemma allocateCandidate_total:
  assumes h: "healthy e db" and inv: "nonce_inv db" and valid: "AllocationRequest_Validate req = Inr u"
    and scope: "has_row (in_scope (ar_ChainID req) (ar_Sender req)) (scope_t db)"
    and smp: "sampled (ar_ChainID req) (ar_Sender req) obs" and seq: "r_RegistrySeq reg > 0"
    and reg: "registered db (ar_ChainID req) (ar_Sender req)"
  shows "\<exists>x. allocateCandidate e db req obs reg auth = Inr x"
proof (cases "List.find (\<lambda>b. b_IntentID b = ar_IntentID req) (binding_t db)")
  case (Some b)
  then show ?thesis
    by (simp add: allocateCandidate_def Let_def read_rules [OF inv] healthy_fault [OF h])
next
  case None
  let ?sc = "List.find (in_scope (ar_ChainID req) (ar_Sender req)) (scope_t db)"
  define dec where "dec = scope_classify obs ?sc (scope_bindings db (ar_ChainID req) (ar_Sender req))"
  have nf: "fault e s = None" for s using h by (rule healthy_fault)
  obtain oid where ins: "insertObservationTx e db (obs\<lparr>o_Classification := d_Classification dec\<rparr>) =
      Inr (db\<lparr>observation_t := observation_t db @
        [obs\<lparr>o_Classification := d_Classification dec, o_ObservationID := oid\<rparr>]\<rparr>, oid)" "oid \<noteq> []"
    using insertObservationTx_total [OF h smp AllocationRequest_valid(1,2) [OF valid]]
      Classify_persistable unfolding dec_def scope_classify_def by blast
  define db1 where "db1 = db\<lparr>observation_t := observation_t db @
        [obs\<lparr>o_Classification := d_Classification dec, o_ObservationID := oid\<rparr>]\<rparr>"
  have i1: "nonce_inv db1"
    using insertObservationTx_keeps [OF ins(1)] inv by (auto simp: db1_def intro: keeps_inv)
  have "\<exists>db2. (if trusted_view obs (d_Classification dec)
      then updateScopeFrontierTx e db1 (ar_ChainID req) (ar_Sender req) (o_LatestCount obs) (o_PendingCount obs) oid
      else Inr db1) = Inr db2"
    using updateScopeFrontierTx_total [OF nf i1 _ ins(2)] trusted_counts [OF smp] scope by (auto simp: db1_def)
  then obtain db2 where upd: "(if trusted_view obs (d_Classification dec)
      then updateScopeFrontierTx e db1 (ar_ChainID req) (ar_Sender req) (o_LatestCount obs) (o_PendingCount obs) oid
      else Inr db1) = Inr db2" by blast
  then have e2: "keeps db1 db2" "binding_t db2 = binding_t db" "hold_t db2 = hold_t db" "registry_t db2 = registry_t db"
    by (auto split: if_splits simp: db1_def dest: updateScopeFrontierTx_Inr updateScopeFrontierTx_keeps)
  have "\<exists>x. allocateCommit e db2 req reg auth dec oid = Inr x"
  proof (rule allocateCommit_total [OF nf keeps_inv [OF e2(1) i1] valid _ _ _ ins(2) seq])
    show "dec = Classify \<lparr>ci_ReadFailed = (o_Classification obs = ClassificationUnavailable),
       ci_Latest = o_LatestCount obs, ci_Pending = o_PendingCount obs,
       ci_PendingPrev = scopeLastPending ?sc,
       ci_MaxBindingNonce = MaxBoundNonce (scope_bindings db (ar_ChainID req) (ar_Sender req)),
       ci_HasBindings = (scope_bindings db (ar_ChainID req) (ar_Sender req) \<noteq> []),
       ci_ReconciledFloor = scopeFloor ?sc\<rparr>" by (simp add: dec_def scope_classify_def)
    show "registered db2 (ar_ChainID req) (ar_Sender req)" using reg e2 by (simp add: registered_def)
    show "\<not> has_row (\<lambda>r. b_IntentID r = ar_IntentID req) (binding_t db2)"
      using None e2 by (simp add: find_None_set has_row_iff)
    show "in_nonce_range c" if "d_Candidate dec = Some c" for c
      using scope_classify_range [OF inv smp] that by (simp add: dec_def)
    show "the (b_Nonce b) < c" if "d_Candidate dec = Some c" "b \<in> set (binding_t db2)"
      "b_ChainID b = ar_ChainID req" "b_Sender b = ar_Sender req" for b c
      using scope_classify_above [OF inv] that e2 by (simp add: dec_def)
  qed (use h e2 in \<open>auto simp: healthy_def\<close>)
  with None ins upd show ?thesis
    by (auto simp: allocateCandidate_def Let_def read_rules [OF inv] nf dec_def db1_def)
qed

lemma ensureScopeRowTx_total:
  assumes "\<And>s. fault e s = None" "chain > 0" "sender_ok sender" "registered db chain sender"
  shows "\<exists>db'. ensureScopeRowTx e db chain sender = Inr db'"
  using assms by (cases "has_row (in_scope chain sender) (scope_t db)") (simp_all add: ensureScopeRowTx_def)

lemma allocateInTx_total:
  assumes h: "healthy e db" and inv: "nonce_inv db" and valid: "AllocationRequest_Validate req = Inr u"
    and smp: "sampled (ar_ChainID req) (ar_Sender req) obs"
  shows "\<exists>x. allocateInTx e db req obs = Inr x"
proof -
  have nf: "fault e s = None" for s using h by (rule healthy_fault)
  obtain ls where lock: "lockChain e db (ar_ChainID req) = Inr (db\<lparr>lease_t := ls\<rparr>)"
    using nf by (rule lockChain_total)
  define db1 where "db1 = db\<lparr>lease_t := ls\<rparr>"
  let ?reg = "List.find (\<lambda>r. r_ChainID r = ar_ChainID req \<and> r_Sender r = ar_Sender req) (registry_t db)"
  have gates: "readGateStateTx e db1 (ar_ChainID req) = Inr (gate_of db (ar_ChainID req))"
    by (simp add: rbind_rules nf db1_def)
  have regs: "readRegistryBySenderTx e db1 (ar_ChainID req) (ar_Sender req) = Inr ?reg"
    by (simp add: readRegistryBySenderTx_def nf db1_def)
  show ?thesis
  proof (cases "GateState_Any (gate_of db (ar_ChainID req)) \<or> AdmissionRefusal ?reg \<noteq> OutcomeNone")
    case True
    with lock gates regs show ?thesis by (auto simp: allocateInTx_def Let_def db1_def)
  next
    case False
    then obtain reg where reg: "?reg = Some reg" by (auto simp: AdmissionRefusal_def split: option.splits)
    then have row: "reg \<in> set (registry_t db)" "r_ChainID reg = ar_ChainID req" "r_Sender reg = ar_Sender req"
      using find_Some_set [OF reg] by auto
    then have rd: "registered db1 (ar_ChainID req) (ar_Sender req)"
      by (auto simp: registered_def has_row_iff db1_def)
    have i1: "nonce_inv db1" using inv lockChain_inv [OF lock] by (simp add: db1_def)
    obtain db2 where ens: "ensureScopeRowTx e db1 (ar_ChainID req) (ar_Sender req) = Inr db2"
      using ensureScopeRowTx_total [OF nf AllocationRequest_valid(1,2) [OF valid] rd] by blast
    note f = ensureScopeRowTx_frame [OF ens] and s2 = ensureScopeRowTx_Inr [OF ens]
    have i2: "nonce_inv db2" using ensureScopeRowTx_keeps [OF ens] i1 by (rule keeps_inv)
    have "healthy e db2" using h f s2 by (auto simp: healthy_def db1_def)
    moreover have "registered db2 (ar_ChainID req) (ar_Sender req)" using rd f by (simp add: registered_def)
    moreover have "r_RegistrySeq reg > 0"
      using nonce_inv_registry_row [OF inv row(1)] by (simp add: registry_row_ok_def)
    ultimately have cand: "\<exists>x. allocateCandidate e db2 req obs reg a = Inr x" for a
      using allocateCandidate_total [OF _ i2 valid _ smp] s2 by blast
    have "lockScopeRowTx e db2 (ar_ChainID req) (ar_Sender req) = Inr ()"
      using s2 nf by (simp add: lockScopeRowTx_def)
    with lock gates regs False ens reg cand nf show ?thesis
      by (auto simp: allocateInTx_def Let_def db1_def readActiveHoldsTx_def readAuthorizationForShareTx_def
          split: list.splits option.splits)
  qed
qed

section \<open>Properties of the entry point\<close>

lemma resolveAdmissionRace_Inr:
  assumes "resolveAdmissionRace e db req n = Inr (b, r)"
  shows "case r of
      None \<Rightarrow> \<exists>w. readBindingByIntentTx e db (ar_IntentID req) = Inr (Some w) \<and> bindingMatchesInput w req \<and> b = Some w
    | Some x \<Rightarrow> b = None \<and> e_Outcome x \<in> {OutcomeAllocationConflict, OutcomeTemporarilyUnavailable}"
proof -
  from assms obtain winner where w: "readBindingByIntentTx e db (ar_IntentID req) = Inr winner"
    by (auto simp: resolveAdmissionRace_def rbind_eq_Inr)
  show ?thesis
  proof (cases winner)
    case (Some x)
    with assms w show ?thesis
      by (cases "bindingMatchesInput x req") (auto simp: resolveAdmissionRace_def Refuse_def)
  next
    case None
    with assms w show ?thesis
      by (cases n; cases "readBindingByScopeNonceTx e db (ar_ChainID req) (ar_Sender req) n")
        (auto simp: resolveAdmissionRace_def Refuse_def split: if_splits)
  qed
qed

lemma convergeAfterRace_reply:
  shows "rp_outcome (convergeAfterRace e db req n) \<in>
      {OutcomeReplayed, OutcomeAllocationConflict, OutcomeTemporarilyUnavailable}"
    and "case rp_binding (convergeAfterRace e db req n) of
      None \<Rightarrow> rp_error (convergeAfterRace e db req n) \<noteq> None \<and> rp_outcome (convergeAfterRace e db req n) \<noteq> OutcomeReplayed
    | Some w \<Rightarrow> rp_outcome (convergeAfterRace e db req n) = OutcomeReplayed \<and>
        rp_error (convergeAfterRace e db req n) = None \<and>
        readBindingByIntentTx e db (ar_IntentID req) = Inr (Some w) \<and> bindingMatchesInput w req"
proof -
  let ?r = "convergeAfterRace e db req n"
  have "rp_outcome ?r \<in> {OutcomeReplayed, OutcomeAllocationConflict, OutcomeTemporarilyUnavailable} \<and>
    (case rp_binding ?r of None \<Rightarrow> rp_error ?r \<noteq> None \<and> rp_outcome ?r \<noteq> OutcomeReplayed
     | Some w \<Rightarrow> rp_outcome ?r = OutcomeReplayed \<and> rp_error ?r = None \<and>
        readBindingByIntentTx e db (ar_IntentID req) = Inr (Some w) \<and> bindingMatchesInput w req)"
  proof (cases "fault e BeginTx")
    case (Some p)
    then show ?thesis by (simp add: convergeAfterRace_def)
  next
    case None
    show ?thesis
    proof (cases "resolveAdmissionRace e db req n")
      case (Inl err)
      with None show ?thesis by (simp add: convergeAfterRace_def)
    next
      case (Inr x)
      obtain b r where x: "x = (b, r)" by (cases x)
      with None Inr resolveAdmissionRace_Inr [of e db req n b r] show ?thesis
        by (cases r) (auto simp: convergeAfterRace_def)
    qed
  qed
  then show "rp_outcome ?r \<in> {OutcomeReplayed, OutcomeAllocationConflict, OutcomeTemporarilyUnavailable}"
    "case rp_binding ?r of None \<Rightarrow> rp_error ?r \<noteq> None \<and> rp_outcome ?r \<noteq> OutcomeReplayed
     | Some w \<Rightarrow> rp_outcome ?r = OutcomeReplayed \<and> rp_error ?r = None \<and>
        readBindingByIntentTx e db (ar_IntentID req) = Inr (Some w) \<and> bindingMatchesInput w req"
    by simp_all
qed

text \<open>What every attempt leaves behind, whatever fails.\<close>

lemma Allocate_effect:
  assumes run: "Allocate gate e db req obs e2 db2 = (db', rep, calls)" and inv: "nonce_inv db"
  shows "keeps db db' \<and>
    (rp_outcome rep = OutcomeAllocated \<longrightarrow>
       AllocationRequest_Validate req = Inr () \<and> gate_open gate \<and> allocate_spec e db req obs = OutcomeAllocated \<and>
       rp_error rep = None \<and> (\<exists>b. rp_binding rep = Some b \<and> bound_by e req obs db db' b \<and> vouched e db req b)) \<and>
    (allocate_spec e db req obs \<noteq> OutcomeAllocated \<longrightarrow> untouched db db') \<and>
    (rp_outcome rep \<noteq> OutcomeAllocated \<longrightarrow> fault e CommitTx = None \<longrightarrow> untouched db db')"
  using run
proof (cases rule: Allocate_reply)
  case unstarted
  then show ?thesis by (auto simp: untouched_def)
next
  case (raced err tried)
  then show ?thesis
    using convergeAfterRace_reply(1) [of e2 db2 req "attemptedNonce tried"] by (auto simp: untouched_def)
next
  case (abandoned dbt res r)
  note sp = allocateInTx_spec [OF abandoned(3) inv]
  then have "rp_outcome rep \<noteq> OutcomeAllocated" using abandoned by (auto simp: result_outcome_def)
  with abandoned show ?thesis by (auto simp: untouched_def)
next
  case (ended dbt res)
  note sp = allocateInTx_spec [OF ended(3) inv]
  have "keeps db db'" using sp ended(4) by (auto simp: committed_def)
  moreover have "untouched db db'" if "result_outcome res \<noteq> OutcomeAllocated"
    using that sp ended(4) by (auto simp: committed_def untouched_def)
  moreover have "rp_error rep = None \<and> rp_binding rep = ax_binding res \<and> result_outcome res = OutcomeAllocated \<and> db' = dbt"
    if "rp_outcome rep = OutcomeAllocated"
    using that ended sp by (auto simp: committed_def split: if_splits)
  moreover have "result_outcome res \<noteq> OutcomeAllocated" if "rp_outcome rep \<noteq> OutcomeAllocated" "fault e CommitTx = None"
    using that ended by auto
  ultimately show ?thesis
    using ended(1,2) sp by metis
qed

text \<open>In a healthy environment the answer is the specified one.\<close>

lemma Allocate_healthy:
  assumes run: "Allocate gate e db req obs e2 db2 = (db', rep, calls)" and inv: "nonce_inv db"
    and h: "healthy e db" and valid: "AllocationRequest_Validate req = Inr ()" and gate: "gate_open gate"
    and smp: "sampled (ar_ChainID req) (ar_Sender req) obs"
  shows "rp_outcome rep = allocate_spec e db req obs \<and>
    (allocate_spec e db req obs = OutcomeReplayed \<longrightarrow> db' = db \<and> rp_error rep = None \<and>
       rp_binding rep = List.find (\<lambda>b. b_IntentID b = ar_IntentID req) (binding_t db)) \<and>
    (allocate_spec e db req obs \<notin> {OutcomeAllocated, OutcomeReplayed} \<longrightarrow> rp_binding rep = None) \<and>
    (allocate_spec e db req obs = OutcomeAllocationConflict \<longrightarrow> db' = db)"
proof -
  have nf: "fault e s = None" for s using h by (rule healthy_fault)
  obtain dbt res where tx: "allocateInTx e db req obs = Inr (dbt, res)"
    using allocateInTx_total [OF h inv valid smp] by auto
  note sp = allocateInTx_spec [OF tx inv]
  from run show ?thesis
  proof (cases rule: Allocate_reply)
    case unstarted
    with tx valid gate nf show ?thesis by simp
  next
    case (raced err tried)
    with tx show ?thesis by simp
  next
    case (abandoned dbt' res' r)
    with tx sp show ?thesis by (auto simp: result_outcome_def)
  next
    case (ended dbt' res')
    with tx nf have "rp_outcome rep = result_outcome res"
      "rp_binding rep = (if ax_refuse res = None then ax_binding res else None)"
      "ax_refuse res = None \<or> ax_persist res \<and> result_outcome res \<noteq> OutcomeReplayed" by auto
    with sp scope_decision_refusals [of db "ar_ChainID req" "ar_Sender req" obs] show ?thesis
      by (auto split: if_splits)
  qed
qed

subsection \<open>A concrete deployment\<close>

text \<open>One registered sender with one active grant on chain 1, an empty history, and a chain that has seen
  nothing of it; the witnesses run on it.\<close>

definition demo_sender :: string where
  "demo_sender = ''0x'' @ replicate 40 CHR ''1''"

definition demo_db :: nonce_db where
  "demo_db =
     \<lparr>registry_t = [\<lparr>r_ChainID = 1, r_Sender = demo_sender, r_State = RegistryActive, r_RegistrySeq = 1,
        r_CreatedAt = 0, r_UpdatedAt = 0\<rparr>],
      scope_t = [], binding_t = [], event_t = [], observation_t = [], hold_t = [], audit_t = [], lease_t = [],
      indexer_pause_t = [], log_pause_t = [], deposit_pause_t = [], recovery_t = [], recovery_event_t = [],
      authorization_t = [\<lparr>az_AuthorizationID = ''auth-1'', az_ChainID = 1, az_Asset = ''native'',
        az_Recipient = demo_sender, az_Amount = 5, az_State = ''active'', az_ExpiresAt = None\<rparr>],
      pg_constraint_t = []\<rparr>"

definition demo_env :: env where
  "demo_env = \<lparr>fault = (\<lambda>_. None), now_at = 7, clock_at = 7, rand_bytes = (\<lambda>_. Some [1, 2]),
     commit_durable = False\<rparr>"

definition demo_req :: allocation_request where
  "demo_req = \<lparr>ar_IntentID = ''wd-1'', ar_ChainID = 1, ar_Sender = demo_sender, ar_AuthorizationID = ''auth-1''\<rparr>"

definition demo_obs :: "int \<Rightarrow> int \<Rightarrow> observation" where
  "demo_obs latest pending =
     \<lparr>o_ObservationID = [], o_ChainID = 1, o_Sender = demo_sender, o_Kind = ObservationKindAllocation,
      o_Classification = ClassificationOther [], o_LatestCount = Some latest, o_PendingCount = Some pending,
      o_HeadNumber = Some 100, o_HeadHash = [], o_ErrorClass = [], o_RPCRef = []\<rparr>"

definition demo_gate :: "rebuild_gate option" where
  "demo_gate = Some (RebuildGate_Open NewRebuildGate)"

lemma demo_sender_ok: "sender_ok demo_sender"
  by code_simp

lemma demo_inv: "nonce_inv demo_db"
  by (simp add: nonce_inv_def table_inv_defs demo_db_def registry_row_ok_def demo_sender_ok)

lemma demo_healthy: "healthy demo_env demo_db"
  by (simp add: healthy_def fresh_mint_def demo_env_def demo_db_def)

lemma demo_valid: "AllocationRequest_Validate demo_req = Inr ()"
  by code_simp

lemma demo_gate_open: "gate_open demo_gate"
  by (simp add: gate_open_def demo_gate_def RebuildGate_IsOpen_def RebuildGate_State_def RebuildGate_Open_def)

lemma demo_sampled: "0 \<le> l \<Longrightarrow> l \<le> 1000 \<Longrightarrow> 0 \<le> p \<Longrightarrow> p \<le> 1000 \<Longrightarrow> sampled 1 demo_sender (demo_obs l p)"
  by (simp add: sampled_def demo_obs_def opt_in_range_def in_nonce_range_def MaxNonceBig_def)

lemma demo_admitted: "admission_refusal demo_env demo_db demo_req = OutcomeNone"
  by (simp add: admission_refusal_def demo_db_def demo_req_def demo_env_def gate_of_def GateState_Any_def
      AdmissionRefusal_def has_row_def grant_valid_def)

lemma demo_decision: "d_Refusal (scope_decision demo_db 1 demo_sender (demo_obs 0 0)) = OutcomeNone"
  by (simp add: scope_decision_def scope_classify_def scope_bindings_def demo_db_def demo_obs_def Classify_cases
      MaxBoundNonce_def scopeLastPending_def scopeFloor_def)

lemma demo_spec: "allocate_spec demo_env demo_db demo_req (demo_obs 0 0) = OutcomeAllocated"
  using demo_admitted demo_decision
  by (simp add: allocate_spec_def) (simp add: demo_req_def demo_db_def)

subsection \<open>Theorems\<close>

text \<open>C3: refinement of the admission specification. On an invariant database and in an environment where
  no statement fails and minted identifiers are new, a valid request behind an open rebuild gate is
  answered, and with exactly what the specification reads off the durable rows: the first gate that
  refuses, a replay or conflict of a bound intent, or the verdict of the matrix.\<close>

theorem Allocate_refines_spec:
  assumes "nonce_inv db" "healthy e db" "AllocationRequest_Validate req = Inr ()" "gate_open gate"
    "sampled (ar_ChainID req) (ar_Sender req) obs"
  shows "rp_outcome (fst (snd (Allocate gate e db req obs e2 db2))) = allocate_spec e db req obs"
  using Allocate_healthy [OF _ assms] by (metis prod.collapse)

theorem Allocate_refines_spec_witness:
  "rp_outcome (fst (snd (Allocate demo_gate demo_env demo_db demo_req (demo_obs 0 0) demo_env demo_db)))
     = OutcomeAllocated"
  using Allocate_refines_spec [OF demo_inv demo_healthy demo_valid demo_gate_open, of "demo_obs 0 0"]
    demo_sampled [of 0 0] demo_spec by (simp add: demo_req_def)

text \<open>C14: an allocated nonce is safe and authorised. An attempt answered with \<open>allocated\<close> passed the rebuild
  gate, found no 006 gate, an active registry row, no active hold and a valid grant; it appended exactly
  one binding row, for an intent that had none, whose nonce is above every nonce the scope has ever
  bound (released ones included) and not below the observed pending count; the row carries the digest
  of that grant and the sequence number of that registry row.\<close>

theorem Allocate_allocated_safe:
  assumes "nonce_inv db" "Allocate gate e db req obs e2 db2 = (db', rep, calls)"
    "rp_outcome rep = OutcomeAllocated"
  shows "gate_open gate \<and> admission_refusal e db req = OutcomeNone \<and> rp_error rep = None \<and>
    (\<exists>b. rp_binding rep = Some b \<and> bound_by e req obs db db' b \<and> vouched e db req b)"
proof -
  note eff = Allocate_effect [OF assms(2,1)]
  with assms(3) have "allocate_spec e db req obs = OutcomeAllocated" by simp
  then have "admission_refusal e db req = OutcomeNone"
    using admission_refusals [of e db req] by (auto simp: allocate_spec_def split: if_splits)
  with eff assms(3) show ?thesis by simp
qed

theorem Allocate_allocated_safe_witness:
  "\<exists>db' rep calls. Allocate demo_gate demo_env demo_db demo_req (demo_obs 0 0) demo_env demo_db = (db', rep, calls) \<and>
     rp_outcome rep = OutcomeAllocated \<and>
     (\<exists>b. rp_binding rep = Some b \<and> bound_by demo_env demo_req (demo_obs 0 0) demo_db db' b)"
proof -
  obtain db' rep calls where
    run: "Allocate demo_gate demo_env demo_db demo_req (demo_obs 0 0) demo_env demo_db = (db', rep, calls)"
    by (metis prod.collapse)
  have "rp_outcome rep = OutcomeAllocated"
    using Allocate_healthy [OF run demo_inv demo_healthy demo_valid demo_gate_open] demo_sampled [of 0 0] demo_spec
    by (simp add: demo_req_def)
  with Allocate_allocated_safe [OF demo_inv run] run show ?thesis by blast
qed

text \<open>Whatever happens to an attempt (any statement failing, a race, a COMMIT that reports an error and
  did or did not take effect), the invariant of the tables is kept and history only grows: no binding
  is removed, renumbered or moved backwards, no event, observation or audit row disappears.\<close>

lemma Allocate_keeps_invariant:
  assumes "nonce_inv db" "Allocate gate e db req obs e2 db2 = (db', rep, calls)"
  shows "nonce_inv db' \<and> db_evolves db db'"
  using Allocate_effect [OF assms(2,1)] assms(1) by (auto simp: keeps_def)

text \<open>C30: admission fails closed. An answer other than \<open>allocated\<close> leaves bindings and their events as they
  were, unless COMMIT itself reported an error; the validation error, a closed gate, a replay and a
  conflict leave the whole database as it was, and so does every attempt that an admission gate (a
  pause or recovery, the registry, an active hold of the scope, the grant) refuses, whatever it
  answers.\<close>

theorem Allocate_fails_closed:
  assumes "nonce_inv db" "Allocate gate e db req obs e2 db2 = (db', rep, calls)"
    "rp_outcome rep \<noteq> OutcomeAllocated"
  shows "(fault e CommitTx = None \<longrightarrow> untouched db db') \<and>
    (rp_outcome rep \<notin> {OutcomeScopeHeld, OutcomeChainViewUnavailable, OutcomeTemporarilyUnavailable} \<longrightarrow> db' = db) \<and>
    (admission_refusal e db req \<noteq> OutcomeNone \<longrightarrow> db' = db) \<and>
    (allocate_spec e db req obs \<noteq> OutcomeAllocated \<longrightarrow> untouched db db') \<and>
    (rp_outcome rep \<noteq> OutcomeReplayed \<longrightarrow> rp_binding rep = None)"
proof -
  have "(rp_outcome rep \<notin> {OutcomeScopeHeld, OutcomeChainViewUnavailable, OutcomeTemporarilyUnavailable} \<longrightarrow> db' = db) \<and>
    (admission_refusal e db req \<noteq> OutcomeNone \<longrightarrow> db' = db) \<and>
    (rp_outcome rep \<noteq> OutcomeReplayed \<longrightarrow> rp_binding rep = None)"
    using assms(2)
  proof (cases rule: Allocate_reply)
    case (raced err tried)
    then show ?thesis
      using convergeAfterRace_reply(2) [of e2 db2 req "attemptedNonce tried"] by (auto split: option.splits)
  next
    case (ended dbt res)
    have "admission_refusal e db req = OutcomeNone"
      using allocateInTx_refused_early [OF ended(3)] ended(5) by (cases "admission_refusal e db req = OutcomeNone") auto
    then show ?thesis
      using ended allocateInTx_spec [OF ended(3) assms(1)] assms(3) allocate_spec_answers [of e db req obs]
        scope_decision_refusals [of db "ar_ChainID req" "ar_Sender req" obs] by (auto split: if_splits)
  qed auto
  with Allocate_effect [OF assms(2,1)] assms(3) show ?thesis by blast
qed

theorem Allocate_fails_closed_witness:
  "let (db', rep, calls) = Allocate (Some NewRebuildGate) demo_env demo_db demo_req (demo_obs 0 0) demo_env demo_db
   in rp_outcome rep = OutcomeRebuildIncomplete \<and> db' = demo_db"
proof -
  obtain db' rep calls where
    run: "Allocate (Some NewRebuildGate) demo_env demo_db demo_req (demo_obs 0 0) demo_env demo_db = (db', rep, calls)"
    by (metis prod.collapse)
  then have "rp_outcome rep = OutcomeRebuildIncomplete"
    by (auto simp: Allocate_def Let_def demo_valid NewRebuildGate_def RebuildGate_IsOpen_def RebuildGate_State_def)
  with Allocate_fails_closed [OF demo_inv run] run show ?thesis by simp
qed

lemma intent_unique:
  "nonce_inv db \<Longrightarrow> b \<in> set (binding_t db) \<Longrightarrow> b' \<in> set (binding_t db) \<Longrightarrow>
   b_IntentID b = b_IntentID b' \<Longrightarrow> b = b'"
  by (auto simp: nonce_inv_def binding_inv_def distinct_map inj_on_def)

lemma find_intent:
  assumes "nonce_inv db" "b \<in> set (binding_t db)"
  shows "List.find (\<lambda>r. b_IntentID r = b_IntentID b) (binding_t db) = Some b"
proof (cases "List.find (\<lambda>r. b_IntentID r = b_IntentID b) (binding_t db)")
  case (Some c)
  then show ?thesis using find_Some_set [OF Some] intent_unique [OF assms(1) _ assms(2)] by auto
qed (use assms(2) in \<open>auto simp: find_None_set\<close>)

lemma inserted_binding_sels [simp]:
  "b_BindingID (inserted_binding e b) = b_BindingID b" "b_IntentID (inserted_binding e b) = b_IntentID b"
  "b_ChainID (inserted_binding e b) = b_ChainID b" "b_Sender (inserted_binding e b) = b_Sender b"
  "b_Nonce (inserted_binding e b) = b_Nonce b" "b_AuthorizationID (inserted_binding e b) = b_AuthorizationID b"
  by (simp_all add: inserted_binding_def)

text \<open>A bound intent needs no minted identifier and no chain view, so an environment in which statements
  work is enough.\<close>

definition working :: "env \<Rightarrow> bool" where
  "working e \<longleftrightarrow> (\<forall>s. fault e s = None)"

lemma allocateInTx_bound_total:
  assumes nf: "working e" and inv: "nonce_inv db" and valid: "AllocationRequest_Validate req = Inr u"
    and adm: "admission_refusal e db req = OutcomeNone"
    and b: "b \<in> set (binding_t db)" "b_IntentID b = ar_IntentID req"
  shows "\<exists>x. allocateInTx e db req obs = Inr x"
proof -
  have nf: "fault e s = None" for s using nf by (simp add: working_def)
  obtain ls where lock: "lockChain e db (ar_ChainID req) = Inr (db\<lparr>lease_t := ls\<rparr>)"
    using nf by (rule lockChain_total)
  define db1 where "db1 = db\<lparr>lease_t := ls\<rparr>"
  let ?reg = "List.find (\<lambda>r. r_ChainID r = ar_ChainID req \<and> r_Sender r = ar_Sender req) (registry_t db)"
  have adm': "\<not> GateState_Any (gate_of db (ar_ChainID req))" "AdmissionRefusal ?reg = OutcomeNone"
    using adm by (auto simp: admission_refusal_def Let_def split: if_splits)
  then obtain reg where reg: "?reg = Some reg" by (auto simp: AdmissionRefusal_def split: option.splits)
  then have "registered db1 (ar_ChainID req) (ar_Sender req)"
    using find_Some_set [OF reg] by (auto simp: registered_def has_row_iff db1_def)
  then obtain db2 where ens: "ensureScopeRowTx e db1 (ar_ChainID req) (ar_Sender req) = Inr db2"
    using ensureScopeRowTx_total [OF nf AllocationRequest_valid(1,2) [OF valid]] by blast
  note f = ensureScopeRowTx_frame [OF ens] and s2 = ensureScopeRowTx_Inr [OF ens]
  have i2: "nonce_inv db2"
    using ensureScopeRowTx_keeps [OF ens] lockChain_inv [OF lock] inv by (auto simp: db1_def intro: keeps_inv)
  have "List.find (\<lambda>r. b_IntentID r = ar_IntentID req) (binding_t db2) = Some b"
    using find_intent [OF inv b(1)] b(2) f by (simp add: db1_def)
  then have "\<exists>x. allocateCandidate e db2 req obs reg a = Inr x" for a
    by (simp add: allocateCandidate_def Let_def read_rules [OF i2] nf)
  with lock ens reg adm' nf s2 show ?thesis
    by (auto simp: allocateInTx_def Let_def db1_def readGateStateTx_def readRegistryBySenderTx_def lockScopeRowTx_def
        readActiveHoldsTx_def readAuthorizationForShareTx_def split: list.splits option.splits)
qed

text \<open>One intent, one nonce, forever. Once an intent is bound, no attempt for it (by any caller, with
  any input, in any environment) allocates or changes a binding or an event; an admitted attempt in a
  working environment replays the very row when its input is equal, refuses with
  \<open>allocation_conflict\<close> when it differs, and writes nothing either way.\<close>

lemma Allocate_replays:
  assumes "nonce_inv db" "b \<in> set (binding_t db)" "b_IntentID b = ar_IntentID req"
    "Allocate gate e db req obs e2 db2 = (db', rep, calls)"
  shows "rp_outcome rep \<noteq> OutcomeAllocated \<and> untouched db db' \<and>
    (working e \<and> AllocationRequest_Validate req = Inr () \<and> gate_open gate \<and>
     admission_refusal e db req = OutcomeNone \<longrightarrow>
     db' = db \<and>
     (if bindingMatchesInput b req
      then rp_outcome rep = OutcomeReplayed \<and> rp_binding rep = Some b \<and> rp_error rep = None
      else rp_outcome rep = OutcomeAllocationConflict \<and> rp_binding rep = None))"
proof -
  have found: "List.find (\<lambda>r. b_IntentID r = ar_IntentID req) (binding_t db) = Some b"
    using find_intent [OF assms(1,2)] assms(3) by simp
  have spec: "allocate_spec e db req obs \<noteq> OutcomeAllocated"
    using found admission_refusals [of e db req] by (auto simp: allocate_spec_def)
  note eff = Allocate_effect [OF assms(4,1)]
  have "db' = db \<and> (if bindingMatchesInput b req
      then rp_outcome rep = OutcomeReplayed \<and> rp_binding rep = Some b \<and> rp_error rep = None
      else rp_outcome rep = OutcomeAllocationConflict \<and> rp_binding rep = None)"
    if w: "working e" "AllocationRequest_Validate req = Inr ()" "gate_open gate" "admission_refusal e db req = OutcomeNone"
  proof -
    obtain dbt res where tx: "allocateInTx e db req obs = Inr (dbt, res)"
      using allocateInTx_bound_total [OF w(1) assms(1) w(2,4) assms(2,3)] by (metis surj_pair)
    note sp = allocateInTx_spec [OF tx assms(1)]
    have out: "result_outcome res = (if bindingMatchesInput b req then OutcomeReplayed else OutcomeAllocationConflict)"
      using sp found w(4) by (simp add: allocate_spec_def)
    from assms(4) show ?thesis
    proof (cases rule: Allocate_reply)
      case unstarted
      then show ?thesis using w tx by (simp add: working_def)
    next
      case (raced err tried)
      then show ?thesis using tx by simp
    next
      case (abandoned dbt' res' r)
      then show ?thesis using tx sp out found by (auto simp: result_outcome_def split: if_splits)
    next
      case (ended dbt' res')
      then show ?thesis
        using tx sp out scope_decision_refusals [of db "ar_ChainID req" "ar_Sender req" obs]
        by (auto split: if_splits)
    qed
  qed
  with eff spec show ?thesis by blast
qed

text \<open>The deployment with the intent already bound at nonce 0.\<close>

definition demo_binding :: binding where
  "demo_binding =
     \<lparr>b_BindingID = ''nb-1'', b_IntentID = ''wd-1'', b_ChainID = 1, b_Sender = demo_sender, b_Nonce = Some 0,
      b_State = StateAllocated, b_AuthorizationID = ''auth-1'',
      b_AuthorizationVersion = replicate 64 CHR ''a'', b_RegistrySeq = 1, b_AllocationObservationID = ''no-1'',
      b_CreatedAt = 3, b_UpdatedAt = 3, b_ConsumedAt = None, b_ReleasedAt = None, b_ReleaseOperationID = None\<rparr>"

definition demo_bound_db :: nonce_db where
  "demo_bound_db = demo_db
     \<lparr>scope_t := [\<lparr>s_ChainID = 1, s_Sender = demo_sender, s_ReconciledFloor = None, s_LastLatest = Some 0,
        s_LastPending = Some 0, s_LastObservationID = Some ''no-1'', s_UpdatedAt = 3\<rparr>],
      binding_t := [demo_binding],
      event_t := [\<lparr>ev_BindingID = ''nb-1'', ev_FromState = None, ev_ToState = StateAllocated,
        ev_ObservationID = ''no-1'', ev_OperationID = [], ev_Detail = ''admission''\<rparr>]\<rparr>"

lemma demo_binding_ok: "binding_row_ok demo_binding"
  by (simp add: binding_row_ok_iff demo_binding_def demo_sender_ok known_state_def TerminalConsistent_def
      nonce_col_ok_def in_nonce_range_def intent_shape_def hex64_def is_lower_hex_def list_all_iff)

lemma demo_bound_inv: "nonce_inv demo_bound_db"
  using demo_binding_ok
  by (simp add: nonce_inv_def table_inv_defs demo_bound_db_def demo_db_def registry_row_ok_def demo_sender_ok
      scope_row_ok_def opt_in_range_def in_nonce_range_def has_row_def in_scope_def event_row_ok_def known_state_def
      reached_def event_key_def) (simp add: demo_binding_def)

lemma demo_bound_admitted: "admission_refusal demo_env demo_bound_db demo_req = OutcomeNone"
  by (simp add: admission_refusal_def demo_bound_db_def demo_db_def demo_req_def demo_env_def gate_of_def
      GateState_Any_def AdmissionRefusal_def has_row_def grant_valid_def)

text \<open>C25: a retry converges. Whatever the first attempt did (including a COMMIT of unknown outcome), a
  later healthy attempt with the same input that the gates and the matrix admit, and whose intent is not
  bound to another input, ends with exactly one binding for the intent and answers with its identity and
  nonce: a replay if the first attempt had become durable, a fresh allocation otherwise.\<close>

theorem Allocate_retry_converges:
  assumes "nonce_inv db" "Allocate gate e db req obs e2 db2 = (db1, rep1, calls1)"
    and retry: "Allocate gate' e' db1 req obs' e3 db3 = (db4, rep2, calls2)"
      "healthy e' db1" "AllocationRequest_Validate req = Inr ()" "gate_open gate'"
      "sampled (ar_ChainID req) (ar_Sender req) obs'" "admission_refusal e' db1 req = OutcomeNone"
      "\<not> has_row (\<lambda>b. b_IntentID b = ar_IntentID req \<and> \<not> bindingMatchesInput b req) (binding_t db1)"
      "d_Refusal (scope_decision db1 (ar_ChainID req) (ar_Sender req) obs') = OutcomeNone"
  shows "rp_outcome rep2 =
      (if has_row (\<lambda>b. b_IntentID b = ar_IntentID req) (binding_t db1) then OutcomeReplayed else OutcomeAllocated) \<and>
    count_where (\<lambda>b. b_IntentID b = ar_IntentID req) (binding_t db4) = 1 \<and>
    (\<exists>b r. rp_binding rep2 = Some b \<and> r \<in> set (binding_t db4) \<and> b_IntentID r = ar_IntentID req \<and>
       b_BindingID r = b_BindingID b \<and> b_Nonce r = b_Nonce b)"
proof -
  have inv1: "nonce_inv db1" using Allocate_effect [OF assms(2,1)] assms(1) by (auto intro: keeps_inv)
  note h = Allocate_healthy [OF retry(1) inv1 retry(2-5)] and eff = Allocate_effect [OF retry(1) inv1]
  have inv4: "nonce_inv db4" using eff inv1 by (auto intro: keeps_inv)
  let ?P = "\<lambda>b. b_IntentID b = ar_IntentID req"
  have reply: "(\<exists>b r. rp_binding rep2 = Some b \<and> r \<in> set (binding_t db4) \<and> ?P r \<and>
       b_BindingID r = b_BindingID b \<and> b_Nonce r = b_Nonce b) \<and>
    rp_outcome rep2 = (if has_row ?P (binding_t db1) then OutcomeReplayed else OutcomeAllocated)"
  proof (cases "List.find ?P (binding_t db1)")
    case (Some b)
    then have "b \<in> set (binding_t db1)" "?P b" using find_Some_set [OF Some] by auto
    moreover from this retry(7) have "bindingMatchesInput b req" by (auto simp: has_row_iff)
    ultimately show ?thesis
      using h Some retry(6) by (auto simp: allocate_spec_def has_row_iff)
  next
    case None
    then have spec: "allocate_spec e' db1 req obs' = OutcomeAllocated"
      using retry(6,8) by (simp add: allocate_spec_def)
    with h eff obtain b where "rp_binding rep2 = Some b" "bound_by e' req obs' db1 db4 b" by auto
    then have "rp_binding rep2 = Some b \<and> inserted_binding e' b \<in> set (binding_t db4) \<and> ?P (inserted_binding e' b) \<and>
       b_BindingID (inserted_binding e' b) = b_BindingID b \<and> b_Nonce (inserted_binding e' b) = b_Nonce b"
      by (auto simp: bound_by_def)
    with None spec h show ?thesis by (auto simp: find_None_set has_row_iff)
  qed
  have "count_where ?P (binding_t db4) \<le> 1"
    using inv4 by (intro count_where_unique [where key = b_IntentID]) (auto simp: nonce_inv_def binding_inv_def)
  moreover from reply have "0 < count_where ?P (binding_t db4)"
    by (auto simp: count_where_pos has_row_iff)
  ultimately have "count_where ?P (binding_t db4) = 1" by linarith
  with reply show ?thesis by blast
qed

lemma lost_commit_restores:
  assumes "Allocate gate e db req obs e2 db2 = (db', rep, calls)" "fault e CommitTx \<noteq> None" "\<not> commit_durable e"
  shows "db' = db"
  using assms(1)
proof (cases rule: Allocate_reply)
  case (ended dbt res)
  with assms show ?thesis by (auto simp: committed_def)
qed simp_all

theorem Allocate_retry_converges_witness:
  "let e = demo_env\<lparr>fault := (\<lambda>s. if s = CommitTx then Some (DriverError ''conn closed'') else None)\<rparr>;
       (db1, rep1, calls1) = Allocate demo_gate e demo_db demo_req (demo_obs 0 0) demo_env demo_db;
       (db4, rep2, calls2) = Allocate demo_gate demo_env db1 demo_req (demo_obs 0 0) demo_env db1
   in rp_outcome rep2 = OutcomeAllocated \<and> count_where (\<lambda>b. b_IntentID b = ''wd-1'') (binding_t db4) = 1"
proof -
  let ?e = "demo_env\<lparr>fault := (\<lambda>s. if s = CommitTx then Some (DriverError ''conn closed'') else None)\<rparr>"
  obtain db1 rep1 calls1 where
    first: "Allocate demo_gate ?e demo_db demo_req (demo_obs 0 0) demo_env demo_db = (db1, rep1, calls1)"
    by (metis prod.collapse)
  then have db1: "db1 = demo_db" by (rule lost_commit_restores) (simp_all add: demo_env_def)
  obtain db4 rep2 calls2 where
    retry: "Allocate demo_gate demo_env db1 demo_req (demo_obs 0 0) demo_env db1 = (db4, rep2, calls2)"
    by (metis prod.collapse)
  have "rp_outcome rep2 = OutcomeAllocated \<and> count_where (\<lambda>b. b_IntentID b = ar_IntentID demo_req) (binding_t db4) = 1"
    using Allocate_retry_converges [OF demo_inv first retry] demo_healthy demo_valid demo_gate_open
      demo_sampled [of 0 0] demo_admitted demo_decision
    by (simp add: db1 demo_req_def) (simp add: demo_db_def has_row_def)
  then show ?thesis using first retry by (simp add: demo_req_def)
qed

lemma resolveAdmissionRace_decides:
  assumes "nonce_inv db" "working e"
  shows "rp_outcome (convergeAfterRace e db req n) =
    (case List.find (\<lambda>b. b_IntentID b = ar_IntentID req) (binding_t db) of
       Some w \<Rightarrow> if bindingMatchesInput w req then OutcomeReplayed else OutcomeAllocationConflict
     | None \<Rightarrow> OutcomeTemporarilyUnavailable)"
  using assms(2)
  by (cases "readBindingByScopeNonceTx e db (ar_ChainID req) (ar_Sender req) n")
    (simp_all add: convergeAfterRace_def resolveAdmissionRace_def read_rules [OF assms(1)] working_def Refuse_def
      split: option.split)

lemma convergeAfterRace_conflict:
  assumes "nonce_inv db" "rp_outcome (convergeAfterRace e db req n) = OutcomeAllocationConflict"
  shows "\<exists>w \<in> set (binding_t db). b_IntentID w = ar_IntentID req \<and> \<not> bindingMatchesInput w req"
proof (cases "readBindingByIntentTx e db (ar_IntentID req)")
  case (Inr winner)
  with assms(2) obtain w where "winner = Some w" "\<not> bindingMatchesInput w req"
    by (cases "readBindingByScopeNonceTx e db (ar_ChainID req) (ar_Sender req) n")
      (auto simp: convergeAfterRace_def resolveAdmissionRace_def Refuse_def split: option.splits if_splits)
  moreover from this Inr have "w \<in> set (binding_t db)" "b_IntentID w = ar_IntentID req"
    by (auto simp: read_rules [OF assms(1)] rbind_rules dest: find_Some_set)
  ultimately show ?thesis by blast
qed (use assms(2) in \<open>simp add: convergeAfterRace_def resolveAdmissionRace_def split: option.splits\<close>)

text \<open>C26: a lost race never fabricates. When the insert fails on one of the three unique carriers of
  \<open>nonce_bindings\<close>, the attempt writes nothing. In any environment, a binding it answers with is a committed
  row of the same intent with equal input, reported as a replay, a conflict means a committed row of the same
  intent with different input, and there is no third answer but the retryable refusal. When the reads of
  the classification succeed, the answer is decided by the committed row of the intent: a replay or a
  conflict when there is one, and the retryable refusal when there is none, so a nonce that went to
  another intent is never reported as a conflict.\<close>

theorem Allocate_race_converges:
  assumes "nonce_inv db2" "Allocate gate e db req obs e2 db2 = (db', rep, calls)"
    "allocateInTx e db req obs = Inl (err, tried)" "bindingCarrierConstraint err"
    "AllocationRequest_Validate req = Inr ()" "gate_open gate" "fault e BeginTx = None"
  shows "db' = db \<and>
    (case rp_binding rep of
       Some w \<Rightarrow> w \<in> set (binding_t db2) \<and> b_IntentID w = ar_IntentID req \<and> bindingMatchesInput w req \<and>
         rp_outcome rep = OutcomeReplayed \<and> rp_error rep = None
     | None \<Rightarrow> rp_error rep \<noteq> None \<and>
         (rp_outcome rep = OutcomeTemporarilyUnavailable \<or>
          rp_outcome rep = OutcomeAllocationConflict \<and>
          (\<exists>w \<in> set (binding_t db2). b_IntentID w = ar_IntentID req \<and> \<not> bindingMatchesInput w req))) \<and>
    (working e2 \<longrightarrow>
       rp_outcome rep =
         (case List.find (\<lambda>b. b_IntentID b = ar_IntentID req) (binding_t db2) of
            Some w \<Rightarrow> if bindingMatchesInput w req then OutcomeReplayed else OutcomeAllocationConflict
          | None \<Rightarrow> OutcomeTemporarilyUnavailable))"
proof -
  have rep: "db' = db" "rep = convergeAfterRace e2 db2 req (attemptedNonce tried)"
    using assms(2-7) by (auto simp: Allocate_def Let_def gate_open_def split: option.splits)
  note r = convergeAfterRace_reply [of e2 db2 req "attemptedNonce tried", folded rep(2)]
    and c = convergeAfterRace_conflict [OF assms(1), of e2 req "attemptedNonce tried", folded rep(2)]
    and d = resolveAdmissionRace_decides [OF assms(1), of e2 req "attemptedNonce tried", folded rep(2)]
  show ?thesis
  proof (cases "rp_binding rep")
    case None
    with r c d rep(1) show ?thesis by auto
  next
    case (Some w)
    with r(2) have "readBindingByIntentTx e2 db2 (ar_IntentID req) = Inr (Some w)" by simp
    then have "w \<in> set (binding_t db2)" "b_IntentID w = ar_IntentID req"
      by (auto simp: read_rules [OF assms(1)] rbind_rules dest: find_Some_set)
    with Some r d rep(1) show ?thesis by simp
  qed
qed

subsection \<open>A concrete race\<close>

text \<open>The insert of the binding loses against a concurrent commit for the same intent.\<close>

definition race_env :: env where
  "race_env = demo_env\<lparr>fault := (\<lambda>s. if s = InsertBinding then Some (PgError ''23505'' ''nonce_bindings_intent_uniq'') else None)\<rparr>"

lemma race_env_simps: "fault race_env s = (if s = InsertBinding then Some (PgError ''23505'' ''nonce_bindings_intent_uniq'') else None)" "rand_bytes race_env m = Some [1,2]"
 by (simp_all add: race_env_def demo_env_def)

lemma race_lock: "lockChain race_env demo_db 1 = Inr (demo_db\<lparr>lease_t := [\<lparr>l_ChainID = 1, l_OwnerID = ''nonce-008'', l_FencingToken = 0, l_ExpiresAt = now_at race_env + coordPlaceholderExpirySeconds * 1000000000\<rparr>]\<rparr>)"
  by (simp add: lockChain_def race_env_simps has_row_def demo_db_def)


definition demo_registry_row :: wallet_registry where
  "demo_registry_row = \<lparr>r_ChainID = 1, r_Sender = demo_sender, r_State = RegistryActive, r_RegistrySeq = 1, r_CreatedAt = 0, r_UpdatedAt = 0\<rparr>"

definition demo_scope_row :: scope_state where
  "demo_scope_row = \<lparr>s_ChainID = 1, s_Sender = demo_sender, s_ReconciledFloor = None, s_LastLatest = None, s_LastPending = None, s_LastObservationID = None, s_UpdatedAt = 7\<rparr>"

lemma demo_admits: "scope_classify (demo_obs 0 0) (Some demo_scope_row) [] = admitted_at ClassificationConsistent (Some 0)"
  by (simp add: scope_classify_def demo_scope_row_def scopeLastPending_def scopeFloor_def MaxBoundNonce_def Classify_cases demo_obs_def)

lemma race_candidate: "binding_t db = [] \<Longrightarrow> observation_t db = [] \<Longrightarrow> scope_t db = [demo_scope_row] \<Longrightarrow>
  \<exists>b. allocateCandidate race_env db demo_req (demo_obs 0 0) demo_registry_row a = Inl (Pg InsertBinding (PgError ''23505'' ''nonce_bindings_intent_uniq''), Some b)"
proof -
  assume db: "binding_t db = []" "observation_t db = []" "scope_t db = [demo_scope_row]"
  have r1: "readBindingByIntentTx race_env db (ar_IntentID demo_req) = Inr None"
    by (simp add: readBindingByIntentTx_def race_env_simps db scanBindingRow_def)
  have r2: "readBindingsByScopeTx race_env db (ar_ChainID demo_req) (ar_Sender demo_req) = Inr []"
    by (simp add: readBindingsByScopeTx_def race_env_simps db scope_bindings_def)
  have r3: "readScopeStateTx race_env db (ar_ChainID demo_req) (ar_Sender demo_req) = Inr (Some demo_scope_row)"
    by (simp add: readScopeStateTx_def race_env_simps db in_scope_def demo_scope_row_def demo_req_def parseNullableDecimal_def numeric_text_def)
  have nf: "fault race_env InsertObservation = None" "fault race_env UpdateScopeFrontier = None" by (simp_all add: race_env_simps)
  obtain i db1 where r4: "insertObservationTx race_env db (demo_obs 0 0\<lparr>o_Classification := ClassificationConsistent\<rparr>) = Inr (db1, i)" "i \<noteq> []"
    using sampled_validates [OF demo_sampled [of 0 0] _ demo_sender_ok, of ClassificationConsistent]
    by (auto simp: insertObservationTx_def nf db has_row_def mintObservationID_def race_env_simps persistable_def demo_obs_def)
  have db1: "scope_t db1 = [demo_scope_row]" using insertObservationTx_Inr [OF r4(1)] db by simp
  have r5: "\<exists>db2. updateScopeFrontierTx race_env db1 1 demo_sender (Some 0) (Some 0) i = Inr db2"
    by (simp add: updateScopeFrontierTx_def ValidateNonceRange_def r4(2) nf db1 count_where_def in_scope_def demo_scope_row_def)
  have r6: "\<exists>b. allocateCommit race_env d demo_req demo_registry_row a (admitted_at ClassificationConsistent (Some 0)) i =
      Inl (Pg InsertBinding (PgError ''23505'' ''nonce_bindings_intent_uniq''), Some b)" for d
    by (simp add: allocateCommit_def Let_def newBindingID_def race_env_simps insertBindingTx_def sql_def attempted_def)
  show ?thesis
    using r1 r2 r3 r4 r5 r6
    by (auto simp: allocateCandidate_def Let_def demo_admits trusted_view_def) (auto simp: demo_obs_def demo_req_def)
qed

lemma race_inTx: "\<exists>b. allocateInTx race_env demo_db demo_req (demo_obs 0 0) = Inl (Pg InsertBinding (PgError ''23505'' ''nonce_bindings_intent_uniq''), Some b)"
proof -
  define db1 where "db1 = demo_db\<lparr>lease_t := [\<lparr>l_ChainID = 1, l_OwnerID = ''nonce-008'', l_FencingToken = 0, l_ExpiresAt = now_at race_env + coordPlaceholderExpirySeconds * 1000000000\<rparr>]\<rparr>"
  have lock: "lockChain race_env demo_db (ar_ChainID demo_req) = Inr db1" using race_lock by (simp add: db1_def demo_req_def)
  have ens: "ensureScopeRowTx race_env db1 (ar_ChainID demo_req) (ar_Sender demo_req) = Inr (db1\<lparr>scope_t := [demo_scope_row]\<rparr>)"
    by (simp add: ensureScopeRowTx_def race_env_simps demo_req_def demo_sender_ok has_row_def registered_def db1_def demo_db_def demo_scope_row_def race_env_def demo_env_def)
  have regs: "readRegistryBySenderTx race_env db1 (ar_ChainID demo_req) (ar_Sender demo_req) = Inr (Some demo_registry_row)"
    by (simp add: readRegistryBySenderTx_def race_env_simps db1_def demo_db_def demo_req_def demo_registry_row_def)
  obtain a where auth: "readAuthorizationForShareTx race_env (db1\<lparr>scope_t := [demo_scope_row]\<rparr>) (ar_AuthorizationID demo_req) (ar_ChainID demo_req) = Inr (Some a)"
    by (simp add: readAuthorizationForShareTx_def race_env_simps db1_def demo_db_def demo_req_def grant_valid_def)
  have g: "readGateStateTx race_env db1 (ar_ChainID demo_req) = Inr (gate_of db1 (ar_ChainID demo_req))" "\<not> GateState_Any (gate_of db1 (ar_ChainID demo_req))"
    by (simp_all add: readGateStateTx_def race_env_simps db1_def demo_db_def gate_of_def GateState_Any_def)
  have h: "lockScopeRowTx race_env (db1\<lparr>scope_t := [demo_scope_row]\<rparr>) (ar_ChainID demo_req) (ar_Sender demo_req) = Inr ()"
    "readActiveHoldsTx race_env (db1\<lparr>scope_t := [demo_scope_row]\<rparr>) (ar_ChainID demo_req) (ar_Sender demo_req) = Inr []"
    by (simp_all add: lockScopeRowTx_def readActiveHoldsTx_def race_env_simps has_row_def in_scope_def demo_scope_row_def demo_req_def db1_def demo_db_def hold_order_def)
  have "\<exists>b. allocateCandidate race_env (db1\<lparr>scope_t := [demo_scope_row]\<rparr>) demo_req (demo_obs 0 0) demo_registry_row a = Inl (Pg InsertBinding (PgError ''23505'' ''nonce_bindings_intent_uniq''), Some b)"
    by (rule race_candidate) (simp_all add: db1_def demo_db_def)
  then show ?thesis
    using lock ens regs auth g h by (auto simp: allocateInTx_def Let_def AdmissionRefusal_def demo_registry_row_def)
qed

theorem Allocate_race_converges_witness:
  "let (db', rep, calls) = Allocate demo_gate race_env demo_db demo_req (demo_obs 0 0) demo_env demo_bound_db
   in db' = demo_db \<and> rp_outcome rep = OutcomeReplayed"
proof -
  obtain b where tx: "allocateInTx race_env demo_db demo_req (demo_obs 0 0) =
      Inl (Pg InsertBinding (PgError ''23505'' ''nonce_bindings_intent_uniq''), Some b)"
    using race_inTx by blast
  obtain db' rep calls where
    run: "Allocate demo_gate race_env demo_db demo_req (demo_obs 0 0) demo_env demo_bound_db = (db', rep, calls)"
    by (metis prod.collapse)
  have "List.find (\<lambda>b. b_IntentID b = ar_IntentID demo_req) (binding_t demo_bound_db) = Some demo_binding"
    "bindingMatchesInput demo_binding demo_req" "working demo_env"
    by (simp_all add: demo_bound_db_def demo_binding_def demo_req_def bindingMatchesInput_def working_def demo_env_def)
  with Allocate_race_converges [OF demo_bound_inv run tx _ demo_valid demo_gate_open] run show ?thesis
    by (simp add: bindingCarrierConstraint_def race_env_simps)
qed

end
