(* ===== verification/NonceReconcile.thy ===== *)
theory NonceReconcile
  imports NonceAllocateSpec
begin

text \<open>
  Model of \<^verbatim>\<open>internal/nonce/reconcile.go\<close>: the automatic transitions one chain observation drives,
  the observation transaction of one scope, and the loop that runs it over the known scopes with its
  bounded per-scope backoff.
\<close>

section \<open>Automatic transitions\<close>

definition observeTransitionTarget :: "binding \<Rightarrow> int option \<Rightarrow> int option \<Rightarrow> bstate option" where
  "observeTransitionTarget b latest pending =
     (case (b_Nonce b, latest, pending) of
        (Some n, Some l, Some p) \<Rightarrow>
          if IsTerminal (b_State b) then None
          else if n < l then Some StateConsumed
          else if b_State b = StateAllocated \<and> n < p then Some StateInFlight
          else None
      | _ \<Rightarrow> None)"

definition applyObservationTransitionTx ::
  "env \<Rightarrow> nonce_db \<Rightarrow> binding \<Rightarrow> observation \<Rightarrow> terr + nonce_db \<times> bool" where
  "applyObservationTransitionTx e db b obs =
     (if o_Classification obs = ClassificationUnavailable \<or> o_Classification obs = ClassificationDivergence
      then Inr (db, False)
      else case observeTransitionTarget b (o_LatestCount obs) (o_PendingCount obs) of
        None \<Rightarrow> Inr (db, False)
      | Some to \<Rightarrow>
          if \<not> CanAutoTransition (b_State b) to then Inr (db, False)
          else rbind (insertBindingEventTx e db
                 \<lparr>ev_BindingID = b_BindingID b, ev_FromState = Some (b_State b), ev_ToState = to,
                  ev_ObservationID = o_ObservationID obs, ev_OperationID = [], ev_Detail = ''reconcile''\<rparr>)
            (\<lambda>(db1, created).
             rbind (advanceBindingStateTx e db1 (b_BindingID b) to [] (b_State b)) (\<lambda>(db2, moved).
               Inr (db2, created \<or> moved))))"

fun applyTransitionsTx :: "env \<Rightarrow> nonce_db \<Rightarrow> binding list \<Rightarrow> observation \<Rightarrow> terr + nonce_db" where
  "applyTransitionsTx e db [] obs = Inr db"
| "applyTransitionsTx e db (b # bs) obs =
     rbind (applyObservationTransitionTx e db b obs) (\<lambda>(db', _). applyTransitionsTx e db' bs obs)"

section \<open>One scope\<close>

text \<open>The last statements of the transaction: the hold the matrix demands and the fresh waterline.\<close>

definition reconcileFinish ::
  "env \<Rightarrow> nonce_db \<Rightarrow> int \<Rightarrow> string \<Rightarrow> observation \<Rightarrow> decision \<Rightarrow> string \<Rightarrow> terr + nonce_db" where
  "reconcileFinish e db chain sender obs dec observationID =
     rbind (if d_HoldCause dec \<noteq> NoCause
            then rbind (establishHoldTx e db
                   \<lparr>he_ChainID = chain, he_Sender = sender, he_Cause = d_HoldCause dec,
                    he_ObservationID = observationID, he_Detail = class_str (d_Classification dec)\<rparr>)
                 (\<lambda>(db1, _). Inr db1)
            else Inr db) (\<lambda>db1.
       if trusted_view obs (d_Classification dec)
       then updateScopeFrontierTx e db1 chain sender (o_LatestCount obs) (o_PendingCount obs) observationID
       else Inr db1)"

definition reconcileScopeInTx ::
  "env \<Rightarrow> nonce_db \<Rightarrow> int \<Rightarrow> string \<Rightarrow> observation \<Rightarrow> terr + nonce_db" where
  "reconcileScopeInTx e db chain sender obs =
     rbind (lockChain e db chain) (\<lambda>db1.
     rbind (ensureScopeRowTx e db1 chain sender) (\<lambda>db2.
     rbind (lockScopeRowTx e db2 chain sender) (\<lambda>_.
     rbind (readBindingsByScopeTx e db2 chain sender) (\<lambda>bs.
     rbind (readScopeStateTx e db2 chain sender) (\<lambda>scope.
       let dec = scope_classify obs scope bs;
           obs1 = obs\<lparr>o_Classification := d_Classification dec\<rparr>
       in rbind (insertObservationTx e db2 obs1) (\<lambda>(db3, observationID).
          rbind (applyTransitionsTx e db3 bs (obs1\<lparr>o_ObservationID := observationID\<rparr>)) (\<lambda>db4.
          reconcileFinish e db4 chain sender obs dec observationID)))))))"

definition reconcileScope ::
  "env \<Rightarrow> nonce_db \<Rightarrow> int \<Rightarrow> string \<Rightarrow> observation \<Rightarrow> nonce_db \<times> terr option" where
  "reconcileScope e db chain sender obs =
     (case fault e BeginTx of
        Some p \<Rightarrow> (db, Some (Pg BeginTx p))
      | None \<Rightarrow>
          (case reconcileScopeInTx e db chain sender obs of
             Inl err \<Rightarrow> (db, Some err)
           | Inr db' \<Rightarrow>
               (case fault e CommitTx of
                  Some p \<Rightarrow> (committed e db db', Some (Pg CommitTx p))
                | None \<Rightarrow> (db', None))))"

definition listKnownScopes :: "env \<Rightarrow> nonce_db \<Rightarrow> int \<Rightarrow> terr + string list" where
  "listKnownScopes e db chain =
     sql e BeginTx (sql e ListKnownScopes
       (Inr (sort (map r_Sender (filter (\<lambda>r. r_ChainID r = chain) (registry_t db))))))"

section \<open>The loop and its backoff\<close>

text \<open>\<open>time.Duration\<close> is a signed 64-bit count of nanoseconds; its products wrap.\<close>

type_synonym duration = "64 word"

record reconcile_failure =
  rf_streak :: nat
  rf_nextAttempt :: instant

record reconcile_loop =
  rl_chainID :: int
  rl_interval :: duration
  rl_failures :: "string \<rightharpoonup> reconcile_failure"
  rl_failureCount :: nat

definition reconcileBackoffMaxMultiplier :: duration where
  "reconcileBackoffMaxMultiplier = 8"

fun backoff_loop :: "nat \<Rightarrow> duration \<Rightarrow> duration \<Rightarrow> duration" where
  "backoff_loop 0 delay mx = delay"
| "backoff_loop (Suc n) delay mx = (if sint delay < sint mx then backoff_loop n (delay * 2) mx else delay)"

definition reconcileBackoff :: "duration \<Rightarrow> nat \<Rightarrow> duration" where
  "reconcileBackoff interval streak =
     (if sint interval \<le> 0 then 0
      else let mx0 = interval * reconcileBackoffMaxMultiplier;
               mx = (if sint mx0 \<le> 0 then interval else mx0);
               delay = backoff_loop (streak - 1) interval mx
           in if sint delay > sint mx \<or> sint delay \<le> 0 then mx else delay)"

definition recordFailure :: "reconcile_loop \<Rightarrow> string \<Rightarrow> instant \<Rightarrow> reconcile_loop" where
  "recordFailure l sender now =
     (let streak = (case rl_failures l sender of None \<Rightarrow> 1 | Some f \<Rightarrow> rf_streak f + 1)
      in l\<lparr>rl_failures := (rl_failures l)(sender \<mapsto>
             \<lparr>rf_streak = streak, rf_nextAttempt = now + sint (reconcileBackoff (rl_interval l) streak)\<rparr>),
           rl_failureCount := rl_failureCount l + 1\<rparr>)"

definition pruneFailures :: "reconcile_loop \<Rightarrow> string list \<Rightarrow> reconcile_loop" where
  "pruneFailures l scopes = l\<lparr>rl_failures := rl_failures l |` set scopes\<rparr>"

text \<open>What one pass meets from outside: the clock, the environment and chain view of every scope's
  transaction, and whether the context is cancelled before and after each scope.\<close>

record pass_env =
  pe_now :: instant
  pe_list :: env
  pe_env :: "string \<Rightarrow> env"
  pe_obs :: "string \<Rightarrow> observation"
  pe_cancelledBefore :: "string \<Rightarrow> bool"
  pe_cancelledAfter :: "string \<Rightarrow> bool"

definition deferred :: "reconcile_loop \<Rightarrow> instant \<Rightarrow> string \<Rightarrow> bool" where
  "deferred l now sender = (case rl_failures l sender of None \<Rightarrow> False | Some f \<Rightarrow> now < rf_nextAttempt f)"

text \<open>The flag of the result says that the loop ran to its end, so that the failures are pruned.\<close>

fun tick_scopes ::
  "pass_env \<Rightarrow> reconcile_loop \<Rightarrow> nonce_db \<Rightarrow> string list \<Rightarrow> reconcile_loop \<times> nonce_db \<times> bool" where
  "tick_scopes pe l db [] = (l, db, True)"
| "tick_scopes pe l db (sender # rest) =
     (if pe_cancelledBefore pe sender then (l, db, False)
      else if deferred l (pe_now pe) sender then tick_scopes pe l db rest
      else case reconcileScope (pe_env pe sender) db (rl_chainID l) sender (pe_obs pe sender) of
             (db', Some err) \<Rightarrow>
               if pe_cancelledAfter pe sender then (l, db', False)
               else tick_scopes pe (recordFailure l sender (pe_now pe)) db' rest
           | (db', None) \<Rightarrow>
               tick_scopes pe (l\<lparr>rl_failures := (rl_failures l)(sender := None)\<rparr>) db' rest)"

definition tick :: "pass_env \<Rightarrow> reconcile_loop \<Rightarrow> nonce_db \<Rightarrow> reconcile_loop \<times> nonce_db" where
  "tick pe l db =
     (case listKnownScopes (pe_list pe) db (rl_chainID l) of
        Inl err \<Rightarrow> (l, db)
      | Inr scopes \<Rightarrow>
          (case tick_scopes pe l db scopes of
             (l', db', completed) \<Rightarrow> (if completed then pruneFailures l' scopes else l', db')))"

text \<open>\<^verbatim>\<open>Run\<close>: a non-positive interval disables the loop, otherwise the failure map is reset and one
  pass runs immediately and one per tick until cancellation; the passes are the list.\<close>

definition Run_loop :: "pass_env list \<Rightarrow> reconcile_loop \<Rightarrow> nonce_db \<Rightarrow> reconcile_loop \<times> nonce_db" where
  "Run_loop pes l db =
     (if sint (rl_interval l) \<le> 0 then (l, db)
      else foldl (\<lambda>(l', db') pe. tick pe l' db') (l\<lparr>rl_failures := Map.empty\<rparr>, db) pes)"

section \<open>What one tick does to the bindings\<close>

text \<open>The edge one observation drives, and the row it leaves.\<close>

definition auto_target :: "observation \<Rightarrow> binding \<Rightarrow> bstate option" where
  "auto_target obs b =
     (if o_Classification obs = ClassificationUnavailable \<or> o_Classification obs = ClassificationDivergence then None
      else case observeTransitionTarget b (o_LatestCount obs) (o_PendingCount obs) of
          None \<Rightarrow> None
        | Some to \<Rightarrow> if CanAutoTransition (b_State b) to then Some to else None)"

definition reconciled :: "env \<Rightarrow> observation \<Rightarrow> binding \<Rightarrow> binding" where
  "reconciled e obs b = (case auto_target obs b of None \<Rightarrow> b | Some to \<Rightarrow> advanced_binding e to [] b)"

lemma CanAutoTransition_edge: "CanAutoTransition s t \<Longrightarrow> CanTransition s t \<and> t \<noteq> StateReleased"
  by (auto simp: CanAutoTransition_cases CanTransition_cases)

lemma auto_target_edge: "auto_target obs b = Some to \<Longrightarrow> CanTransition (b_State b) to \<and> to \<noteq> StateReleased"
  by (auto simp: auto_target_def dest: CanAutoTransition_edge split: option.splits if_splits)

lemma reconciled_identity: "binding_identity (reconciled e obs b) = binding_identity b"
  by (auto simp: reconciled_def advanced_binding_row split: option.splits)

lemma known_state_not_empty: "known_state s \<Longrightarrow> s \<noteq> StateOther []"
  by (auto simp: known_state_def)

lemma update_where_one:
  assumes "b \<in> set t" "\<And>r. r \<in> set t \<Longrightarrow> P r \<longleftrightarrow> r = b"
  shows "update_where P f t = map (\<lambda>r. if r = b then f b else r) t"
  using assms by (auto simp: update_where_def)

lemma applyObservationTransitionTx_Inr:
  assumes run: "applyObservationTransitionTx e db b obs = Inr (db', w)"
    and inv: "nonce_inv db" and b: "b \<in> set (binding_t db)"
  shows "nonce_inv db' \<and> db_evolves db db' \<and>
    binding_t db' = map (\<lambda>r. if r = b then reconciled e obs b else r) (binding_t db) \<and>
    db' = db\<lparr>binding_t := binding_t db', event_t := event_t db'\<rparr> \<and>
    w = (auto_target obs b \<noteq> None)"
proof (cases "auto_target obs b")
  case None
  with run have "db' = db" "w = False"
    by (auto simp: applyObservationTransitionTx_def auto_target_def split: option.splits if_splits)
  with None inv show ?thesis by (simp add: reconciled_def map_idI)
next
  case (Some to)
  define ev where "ev = \<lparr>ev_BindingID = b_BindingID b, ev_FromState = Some (b_State b), ev_ToState = to,
    ev_ObservationID = o_ObservationID obs, ev_OperationID = [], ev_Detail = ''reconcile''\<rparr>"
  from run Some obtain db1 created moved where
    evt: "insertBindingEventTx e db ev = Inr (db1, created)" and
    adv: "advanceBindingStateTx e db1 (b_BindingID b) to [] (b_State b) = Inr (db', moved)" and w: "w = (created \<or> moved)"
    by (auto simp: applyObservationTransitionTx_def auto_target_def rbind_rules ev_def split: option.splits if_splits)
  have edge: "CanTransition (b_State b) to" using auto_target_edge [OF Some] by simp
  have "known_state (b_State b)" using nonce_inv_row [OF inv b] by (simp add: binding_row_ok_iff)
  then have "ev_FromState ev \<noteq> Some (StateOther [])" by (auto simp: ev_def known_state_def)
  note e1 = insertBindingEventTx_Inr [OF evt this]
  moreover have "event_key ev = (b_BindingID b, to)" by (simp add: ev_def event_key_def)
  ultimately have c: "created" "event_row_ok ev" "db1 = db\<lparr>event_t := event_t db @ [ev]\<rparr>"
    using move_not_logged [OF inv b edge] by auto
  let ?P = "\<lambda>r. b_BindingID r = b_BindingID b \<and> b_State r = b_State b"
  have a: "TerminalConsistent (advanced_binding e to [] b)"
    "db' = db\<lparr>binding_t := update_where ?P (advanced_binding e to []) (binding_t db), event_t := event_t db @ [ev]\<rparr>"
    using advanceBindingStateTx_Inr [OF adv] b by (auto simp: c(3))
  have "nonce_inv db'"
    unfolding a(2) by (rule advance_logged [OF inv b edge a(1)]) (use c(2) in \<open>simp_all add: ev_def event_key_def\<close>)
  moreover have "update_where ?P (advanced_binding e to []) (binding_t db) =
      map (\<lambda>r. if r = b then advanced_binding e to [] b else r) (binding_t db)"
    using binding_unique [OF inv _ b] by (intro update_where_one [OF b]) auto
  moreover have "db_evolves db db'"
    using advance_evolves [OF edge] by (simp add: a(2) db_evolves_def)
  ultimately show ?thesis
    using c(1) w Some by (simp add: a(2) reconciled_def)
qed

lemma binding_frame_trans:
  "db1 = db\<lparr>binding_t := bs, event_t := es\<rparr> \<Longrightarrow> db2 = db1\<lparr>binding_t := bs', event_t := es'\<rparr> \<Longrightarrow>
   db2 = db\<lparr>binding_t := bs', event_t := es'\<rparr>"
  by simp

lemma binding_frame:
  "db' = db\<lparr>binding_t := bs, event_t := es\<rparr> \<Longrightarrow>
   hold_t db' = hold_t db \<and> registry_t db' = registry_t db \<and> audit_t db' = audit_t db \<and>
   observation_t db' = observation_t db \<and> scope_t db' = scope_t db"
  by simp

text \<open>The whole list, each row of which is one of the table.\<close>

lemma applyTransitionsTx_Inr:
  assumes "applyTransitionsTx e db bs obs = Inr db'" "nonce_inv db" "set bs \<subseteq> set (binding_t db)"
    and "distinct bs"
  shows "nonce_inv db' \<and> db_evolves db db' \<and>
    binding_t db' = map (\<lambda>r. if r \<in> set bs then reconciled e obs r else r) (binding_t db) \<and>
    db' = db\<lparr>binding_t := binding_t db', event_t := event_t db'\<rparr>"
  using assms
proof (induction bs arbitrary: db)
  case Nil
  then show ?case by (auto simp: map_idI)
next
  case (Cons b bs)
  from Cons.prems(1) obtain db1 w where
    one: "applyObservationTransitionTx e db b obs = Inr (db1, w)" and
    rest: "applyTransitionsTx e db1 bs obs = Inr db'"
    by (auto simp: rbind_rules)
  have b: "b \<in> set (binding_t db)" using Cons.prems(3) by simp
  note s1 = applyObservationTransitionTx_Inr [OF one Cons.prems(2) b]
  have "set bs \<subseteq> set (binding_t db1)"
  proof
    fix r assume "r \<in> set bs"
    then have "r \<noteq> b" "r \<in> set (binding_t db)" using Cons.prems(3,4) by auto
    with s1 show "r \<in> set (binding_t db1)" by (auto intro: rev_image_eqI)
  qed
  moreover have "nonce_inv db1" "distinct bs" using s1 Cons.prems(4) by auto
  ultimately have s2: "nonce_inv db' \<and> db_evolves db1 db' \<and>
    binding_t db' = map (\<lambda>r. if r \<in> set bs then reconciled e obs r else r) (binding_t db1) \<and>
    db' = db1\<lparr>binding_t := binding_t db', event_t := event_t db'\<rparr>" using Cons.IH [OF rest] by blast
  have "reconciled e obs b \<notin> set bs"
  proof
    assume r: "reconciled e obs b \<in> set bs"
    then have "reconciled e obs b \<in> set (binding_t db)" using Cons.prems(3) by auto
    then have "reconciled e obs b = b"
      using binding_unique [OF Cons.prems(2) _ b] binding_identity_keeps(1) [OF reconciled_identity] by metis
    with r Cons.prems(4) show False by simp
  qed
  with s1 s2 Cons.prems(4) have "binding_t db' = map (\<lambda>r. if r \<in> set (b # bs) then reconciled e obs r else r) (binding_t db)"
    by auto
  moreover have "db' = db\<lparr>binding_t := binding_t db', event_t := event_t db'\<rparr>"
    using s1 s2 binding_frame_trans by blast
  ultimately show ?case using s1 s2 db_evolves_trans by blast
qed

lemma reconciled_obs_id [simp]: "reconciled e (obs\<lparr>o_ObservationID := i\<rparr>) = reconciled e obs"
  by (intro ext) (simp add: reconciled_def auto_target_def)

lemma scope_bindings_distinct: "nonce_inv db \<Longrightarrow> distinct (scope_bindings db chain sender)"
  by (auto simp: scope_bindings_def nonce_inv_def binding_inv_def distinct_map distinct_filter)

section \<open>What one reconcile transaction does\<close>

text \<open>The decision of the scope, and the observation as it is persisted.\<close>

definition classified :: "nonce_db \<Rightarrow> int \<Rightarrow> string \<Rightarrow> observation \<Rightarrow> observation" where
  "classified db chain sender obs =
     obs\<lparr>o_Classification := d_Classification (scope_decision db chain sender obs)\<rparr>"

definition hold_present :: "nonce_db \<Rightarrow> int \<Rightarrow> string \<Rightarrow> hold_cause \<Rightarrow> bool" where
  "hold_present db chain sender cause \<longleftrightarrow>
     has_row (\<lambda>h. active_hold h \<and> hold_slot h = (chain, sender, cause)) (hold_t db)"

lemma establishHoldTx_present:
  assumes "establishHoldTx e db est = Inr (db', h)"
  shows "hold_present db' (he_ChainID est) (he_Sender est) (he_Cause est)"
  using establishHoldTx_Inr [OF assms] by (auto simp: hold_present_def has_row_iff)

definition reconcile_effect :: "env \<Rightarrow> nonce_db \<Rightarrow> int \<Rightarrow> string \<Rightarrow> observation \<Rightarrow> nonce_db \<Rightarrow> bool" where
  "reconcile_effect e db chain sender obs db' \<longleftrightarrow>
     binding_t db' = map (\<lambda>b. if in_binding_scope chain sender b
                              then reconciled e (classified db chain sender obs) b else b) (binding_t db) \<and>
     (d_HoldCause (scope_decision db chain sender obs) \<noteq> NoCause \<longrightarrow>
        hold_present db' chain sender (d_HoldCause (scope_decision db chain sender obs))) \<and>
     (d_HoldCause (scope_decision db chain sender obs) = NoCause \<longrightarrow> hold_t db' = hold_t db) \<and>
     registry_t db' = registry_t db \<and> audit_t db' = audit_t db \<and>
     (\<not> trusted_view obs (d_Classification (scope_decision db chain sender obs)) \<longrightarrow>
        (\<forall>obs2. scope_decision db' chain sender obs2 = scope_decision db chain sender obs2)) \<and>
     (\<exists>i. observation_t db' = observation_t db @ [(classified db chain sender obs)\<lparr>o_ObservationID := i\<rparr>])"

lemma reconcileFinish_Inr:
  assumes "reconcileFinish e db chain sender obs dec i = Inr db'"
  shows "keeps db db' \<and> binding_t db' = binding_t db \<and> registry_t db' = registry_t db \<and>
    audit_t db' = audit_t db \<and> observation_t db' = observation_t db \<and>
    (if d_HoldCause dec = NoCause then hold_t db' = hold_t db
     else hold_present db' chain sender (d_HoldCause dec)) \<and>
    (trusted_view obs (d_Classification dec) \<or> scope_t db' = scope_t db)"
proof -
  from assms obtain db1 where
    hld: "(if d_HoldCause dec \<noteq> NoCause
           then rbind (establishHoldTx e db \<lparr>he_ChainID = chain, he_Sender = sender, he_Cause = d_HoldCause dec,
                  he_ObservationID = i, he_Detail = class_str (d_Classification dec)\<rparr>) (\<lambda>(db1, _). Inr db1)
           else Inr db) = Inr db1" and
    upd: "(if trusted_view obs (d_Classification dec)
           then updateScopeFrontierTx e db1 chain sender (o_LatestCount obs) (o_PendingCount obs) i
           else Inr db1) = Inr db'"
    by (auto simp: reconcileFinish_def rbind_rules)
  have k5: "keeps db db1" "binding_t db1 = binding_t db" "registry_t db1 = registry_t db"
    "audit_t db1 = audit_t db" "observation_t db1 = observation_t db" "scope_t db1 = scope_t db"
    and h5: "if d_HoldCause dec = NoCause then hold_t db1 = hold_t db
      else hold_present db1 chain sender (d_HoldCause dec)"
    using hld
    by (auto simp: rbind_rules split: if_splits dest: establishHoldTx_present establishHoldTx_keeps establishHoldTx_Inr)
  have k6: "keeps db1 db'" "binding_t db' = binding_t db1" "registry_t db' = registry_t db1"
    "audit_t db' = audit_t db1" "observation_t db' = observation_t db1" "hold_t db' = hold_t db1"
    "trusted_view obs (d_Classification dec) \<or> scope_t db' = scope_t db1"
    using upd by (auto split: if_splits dest: updateScopeFrontierTx_Inr updateScopeFrontierTx_keeps)
  have "keeps db db'" using k5(1) k6(1) by (rule keeps_trans)
  with k5 k6 h5 show ?thesis by (auto simp: hold_present_def)
qed

lemma auto_target_untrusted:
  "\<not> trusted_view obs (o_Classification obs) \<Longrightarrow> auto_target obs b = None"
  by (auto simp: auto_target_def trusted_view_def observeTransitionTarget_def split: option.splits)

lemma reconcileScopeInTx_Inr:
  assumes run: "reconcileScopeInTx e db chain sender obs = Inr db'" and inv: "nonce_inv db"
  shows "nonce_inv db' \<and> db_evolves db db' \<and> reconcile_effect e db chain sender obs db'"
proof -
  obtain ls where ls: "lockChain e db chain = Inr (db\<lparr>lease_t := ls\<rparr>)"
    using run lockChain_Inr by (fastforce simp: reconcileScopeInTx_def rbind_rules)
  define db1 where "db1 = db\<lparr>lease_t := ls\<rparr>"
  obtain db2 where ens: "ensureScopeRowTx e db1 chain sender = Inr db2"
    using run ls by (auto simp: reconcileScopeInTx_def rbind_rules db1_def)
  have k2: "keeps db db2"
    using lockChain_keeps [OF ls] ensureScopeRowTx_keeps [OF ens] keeps_trans by (auto simp: db1_def)
  note i2 = keeps_inv [OF k2 inv]
  have f2: "binding_t db2 = binding_t db" "hold_t db2 = hold_t db" "registry_t db2 = registry_t db"
    "audit_t db2 = audit_t db" "observation_t db2 = observation_t db"
    using ensureScopeRowTx_Inr [OF ens] by (auto simp: db1_def)
  have dec2: "scope_decision db2 chain sender ob = scope_decision db chain sender ob" for ob
    using ensureScopeRowTx_decision [OF ens] by (simp add: scope_decision_def db1_def scope_bindings_def)
  define dec where "dec = scope_decision db chain sender obs"
  define obs1 where "obs1 = classified db chain sender obs"
  obtain db3 i db4 where
    ins: "insertObservationTx e db2 obs1 = Inr (db3, i)" and
    trs: "applyTransitionsTx e db3 (scope_bindings db2 chain sender) (obs1\<lparr>o_ObservationID := i\<rparr>) = Inr db4" and
    fin: "reconcileFinish e db4 chain sender obs dec i = Inr db'"
    using run ls ens dec2 [of obs, symmetric]
    by (auto simp: reconcileScopeInTx_def rbind_rules read_rules [OF i2] Let_def db1_def obs1_def
        classified_def dec_def scope_decision_def [of db2])
  note i3 = keeps_inv [OF insertObservationTx_keeps [OF ins] i2]
  have f3: "db3 = db2\<lparr>observation_t := observation_t db2 @ [obs1\<lparr>o_ObservationID := i\<rparr>]\<rparr>"
    using insertObservationTx_Inr [OF ins] by blast
  have "set (scope_bindings db2 chain sender) \<subseteq> set (binding_t db3)"
    by (auto simp: set_scope_bindings f3)
  note t4 = applyTransitionsTx_Inr [OF trs i3 this scope_bindings_distinct [OF i2]]
  have b4: "binding_t db4 = map (\<lambda>b. if in_binding_scope chain sender b then reconciled e obs1 b else b) (binding_t db)"
    using t4 by (simp add: f3 f2 set_scope_bindings)
  have "db4 = db3\<lparr>binding_t := binding_t db4, event_t := event_t db4\<rparr>" using t4 by blast
  note f4 = binding_frame [OF this]
  note f5 = reconcileFinish_Inr [OF fin]
  have "nonce_inv db'" using t4 f5 by (blast intro: keeps_inv)
  moreover have "db_evolves db db'"
  proof -
    have "db_evolves db db3"
      using keeps_evolves [OF k2] keeps_evolves [OF insertObservationTx_keeps [OF ins]] by (rule db_evolves_trans)
    also have "db_evolves db3 db4" using t4 by simp
    also have "db_evolves db4 db'" using f5 by (simp add: keeps_evolves)
    finally show ?thesis .
  qed
  moreover have "scope_decision db' chain sender ob = scope_decision db chain sender ob"
    if nt: "\<not> trusted_view obs (d_Classification dec)" for ob
  proof -
    have "auto_target obs1 b = None" for b
      using nt by (intro auto_target_untrusted) (simp add: obs1_def classified_def dec_def trusted_view_def)
    then have "binding_t db' = binding_t db" using b4 f5 by (simp add: reconciled_def map_idI)
    moreover have "scope_t db' = scope_t db2" using f4 f5 nt by (simp add: f3)
    ultimately show ?thesis using dec2 [of ob] by (simp add: scope_decision_def scope_bindings_def f2)
  qed
  then have "reconcile_effect e db chain sender obs db'"
    using b4 f4 f5 by (auto simp: reconcile_effect_def f3 f2 simp flip: dec_def obs1_def split: if_splits)
  ultimately show ?thesis by blast
qed

end
