(* ===== verification/NonceReconcileSpec.thy ===== *)
theory NonceReconcileSpec
  imports NonceReconcile
begin

text \<open>
  What the reconcile loop guarantees: the transaction of one scope against a closed form of the binding
  states it must leave, its success in a healthy environment and its idempotence; the pass over the known
  scopes with the isolation of failing ones; and the bounds of the per-scope backoff.
\<close>

section \<open>The transaction returns\<close>

lemma reconciled_row_ok:
  assumes "binding_row_ok b" "auto_target obs b = Some to"
  shows "TerminalConsistent (advanced_binding e to [] b)"
  using assms auto_target_edge [OF assms(2)]
  by (auto simp: binding_row_ok_iff TerminalConsistent_def advanced_binding_def CanTransition_cases split: if_splits)

lemma applyObservationTransitionTx_total:
  assumes nf: "\<And>s. fault e s = None" and inv: "nonce_inv db" and b: "b \<in> set (binding_t db)"
  shows "\<exists>x. applyObservationTransitionTx e db b obs = Inr x"
proof (cases "auto_target obs b")
  case None
  then show ?thesis
    by (auto simp: applyObservationTransitionTx_def auto_target_def split: option.splits if_splits)
next
  case (Some to)
  let ?ev = "\<lparr>ev_BindingID = b_BindingID b, ev_FromState = Some (b_State b), ev_ToState = to,
    ev_ObservationID = o_ObservationID obs, ev_OperationID = [], ev_Detail = ''reconcile''\<rparr>"
  have ok: "binding_row_ok b" using nonce_inv_row [OF inv b] .
  have edge: "CanTransition (b_State b) to" using auto_target_edge [OF Some] by simp
  have known: "known_state (b_State b)" using ok by (simp add: binding_row_ok_iff)
  have "event_row_ok ?ev" "ev_FromState ?ev \<noteq> Some (StateOther [])"
    using known edge by (auto simp: event_row_ok_def CanTransition_cases known_state_def)
  then obtain db1 c where evt: "insertBindingEventTx e db ?ev = Inr (db1, c)"
    using insertBindingEventTx_total [OF nf] by blast
  have "binding_t db1 = binding_t db"
    using insertBindingEventTx_Inr [OF evt] known by (auto simp: known_state_def)
  moreover have "TerminalConsistent (advanced_binding e to [] r)"
    if "r \<in> set (binding_t db)" "b_BindingID r = b_BindingID b" for r
    using reconciled_row_ok [OF ok Some] binding_unique [OF inv that(1) b that(2)] by simp
  ultimately have "\<exists>x. advanceBindingStateTx e db1 (b_BindingID b) to [] (b_State b) = Inr x"
    using edge nf by (auto simp: advanceBindingStateTx_def Let_def has_row_iff)
  with evt Some show ?thesis
    by (auto simp: applyObservationTransitionTx_def auto_target_def split: option.splits if_splits)
qed

lemma applyTransitionsTx_total:
  assumes "\<And>s. fault e s = None" "nonce_inv db" "set bs \<subseteq> set (binding_t db)" "distinct bs"
  shows "\<exists>x. applyTransitionsTx e db bs obs = Inr x"
  using assms(2-)
proof (induction bs arbitrary: db)
  case (Cons b bs)
  obtain db1 w where one: "applyObservationTransitionTx e db b obs = Inr (db1, w)"
    using applyObservationTransitionTx_total [OF assms(1)] Cons.prems by (metis list.set_intros(1) subset_code(1) surj_pair)
  note s1 = applyObservationTransitionTx_Inr [OF one Cons.prems(1)]
  have "b \<in> set (binding_t db)" using Cons.prems by simp
  with s1 have "nonce_inv db1" "set bs \<subseteq> set (binding_t db1)"
    using Cons.prems by (auto simp: subset_eq intro: rev_image_eqI)
  with Cons.IH Cons.prems(3) one show ?case by auto
qed simp

lemma registered_ok:
  assumes "nonce_inv db" "registered db chain sender"
  shows "chain > 0 \<and> sender_ok sender"
  using assms nonce_inv_registry_row by (force simp: registered_def has_row_iff registry_row_ok_def)

lemma reconcileFinish_total:
  assumes nf: "\<And>s. fault e s = None" and inv: "nonce_inv db" and reg: "registered db chain sender"
    and mint: "fresh_mint e MintHold ''nh-'' (map h_HoldID (hold_t db))"
    and scope: "has_row (in_scope chain sender) (scope_t db)" and smp: "sampled chain sender obs"
    and dec: "dec = Classify i" and oid: "oid \<noteq> []"
  shows "\<exists>x. reconcileFinish e db chain sender obs dec oid = Inr x"
proof -
  let ?est = "\<lparr>he_ChainID = chain, he_Sender = sender, he_Cause = d_HoldCause dec,
    he_ObservationID = oid, he_Detail = class_str (d_Classification dec)\<rparr>"
  have "\<exists>db1. (if d_HoldCause dec \<noteq> NoCause then rbind (establishHoldTx e db ?est) (\<lambda>(db1, _). Inr db1)
      else Inr db) = Inr db1 \<and> keeps db db1 \<and> scope_t db1 = scope_t db"
  proof (cases "d_HoldCause dec = NoCause")
    case False
    then obtain db1 h where "establishHoldTx e db ?est = Inr (db1, h)"
      using establishHoldTx_total [OF nf mint, of ?est] Classify_hold_cause [of i] registered_ok [OF inv reg] reg oid
      by (auto simp: dec)
    then show ?thesis using False establishHoldTx_effect by fastforce
  qed simp
  then obtain db1 where hld: "(if d_HoldCause dec \<noteq> NoCause
      then rbind (establishHoldTx e db ?est) (\<lambda>(db1, _). Inr db1) else Inr db) = Inr db1"
    "keeps db db1" "scope_t db1 = scope_t db" by blast
  have "\<exists>x. updateScopeFrontierTx e db1 chain sender (o_LatestCount obs) (o_PendingCount obs) oid = Inr x"
    if "trusted_view obs (d_Classification dec)"
    using updateScopeFrontierTx_total [OF nf keeps_inv [OF hld(2) inv] _ oid] trusted_counts [OF smp that] scope hld(3)
    by simp
  with hld(1) show ?thesis by (auto simp: reconcileFinish_def)
qed

lemma reconcileScopeInTx_total:
  assumes h: "healthy e db" and inv: "nonce_inv db" and reg: "registered db chain sender"
    and smp: "sampled chain sender obs"
  shows "\<exists>x. reconcileScopeInTx e db chain sender obs = Inr x"
proof -
  have nf: "fault e s = None" for s using h by (rule healthy_fault)
  have cs: "chain > 0" "sender_ok sender" using registered_ok [OF inv reg] by simp_all
  obtain ls where lock: "lockChain e db chain = Inr (db\<lparr>lease_t := ls\<rparr>)" using nf by (rule lockChain_total)
  define db1 where "db1 = db\<lparr>lease_t := ls\<rparr>"
  have i1: "nonce_inv db1" using inv lockChain_inv [OF lock] by (simp add: db1_def)
  have r1: "registered db1 chain sender" using reg by (simp add: db1_def registered_def)
  obtain db2 where ens: "ensureScopeRowTx e db1 chain sender = Inr db2"
    using ensureScopeRowTx_total [OF nf cs r1] by blast
  have i2: "nonce_inv db2" using ensureScopeRowTx_keeps [OF ens] i1 by (rule keeps_inv)
  note s2 = ensureScopeRowTx_Inr [OF ens]
  have h2: "healthy e db2" using h s2 by (auto simp: healthy_def db1_def)
  have r2: "registered db2 chain sender" using r1 ensureScopeRowTx_frame [OF ens] by (simp add: registered_def)
  let ?dec = "scope_classify obs (List.find (in_scope chain sender) (scope_t db2)) (scope_bindings db2 chain sender)"
  let ?obs = "obs\<lparr>o_Classification := d_Classification ?dec\<rparr>"
  obtain i where ins: "insertObservationTx e db2 ?obs =
      Inr (db2\<lparr>observation_t := observation_t db2 @ [?obs\<lparr>o_ObservationID := i\<rparr>]\<rparr>, i)" "i \<noteq> []"
    using insertObservationTx_total [OF h2 smp cs] Classify_persistable unfolding scope_classify_def by blast
  define db3 where "db3 = db2\<lparr>observation_t := observation_t db2 @ [?obs\<lparr>o_ObservationID := i\<rparr>]\<rparr>"
  have i3: "nonce_inv db3" using insertObservationTx_keeps [OF ins(1)] i2 by (auto simp: db3_def intro: keeps_inv)
  have sub: "set (scope_bindings db2 chain sender) \<subseteq> set (binding_t db3)"
    by (auto simp: set_scope_bindings db3_def)
  obtain db4 where trs: "applyTransitionsTx e db3 (scope_bindings db2 chain sender) (?obs\<lparr>o_ObservationID := i\<rparr>) = Inr db4"
    using applyTransitionsTx_total [OF nf i3 sub scope_bindings_distinct [OF i2]] by blast
  note t4 = applyTransitionsTx_Inr [OF trs i3 sub scope_bindings_distinct [OF i2]]
  then have "db4 = db3\<lparr>binding_t := binding_t db4, event_t := event_t db4\<rparr>" by blast
  note f4 = binding_frame [OF this]
  have "\<exists>x. reconcileFinish e db4 chain sender obs ?dec i = Inr x"
    using t4 r2 h2 s2 f4 ins(2)
    by (intro reconcileFinish_total [OF nf _ _ _ _ smp scope_classify_def])
      (auto simp: registered_def db3_def healthy_def)
  moreover have "lockScopeRowTx e db2 chain sender = Inr ()" using s2 nf by (simp add: lockScopeRowTx_def)
  ultimately show ?thesis
    using lock ens ins trs by (auto simp: reconcileScopeInTx_def Let_def read_rules [OF i2] nf db1_def db3_def)
qed

lemma reconcileScope_success:
  "reconcileScope e db chain sender obs = (db', None) \<longleftrightarrow>
     fault e BeginTx = None \<and> reconcileScopeInTx e db chain sender obs = Inr db' \<and> fault e CommitTx = None"
  by (auto simp: reconcileScope_def split: option.splits sum.splits)

lemma reconcileScope_keeps:
  assumes "nonce_inv db" "reconcileScope e db chain sender obs = (db', r)"
  shows "nonce_inv db' \<and> db_evolves db db'"
  using assms reconcileScopeInTx_Inr [OF _ assms(1)]
  by (auto simp: reconcileScope_def committed_def split: option.splits sum.splits if_splits)

section \<open>One scope\<close>

text \<open>The state the chain view dictates for a binding of the scope.\<close>

definition observed_state :: "int \<Rightarrow> int \<Rightarrow> binding \<Rightarrow> bstate" where
  "observed_state l p b =
     (if IsTerminal (b_State b) then b_State b
      else if the (b_Nonce b) < l then StateConsumed
      else if the (b_Nonce b) < p then StateInFlight
      else b_State b)"

lemma reconciled_state:
  assumes "binding_row_ok b" "trusted_view obs (o_Classification obs)"
  shows "b_State (reconciled e obs b) =
    observed_state (the (o_LatestCount obs)) (the (o_PendingCount obs)) b"
proof -
  obtain n l p where nlp: "b_Nonce b = Some n" "o_LatestCount obs = Some l" "o_PendingCount obs = Some p"
    using assms by (auto simp: trusted_view_def binding_row_ok_iff nonce_col_ok_def split: option.splits)
  moreover have "known_state (b_State b)" using assms by (simp add: binding_row_ok_iff)
  ultimately show ?thesis
    using assms(2)
    by (auto simp: reconciled_def auto_target_def observeTransitionTarget_def observed_state_def trusted_view_def
        IsTerminal_def CanAutoTransition_cases known_state_def advanced_binding_row)
qed

text \<open>C4: a reconcile tick leaves exactly the states the chain dictates. When the transaction of a scope
  commits on an invariant database, no binding changes its identity (id, intent, scope, nonce,
  authorization) and the invariant holds; a trusted view moves every non-terminal binding of the scope whose
  nonce lies below the latest count to \<open>consumed\<close>, one below the pending count to \<open>in_flight\<close>, and no
  other; terminal bindings and other scopes keep their state; an unavailable or divergent view moves
  nothing, and a hold cause of the matrix is held afterwards.\<close>

theorem reconcileScope_refines:
  assumes inv: "nonce_inv db" and run: "reconcileScope e db chain sender obs = (db', None)"
  shows "nonce_inv db' \<and> map binding_identity (binding_t db') = map binding_identity (binding_t db) \<and>
    map b_State (binding_t db') =
      map (\<lambda>b. if in_binding_scope chain sender b \<and>
                  trusted_view obs (d_Classification (scope_decision db chain sender obs))
               then observed_state (the (o_LatestCount obs)) (the (o_PendingCount obs)) b else b_State b)
        (binding_t db) \<and>
    (d_HoldCause (scope_decision db chain sender obs) \<noteq> NoCause \<longrightarrow>
       hold_present db' chain sender (d_HoldCause (scope_decision db chain sender obs)))"
proof -
  let ?obs = "classified db chain sender obs"
  have tx: "reconcileScopeInTx e db chain sender obs = Inr db'" using run by (simp add: reconcileScope_success)
  note eff = reconcileScopeInTx_Inr [OF tx inv]
  have view: "trusted_view ?obs (o_Classification ?obs) =
      trusted_view obs (d_Classification (scope_decision db chain sender obs))"
    by (simp add: classified_def trusted_view_def)
  have st: "b_State (reconciled e ?obs b) =
      (if trusted_view obs (d_Classification (scope_decision db chain sender obs))
       then observed_state (the (o_LatestCount obs)) (the (o_PendingCount obs)) b else b_State b)"
    if "b \<in> set (binding_t db)" for b
    using reconciled_state [OF nonce_inv_row [OF inv that], of ?obs e] auto_target_untrusted [of ?obs b] view
    by (auto simp: reconciled_def classified_def)
  have "map binding_identity (binding_t db') = map binding_identity (binding_t db)"
    using eff by (auto simp: reconcile_effect_def reconciled_identity)
  moreover have "map b_State (binding_t db') =
      map (\<lambda>b. if in_binding_scope chain sender b \<and>
                  trusted_view obs (d_Classification (scope_decision db chain sender obs))
               then observed_state (the (o_LatestCount obs)) (the (o_PendingCount obs)) b else b_State b)
        (binding_t db)"
    using eff st by (auto simp: reconcile_effect_def)
  ultimately show ?thesis using eff by (auto simp: reconcile_effect_def)
qed

lemma demo_bound_healthy: "healthy demo_env demo_bound_db"
  by (simp add: healthy_def fresh_mint_def demo_env_def demo_bound_db_def demo_db_def demo_binding_def hex_encode_def)

lemma demo_bound_tables:
  "binding_t demo_bound_db = [demo_binding]" "hold_t demo_bound_db = []" "observation_t demo_bound_db = []"
  "in_binding_scope 1 demo_sender demo_binding"
  by (simp_all add: demo_bound_db_def demo_db_def in_binding_scope_def demo_binding_def)

lemma demo_bound_registered: "registered demo_bound_db 1 demo_sender"
  by (simp add: registered_def demo_bound_db_def demo_db_def has_row_def)

lemma demo_reconciles:
  assumes "0 \<le> l" "l \<le> 1000" "0 \<le> p" "p \<le> 1000"
  obtains db' where "reconcileScope demo_env demo_bound_db 1 demo_sender (demo_obs l p) = (db', None)"
  using reconcileScopeInTx_total [OF demo_bound_healthy demo_bound_inv demo_bound_registered demo_sampled [OF assms]]
    healthy_fault [OF demo_bound_healthy] by (auto simp: reconcileScope_success)

lemma demo_bound_decision:
  "scope_decision demo_bound_db 1 demo_sender (demo_obs 1 1) = admitted_at ClassificationConsistent (Some 1)"
  by code_simp

theorem reconcileScope_refines_witness:
  "\<exists>db'. reconcileScope demo_env demo_bound_db 1 demo_sender (demo_obs 1 1) = (db', None) \<and>
     map b_State (binding_t db') = [StateConsumed]"
proof -
  obtain db' where run: "reconcileScope demo_env demo_bound_db 1 demo_sender (demo_obs 1 1) = (db', None)"
    by (rule demo_reconciles [of 1 1]) simp_all
  have "map b_State (binding_t db') = [StateConsumed]"
    using reconcileScope_refines [OF demo_bound_inv run] unfolding demo_bound_decision
    by (simp add: demo_bound_db_def demo_binding_def demo_obs_def in_binding_scope_def trusted_view_def
        admitted_at_def observed_state_def IsTerminal_def)
  with run show ?thesis by auto
qed

text \<open>C31: a reconcile tick succeeds. On an invariant database, for a registered scope, with a well-formed
  sample (an unavailable one included) and in an environment where no statement fails and minted identifiers
  are new, the transaction commits.\<close>

theorem reconcileScope_succeeds:
  assumes "healthy e db" "nonce_inv db" "registered db chain sender" "sampled chain sender obs"
  shows "\<exists>db'. reconcileScope e db chain sender obs = (db', None)"
  using reconcileScopeInTx_total [OF assms] healthy_fault [OF assms(1)] by (simp add: reconcileScope_success)

theorem reconcileScope_succeeds_witness:
  "\<exists>db'. reconcileScope demo_env demo_bound_db 1 demo_sender (demo_obs 5 3) = (db', None)"
  using reconcileScope_succeeds [OF demo_bound_healthy demo_bound_inv demo_bound_registered demo_sampled [of 5 3]]
  by simp

lemma reconciled_again:
  assumes "binding_row_ok b" "o_LatestCount obs2 = o_LatestCount obs" "o_PendingCount obs2 = o_PendingCount obs"
    and "trusted_view obs (o_Classification obs)"
  shows "reconciled e2 obs2 (reconciled e obs b) = reconciled e obs b"
proof -
  obtain n l p where nlp: "b_Nonce b = Some n" "o_LatestCount obs = Some l" "o_PendingCount obs = Some p"
    using assms by (auto simp: trusted_view_def binding_row_ok_iff nonce_col_ok_def split: option.splits)
  moreover have "known_state (b_State b)" using assms by (simp add: binding_row_ok_iff)
  moreover have "b_Nonce (reconciled e obs b) = Some n"
    using nlp(1) reconciled_identity [of e obs b] by (simp add: binding_identity_def)
  ultimately have "auto_target obs2 (reconciled e obs b) = None"
    using assms reconciled_state [OF assms(1,4), of e]
    by (auto simp: auto_target_def observeTransitionTarget_def observed_state_def trusted_view_def
        IsTerminal_def CanAutoTransition_cases known_state_def)
  then show ?thesis by (simp add: reconciled_def)
qed

text \<open>Reconciling is idempotent. Repeating a committed tick with the same chain view, at any later time
  and in any environment in which it commits again, changes no binding row.\<close>

lemma reconcileScope_idempotent:
  assumes inv: "nonce_inv db" and r1: "reconcileScope e db chain sender obs = (db1, None)"
    and r2: "reconcileScope e2 db1 chain sender obs = (db2, None)"
  shows "binding_t db2 = binding_t db1"
proof -
  let ?o1 = "classified db chain sender obs" and ?o2 = "classified db1 chain sender obs"
  have t1: "reconcileScopeInTx e db chain sender obs = Inr db1" and t2: "reconcileScopeInTx e2 db1 chain sender obs = Inr db2"
    using r1 r2 by (simp_all add: reconcileScope_success)
  note e1 = reconcileScopeInTx_Inr [OF t1 inv]
  then have "nonce_inv db1" by blast
  note e2 = reconcileScopeInTx_Inr [OF t2 this]
  have "reconciled e2 ?o2 b' = b'" if b': "b' \<in> set (binding_t db1)" "in_binding_scope chain sender b'" for b'
  proof (cases "trusted_view obs (d_Classification (scope_decision db chain sender obs))")
    case True
    then have view: "trusted_view ?o1 (o_Classification ?o1)" by (simp add: classified_def trusted_view_def)
    have "binding_t db1 = map (\<lambda>b. if in_binding_scope chain sender b then reconciled e ?o1 b else b) (binding_t db)"
      using e1 by (simp add: reconcile_effect_def)
    then obtain b where b: "b \<in> set (binding_t db)" "b' = (if in_binding_scope chain sender b then reconciled e ?o1 b else b)"
      using b'(1) by auto
    have "in_binding_scope chain sender b"
      using b(2) b'(2) by (simp split: if_splits)
    then have "b' = reconciled e ?o1 b" using b(2) by simp
    then show ?thesis
      using reconciled_again [OF nonce_inv_row [OF inv b(1)] _ _ view, of ?o2 e2 e] by (simp add: classified_def)
  next
    case False
    then have "scope_decision db1 chain sender obs = scope_decision db chain sender obs"
      using e1 by (simp add: reconcile_effect_def)
    with False show ?thesis
      using auto_target_untrusted [of ?o2 b'] by (simp add: reconciled_def classified_def trusted_view_def)
  qed
  then show ?thesis using e2 by (auto simp: reconcile_effect_def map_idI)
qed

lemma demo_hex: "hex_encode [3, 4] \<noteq> hex_encode [5, 6]"
  by code_simp

lemma demo_reconciled:
  "b_State (reconciled demo_env (classified demo_bound_db 1 demo_sender (demo_obs 1 1)) demo_binding) = StateConsumed"
  "b_BindingID (reconciled demo_env (classified demo_bound_db 1 demo_sender (demo_obs 1 1)) demo_binding) = ''nb-1''"
  by code_simp+

section \<open>The backoff\<close>

text \<open>Delays are signed 64-bit nanoseconds; below the top three bits no product of the loop wraps.\<close>

lemma sint_small: "0 < x \<Longrightarrow> x < 2 ^ 63 \<Longrightarrow> sint (word_of_int x :: duration) = x"
  by (simp add: signed_of_int signed_take_bit_int_eq_self)

lemma sint_scaled:
  assumes "0 < i" "i * 8 < 2 ^ 63" "k \<le> 3"
  shows "sint (word_of_int (i * 2 ^ k) :: duration) = i * 2 ^ k"
proof -
  have "(2::int) ^ k \<le> 2 ^ 3" using assms(3) by (intro power_increasing) auto
  then have "i * 2 ^ k \<le> i * 8" using assms(1) by simp
  then have "i * 2 ^ k < 2 ^ 63" using assms(2) by linarith
  moreover have "0 < i * 2 ^ k" using assms(1) by simp
  ultimately show ?thesis by (intro sint_small)
qed

lemma backoff_loop_scaled:
  assumes "0 < i" "i * 8 < 2 ^ 63"
  shows "k \<le> 3 \<Longrightarrow> backoff_loop n (word_of_int (i * 2 ^ k)) (word_of_int (i * 2 ^ 3)) =
    word_of_int (i * 2 ^ min (k + n) 3)"
proof (induction n arbitrary: k)
  case 0
  then show ?case by (simp add: min_def)
next
  case (Suc n)
  note s = sint_scaled [OF assms]
  show ?case
  proof (cases "k < 3")
    case True
    then have "(2::int) ^ k < 2 ^ 3" by (intro power_strict_increasing) auto
    then have "i * 2 ^ k < i * 2 ^ 3" using assms(1) by (rule mult_strict_left_mono)
    then have "sint (word_of_int (i * 2 ^ k) :: duration) < sint (word_of_int (i * 2 ^ 3) :: duration)"
      unfolding s [OF Suc.prems] s [OF order_refl] .
    moreover have "(word_of_int (i * 2 ^ k) :: duration) * 2 = word_of_int (i * 2 ^ Suc k)"
      by (simp add: mult.assoc mult.commute)
    ultimately have "backoff_loop (Suc n) (word_of_int (i * 2 ^ k)) (word_of_int (i * 2 ^ 3)) =
        backoff_loop n (word_of_int (i * 2 ^ Suc k)) (word_of_int (i * 2 ^ 3) :: duration)"
      by (simp only: backoff_loop.simps if_True)
    also have "\<dots> = word_of_int (i * 2 ^ min (Suc k + n) 3)" using True by (intro Suc.IH) simp
    finally show ?thesis by simp
  next
    case False
    then have "k = 3" using Suc.prems by simp
    then show ?thesis by (simp add: min_def)
  qed
qed

text \<open>C32: the backoff is exponential, capped and never negative. For every positive interval and every
  streak the delay is positive; as long as eight intervals fit a signed 64-bit duration it is exactly
  the interval doubled once per repeated failure, at most eight intervals; a non-positive interval gives no delay.\<close>

theorem reconcileBackoff_bounded:
  "(0 < sint interval \<longrightarrow> 0 < sint (reconcileBackoff interval streak)) \<and>
   (0 < sint interval \<and> sint interval * 8 < 2 ^ 63 \<longrightarrow>
      sint (reconcileBackoff interval streak) = sint interval * 2 ^ min (streak - 1) 3) \<and>
   (sint interval \<le> 0 \<longrightarrow> reconcileBackoff interval streak = 0)"
proof -
  have "sint (reconcileBackoff interval streak) = sint interval * 2 ^ min (streak - 1) 3"
    if pos: "0 < sint interval" and fits: "sint interval * 8 < 2 ^ 63"
  proof -
    define i where "i = sint interval"
    define m d :: duration where "m = word_of_int (i * 2 ^ 3)" and "d = word_of_int (i * 2 ^ min (streak - 1) 3)"
    note s = sint_scaled [OF pos [folded i_def] fits [folded i_def]]
    have sm: "sint m = i * 2 ^ 3" and sd: "sint d = i * 2 ^ min (streak - 1) 3"
      unfolding m_def d_def by (rule s, simp)+
    have mx: "interval * reconcileBackoffMaxMultiplier = m"
      by (simp add: i_def m_def reconcileBackoffMaxMultiplier_def)
    have lp: "backoff_loop (streak - 1) interval m = d"
      using backoff_loop_scaled [OF pos [folded i_def] fits [folded i_def], of 0 "streak - 1"]
      by (simp add: i_def m_def d_def)
    have "(2::int) ^ min (streak - 1) 3 \<le> 2 ^ 3" by (intro power_increasing) auto
    then have "sint d \<le> sint m" unfolding sm sd using pos by (intro mult_left_mono) (auto simp: i_def)
    moreover have "0 < sint d" "0 < sint m" using pos by (simp_all add: sm sd i_def)
    ultimately have "reconcileBackoff interval streak = d"
      using pos mx lp by (simp add: reconcileBackoff_def Let_def)
    then show ?thesis by (simp add: sd i_def)
  qed
  moreover have "0 < sint (reconcileBackoff interval streak)" if "0 < sint interval"
    using that by (auto simp: reconcileBackoff_def Let_def)
  ultimately show ?thesis by (auto simp: reconcileBackoff_def)
qed

theorem reconcileBackoff_bounded_witness:
  "sint (reconcileBackoff 5000000000 3) = 20000000000 \<and> sint (reconcileBackoff 5000000000 9) = 40000000000"
  using reconcileBackoff_bounded [of 5000000000 3] reconcileBackoff_bounded [of 5000000000 9] by simp

text \<open>The guard of the cap compares the product with zero, so a product that wraps to a positive value
  passes it: eight intervals of \<open>2 ^ 61 + 1\<close> nanoseconds give a cap of eight nanoseconds.\<close>

lemma reconcileBackoff_cap_wraps: "sint (reconcileBackoff (2 ^ 61 + 1) 1) = 8"
  by (simp add: reconcileBackoff_def reconcileBackoffMaxMultiplier_def)

section \<open>The pass over the known scopes\<close>

text \<open>The failure entry of a scope whose attempt failed now.\<close>

definition failed_again :: "reconcile_loop \<Rightarrow> string \<Rightarrow> instant \<Rightarrow> reconcile_failure" where
  "failed_again l sender now =
     (let streak = (case rl_failures l sender of None \<Rightarrow> 1 | Some f \<Rightarrow> rf_streak f + 1)
      in \<lparr>rf_streak = streak, rf_nextAttempt = now + sint (reconcileBackoff (rl_interval l) streak)\<rparr>)"

text \<open>One attempt of the pass: it started from a database the pass had reached, it did its own
  transaction, and the entry says whether that transaction committed.\<close>

definition attempted_once ::
  "pass_env \<Rightarrow> reconcile_loop \<Rightarrow> nonce_db \<Rightarrow> nonce_db \<Rightarrow> string \<Rightarrow> reconcile_failure option \<Rightarrow> bool" where
  "attempted_once pe l db db' sender entry \<longleftrightarrow>
     (\<exists>db1 db2 r. nonce_inv db1 \<and> db_evolves db db1 \<and> db_evolves db2 db' \<and>
        reconcileScope (pe_env pe sender) db1 (rl_chainID l) sender (pe_obs pe sender) = (db2, r) \<and>
        entry = (if r = None then None else Some (failed_again l sender (pe_now pe))))"

lemma recordFailure_sels [simp]:
  "rl_failures (recordFailure l sender now) = (rl_failures l)(sender \<mapsto> failed_again l sender now)"
  "rl_chainID (recordFailure l sender now) = rl_chainID l" "rl_interval (recordFailure l sender now) = rl_interval l"
  by (simp_all add: recordFailure_def failed_again_def Let_def)

lemma failed_again_cong:
  "rl_failures l s = rl_failures l' s \<Longrightarrow> rl_interval l = rl_interval l' \<Longrightarrow> failed_again l s now = failed_again l' s now"
  by (simp add: failed_again_def)

definition after_attempt :: "reconcile_loop \<Rightarrow> string \<Rightarrow> instant \<Rightarrow> terr option \<Rightarrow> reconcile_loop" where
  "after_attempt l sender now r =
     (if r = None then l\<lparr>rl_failures := (rl_failures l)(sender := None)\<rparr> else recordFailure l sender now)"

lemma after_attempt_sels [simp]:
  "rl_failures (after_attempt l sender now r) =
     (rl_failures l)(sender := (if r = None then None else Some (failed_again l sender now)))"
  "rl_chainID (after_attempt l sender now r) = rl_chainID l"
  "rl_interval (after_attempt l sender now r) = rl_interval l"
  by (simp_all add: after_attempt_def)

text \<open>The three ways a pass can go on at a scope.\<close>

lemma tick_scopes_ConsE:
  assumes "tick_scopes pe l db (s # rest) = (l', db', c)"
  obtains (cancelled) "l' = l" "\<not> c" "pe_cancelledBefore pe s \<or> pe_cancelledAfter pe s"
      "db' = db \<or> (\<exists>r. reconcileScope (pe_env pe s) db (rl_chainID l) s (pe_obs pe s) = (db', r))"
  | (skipped) "deferred l (pe_now pe) s" "tick_scopes pe l db rest = (l', db', c)"
  | (ran) db1 r where "\<not> deferred l (pe_now pe) s"
      "reconcileScope (pe_env pe s) db (rl_chainID l) s (pe_obs pe s) = (db1, r)"
      "tick_scopes pe (after_attempt l s (pe_now pe) r) db1 rest = (l', db', c)"
proof -
  obtain db1 r where run: "reconcileScope (pe_env pe s) db (rl_chainID l) s (pe_obs pe s) = (db1, r)"
    by (rule prod.exhaust)
  show thesis
    using assms run cancelled skipped ran by (cases r) (auto simp: after_attempt_def split: if_splits)
qed

lemma tick_scopes_keeps:
  "tick_scopes pe l db ss = (l', db', c) \<Longrightarrow> nonce_inv db \<Longrightarrow> nonce_inv db' \<and> db_evolves db db'"
proof (induction ss arbitrary: l db)
  case (Cons s rest)
  from Cons.prems(1) show ?case
  proof (cases rule: tick_scopes_ConsE)
    case cancelled
    then show ?thesis using reconcileScope_keeps Cons.prems(2) by fastforce
  next
    case skipped
    then show ?thesis using Cons by blast
  next
    case (ran db1 r)
    note k = reconcileScope_keeps [OF Cons.prems(2) ran(2)]
    then have "nonce_inv db' \<and> db_evolves db1 db'" using Cons.IH [OF ran(3)] by blast
    with k show ?thesis using db_evolves_trans by blast
  qed
qed simp

lemma tick_scopes_dom:
  "tick_scopes pe l db ss = (l', db', c) \<Longrightarrow>
     dom (rl_failures l') \<subseteq> dom (rl_failures l) \<union> set ss \<and> rl_chainID l' = rl_chainID l \<and> rl_interval l' = rl_interval l"
proof (induction ss arbitrary: l db)
  case (Cons s rest)
  from Cons.prems(1) show ?case
  proof (cases rule: tick_scopes_ConsE)
    case (ran db1 r)
    with Cons.IH [OF ran(3)] show ?thesis by (auto split: if_splits)
  next
    case skipped
    with Cons.IH [OF skipped(2)] show ?thesis by auto
  qed auto
qed simp

lemma attempted_once_later:
  assumes "attempted_once pe l1 db1 db' s x" "db_evolves db db1"
    "rl_failures l1 s = rl_failures l s" "rl_chainID l1 = rl_chainID l" "rl_interval l1 = rl_interval l"
  shows "attempted_once pe l db db' s x"
  using assms db_evolves_trans unfolding attempted_once_def failed_again_cong [OF assms(3,5)] assms(4) by blast

lemma tick_scopes_pass:
  assumes "tick_scopes pe l db ss = (l', db', c)" "nonce_inv db" "distinct ss"
    and "\<forall>s \<in> set ss. \<not> pe_cancelledBefore pe s \<and> \<not> pe_cancelledAfter pe s"
  shows "c \<and> (\<forall>s. s \<notin> set ss \<longrightarrow> rl_failures l' s = rl_failures l s) \<and>
    (\<forall>s \<in> set ss. if deferred l (pe_now pe) s then rl_failures l' s = rl_failures l s
       else attempted_once pe l db db' s (rl_failures l' s))"
  using assms
proof (induction ss arbitrary: l db)
  case (Cons sender rest)
  from Cons.prems(1) show ?case
  proof (cases rule: tick_scopes_ConsE)
    case cancelled
    then show ?thesis using Cons.prems(4) by simp
  next
    case skipped
    then show ?thesis using Cons by auto
  next
    case (ran db1 r)
    let ?l1 = "after_attempt l sender (pe_now pe) r"
    note k = reconcileScope_keeps [OF Cons.prems(2) ran(2)]
    have ih: "c \<and> (\<forall>s. s \<notin> set rest \<longrightarrow> rl_failures l' s = rl_failures ?l1 s) \<and>
      (\<forall>s \<in> set rest. if deferred ?l1 (pe_now pe) s then rl_failures l' s = rl_failures ?l1 s
         else attempted_once pe ?l1 db1 db' s (rl_failures l' s))"
      using Cons.IH [OF ran(3)] k Cons.prems by simp
    have ev: "db_evolves db1 db'" using tick_scopes_keeps [OF ran(3)] k by blast
    have "rl_failures l' sender = (if r = None then None else Some (failed_again l sender (pe_now pe)))"
      using ih Cons.prems(3) by simp
    then have "attempted_once pe l db db' sender (rl_failures l' sender)"
      unfolding attempted_once_def
      by (intro exI [of _ db] exI [of _ db1] exI [of _ r]) (use ran(2) ev Cons.prems(2) in simp)
    moreover have "(if deferred l (pe_now pe) s then rl_failures l' s = rl_failures l s
         else attempted_once pe l db db' s (rl_failures l' s))" if "s \<in> set rest" for s
    proof -
      have "s \<noteq> sender" using that Cons.prems(3) by auto
      then have "rl_failures ?l1 s = rl_failures l s" "deferred ?l1 (pe_now pe) s = deferred l (pe_now pe) s"
        by (simp_all add: deferred_def)
      then show ?thesis
        using ih that k attempted_once_later [of pe ?l1 db1 db' s _ db l] by (auto split: if_splits)
    qed
    ultimately show ?thesis using ih ran(1) by auto
  qed
qed simp

lemma listKnownScopes_Inr:
  assumes "listKnownScopes e db chain = Inr scopes"
  shows "set scopes = {s. registered db chain s} \<and> (nonce_inv db \<longrightarrow> distinct scopes)"
proof -
  let ?rows = "filter (\<lambda>r. r_ChainID r = chain) (registry_t db)"
  have scopes: "scopes = sort (map r_Sender ?rows)"
    using assms by (simp add: listKnownScopes_def rbind_rules)
  have "distinct (map r_Sender ?rows)" if "nonce_inv db"
  proof -
    have "distinct (map registry_key ?rows)"
      using that by (simp add: nonce_inv_def registry_inv_def distinct_map_filter)
    then show ?thesis
      by (auto simp: distinct_map registry_key_def inj_on_def)
  qed
  then show ?thesis
    by (auto simp: scopes registered_def has_row_iff)
qed

text \<open>Scopes fail in isolation. In a pass that is not cancelled and whose scope list could be read,
  every registered sender of the chain is handled on its own: one inside its backoff window keeps its
  entry and is not touched; every other one runs its own transaction exactly once from a database the pass
  had reached, whatever happened to the scopes before it, and ends without an entry if it committed and with
  its streak advanced by one and the matching next attempt if it did not; no entry is left for anyone else,
  and the invariant holds.\<close>

lemma tick_isolates_scopes:
  assumes inv: "nonce_inv db" and run: "tick pe l db = (l', db')"
    and lst: "listKnownScopes (pe_list pe) db (rl_chainID l) = Inr scopes"
    and live: "\<forall>s \<in> set scopes. \<not> pe_cancelledBefore pe s \<and> \<not> pe_cancelledAfter pe s"
  shows "nonce_inv db' \<and> db_evolves db db' \<and> set scopes = {s. registered db (rl_chainID l) s} \<and>
    dom (rl_failures l') \<subseteq> set scopes \<and>
    (\<forall>s \<in> set scopes. if deferred l (pe_now pe) s then rl_failures l' s = rl_failures l s
       else attempted_once pe l db db' s (rl_failures l' s))"
proof -
  obtain l1 c where ts: "tick_scopes pe l db scopes = (l1, db', c)" "l' = (if c then pruneFailures l1 scopes else l1)"
    using run lst by (auto simp: tick_def split: prod.splits)
  have d: "distinct scopes" "set scopes = {s. registered db (rl_chainID l) s}"
    using listKnownScopes_Inr [OF lst] inv by auto
  note p = tick_scopes_pass [OF ts(1) inv d(1) live]
  then have "rl_failures l' = rl_failures l1 |` set scopes" using ts(2) by (simp add: pruneFailures_def)
  then show ?thesis
    using p d(2) tick_scopes_keeps [OF ts(1) inv] by (auto simp: restrict_map_def split: if_splits)
qed

definition demo_loop :: reconcile_loop where
  "demo_loop = \<lparr>rl_chainID = 1, rl_interval = 5000000000, rl_failures = Map.empty, rl_failureCount = 0\<rparr>"

definition demo_pass :: "env \<Rightarrow> pass_env" where
  "demo_pass e = \<lparr>pe_now = 100, pe_list = demo_env, pe_env = (\<lambda>_. e), pe_obs = (\<lambda>_. demo_obs 1 1),
     pe_cancelledBefore = (\<lambda>_. False), pe_cancelledAfter = (\<lambda>_. False)\<rparr>"

lemma registered_evolves: "registered db c s \<Longrightarrow> db_evolves db db' \<Longrightarrow> registered db' c s"
  unfolding registered_key db_evolves_def using registry_rows.keys_grow by blast

lemma tick_loop_inv:
  assumes "nonce_inv db" "dom (rl_failures l) \<subseteq> {s. registered db (rl_chainID l) s}" "tick pe l db = (l', db')"
  shows "nonce_inv db' \<and> db_evolves db db' \<and> rl_chainID l' = rl_chainID l \<and>
    dom (rl_failures l') \<subseteq> {s. registered db' (rl_chainID l) s}"
proof (cases "listKnownScopes (pe_list pe) db (rl_chainID l)")
  case (Inl err)
  then show ?thesis using assms by (simp add: tick_def)
next
  case (Inr scopes)
  then obtain l1 c where ts: "tick_scopes pe l db scopes = (l1, db', c)"
    "l' = (if c then pruneFailures l1 scopes else l1)"
    using assms(3) by (auto simp: tick_def split: prod.splits)
  have "dom (rl_failures l1) \<subseteq> {s. registered db (rl_chainID l) s}"
    using tick_scopes_dom [OF ts(1)] assms(2) listKnownScopes_Inr [OF Inr] by blast
  moreover have "dom (rl_failures l') \<subseteq> dom (rl_failures l1)" using ts(2) by (auto simp: pruneFailures_def)
  ultimately show ?thesis
    using tick_scopes_keeps [OF ts(1) assms(1)] tick_scopes_dom [OF ts(1)] registered_evolves ts(2)
    by (auto simp: pruneFailures_def)
qed

text \<open>The loop. A non-positive interval disables it; otherwise any number of passes in any environments,
  cancelled ones included, keeps the invariant and only lets rows evolve forward, and the failure map never
  holds an entry for a sender that is not registered, so it stays bounded by the registry.\<close>

lemma Run_loop_bounded:
  assumes "nonce_inv db" "Run_loop pes l db = (l', db')"
  shows "(sint (rl_interval l) \<le> 0 \<longrightarrow> l' = l \<and> db' = db) \<and> nonce_inv db' \<and> db_evolves db db' \<and>
    (sint (rl_interval l) > 0 \<longrightarrow> dom (rl_failures l') \<subseteq> {s. registered db' (rl_chainID l) s})"
proof (cases "sint (rl_interval l) \<le> 0")
  case True
  then show ?thesis using assms by (simp add: Run_loop_def)
next
  case False
  have loop: "nonce_inv db2 \<and> db_evolves db1 db2 \<and> dom (rl_failures l2) \<subseteq> {s. registered db2 (rl_chainID l1) s}"
    if "foldl (\<lambda>(l', db') pe. tick pe l' db') (l1, db1) pes = (l2, db2)" "nonce_inv db1"
      "dom (rl_failures l1) \<subseteq> {s. registered db1 (rl_chainID l1) s}" for l1 db1 l2 db2
    using that
  proof (induction pes arbitrary: l1 db1)
    case (Cons pe pes)
    obtain l3 db3 where t: "tick pe l1 db1 = (l3, db3)" by (rule prod.exhaust)
    note i = tick_loop_inv [OF Cons.prems(2,3) t]
    with Cons.IH [of l3 db3] Cons.prems(1) t show ?case using db_evolves_trans by auto
  qed simp
  from False show ?thesis
    using assms loop [of "l\<lparr>rl_failures := Map.empty\<rparr>" db l' db'] by (simp add: Run_loop_def)
qed

end
