(* ===== verification/NonceObserve.thy ===== *)
theory NonceObserve
  imports NonceAllocateSpec
begin

text \<open>
  Model of the chain sampling in \<^verbatim>\<open>internal/nonce/observe.go\<close>: the bounded retry of one JSON-RPC
  request, the classification of its failures and the three reads of one observation. The JSON-RPC
  client is third-party code: each request is given by what it answers on every attempt, and an error by
  what \<open>errors.Is\<close> and \<open>errors.As\<close> say about it.
\<close>

section \<open>Failures\<close>

datatype eth_kind =
    KindTransport | KindTimeout | KindChainMismatch | KindInvalidResponse | KindNotFound
  | KindRateLimited | KindIncomplete | KindOther string

record rpc_error =
  re_Kind :: "eth_kind option"
  re_NotFound :: bool
  re_TooManyRequests :: bool
  re_DeadlineExceeded :: bool
  re_NetTimeout :: bool
  re_RPCError :: bool
  re_SyntaxError :: bool
  re_TypeError :: bool

definition obsRetryable :: "eth_kind \<Rightarrow> bool" where
  "obsRetryable k \<longleftrightarrow> k = KindTransport \<or> k = KindTimeout \<or> k = KindRateLimited"

text \<open>The second argument says that the context's error is \<open>DeadlineExceeded\<close>.\<close>

definition obsKind :: "rpc_error \<Rightarrow> bool \<Rightarrow> eth_kind" where
  "obsKind err ctxDeadline =
     (case re_Kind err of
        Some k \<Rightarrow> k
      | None \<Rightarrow>
          if re_NotFound err then KindNotFound
          else if re_TooManyRequests err then KindRateLimited
          else if re_DeadlineExceeded err \<or> ctxDeadline then KindTimeout
          else if re_NetTimeout err then KindTimeout
          else if re_RPCError err then KindInvalidResponse
          else if re_SyntaxError err \<or> re_TypeError err then KindInvalidResponse
          else KindTransport)"

definition errorClassOf :: "eth_kind \<Rightarrow> string" where
  "errorClassOf k =
     (case k of
        KindTransport \<Rightarrow> ''transport''
      | KindTimeout \<Rightarrow> ''timeout''
      | KindRateLimited \<Rightarrow> ''rate_limited''
      | KindInvalidResponse \<Rightarrow> ''invalid_response''
      | KindChainMismatch \<Rightarrow> ''chain_mismatch''
      | _ \<Rightarrow> ''rpc_unavailable'')"

section \<open>One request with bounded retry\<close>

definition obsMaxAttempts :: nat where
  "obsMaxAttempts = 3"

record observer_config =
  oc_RetryInitial :: "64 word"
  oc_RetryMax :: "64 word"

text \<open>One attempt: its answer, whether its own deadline passed, whether the caller's context was done
  during the wait that follows, and whether that was by deadline.\<close>

record 'r rpc_attempt =
  at_result :: "rpc_error + 'r"
  at_callDeadline :: bool
  at_ctxDone :: bool
  at_ctxDeadline :: bool

definition next_delay :: "observer_config \<Rightarrow> 64 word \<Rightarrow> 64 word" where
  "next_delay cfg delay =
     (let d = delay * 2
      in if sint (oc_RetryMax cfg) > 0 \<and> sint d > sint (oc_RetryMax cfg) then oc_RetryMax cfg else d)"

text \<open>\<open>n\<close> is the number of attempts left; the result also lists the waits between the attempts.\<close>

fun call_loop ::
  "observer_config \<Rightarrow> (nat \<Rightarrow> 'r rpc_attempt) \<Rightarrow> nat \<Rightarrow> nat \<Rightarrow> 64 word \<Rightarrow> 64 word list \<times> (eth_kind + 'r)" where
  "call_loop cfg rpc 0 attempt delay = ([], Inl KindTransport)"
| "call_loop cfg rpc (Suc n) attempt delay =
     (let a = rpc attempt in
      case at_result a of
        Inr v \<Rightarrow> ([], Inr v)
      | Inl err \<Rightarrow>
          let kind = obsKind err (at_callDeadline a) in
          if n = 0 \<or> \<not> obsRetryable kind then ([], Inl kind)
          else if sint delay > 0 \<and> at_ctxDone a then ([delay], Inl (obsKind err (at_ctxDeadline a)))
          else case call_loop cfg rpc n (Suc attempt) (next_delay cfg delay) of
                 (waits, res) \<Rightarrow> (if sint delay > 0 then delay # waits else waits, res))"

definition call :: "observer_config \<Rightarrow> (nat \<Rightarrow> 'r rpc_attempt) \<Rightarrow> eth_kind + 'r" where
  "call cfg rpc = snd (call_loop cfg rpc obsMaxAttempts 1 (oc_RetryInitial cfg))"

section \<open>The three reads\<close>

record rpc_head =
  hd_Number :: "string option"
  hd_Hash :: string

definition transactionCount :: "observer_config \<Rightarrow> (nat \<Rightarrow> string rpc_attempt) \<Rightarrow> eth_kind + int" where
  "transactionCount cfg rpc =
     rbind (call cfg rpc) (\<lambda>raw.
       case ParseHexQuantity raw of Inl _ \<Rightarrow> Inl KindInvalidResponse | Inr n \<Rightarrow> Inr n)"

definition latestHead ::
  "observer_config \<Rightarrow> (nat \<Rightarrow> rpc_head option rpc_attempt) \<Rightarrow> eth_kind + int \<times> string" where
  "latestHead cfg rpc =
     rbind (call cfg rpc) (\<lambda>head.
       case head of
         None \<Rightarrow> Inl KindNotFound
       | Some h \<Rightarrow>
           (case hd_Number h of
              None \<Rightarrow> Inl KindInvalidResponse
            | Some num \<Rightarrow>
                (case ParseHexQuantity num of
                   Inl _ \<Rightarrow> Inl KindInvalidResponse
                 | Inr n \<Rightarrow> if \<not> matches_lower_hex 64 (hd_Hash h) then Inl KindInvalidResponse
                            else Inr (n, hd_Hash h))))"

definition failed :: "observation \<Rightarrow> eth_kind \<Rightarrow> observation" where
  "failed obs k = obs\<lparr>o_Classification := ClassificationUnavailable, o_ErrorClass := errorClassOf k\<rparr>"

definition Observe ::
  "observer_config \<Rightarrow> (nat \<Rightarrow> string rpc_attempt) \<Rightarrow> (nat \<Rightarrow> string rpc_attempt) \<Rightarrow>
   (nat \<Rightarrow> rpc_head option rpc_attempt) \<Rightarrow> int \<Rightarrow> string \<Rightarrow> obs_kind \<Rightarrow> observation" where
  "Observe cfg latestRPC pendingRPC headRPC chain sender kind =
     (let obs = \<lparr>o_ObservationID = [], o_ChainID = chain, o_Sender = sender, o_Kind = kind,
                 o_Classification = ClassificationOther [], o_LatestCount = None, o_PendingCount = None,
                 o_HeadNumber = None, o_HeadHash = [], o_ErrorClass = [], o_RPCRef = []\<rparr>
      in case transactionCount cfg latestRPC of
           Inl k \<Rightarrow> failed obs k
         | Inr latest \<Rightarrow>
             (case transactionCount cfg pendingRPC of
                Inl k \<Rightarrow> failed obs k
              | Inr pending \<Rightarrow>
                  (case latestHead cfg headRPC of
                     Inl k \<Rightarrow> failed obs k
                   | Inr (head, hash) \<Rightarrow>
                       obs\<lparr>o_LatestCount := Some latest, o_PendingCount := Some pending,
                           o_HeadNumber := Some head, o_HeadHash := hash\<rparr>)))"

section \<open>The retry\<close>

text \<open>The wait after attempt \<open>k\<close> (counted from 1), and when attempt \<open>k\<close> lets the loop go on.\<close>

definition delay_after :: "observer_config \<Rightarrow> nat \<Rightarrow> 64 word" where
  "delay_after cfg k = (next_delay cfg ^^ (k - 1)) (oc_RetryInitial cfg)"

definition goes_on :: "observer_config \<Rightarrow> (nat \<Rightarrow> 'r rpc_attempt) \<Rightarrow> nat \<Rightarrow> bool" where
  "goes_on cfg rpc k \<longleftrightarrow>
     (case at_result (rpc k) of
        Inr v \<Rightarrow> False
      | Inl err \<Rightarrow> obsRetryable (obsKind err (at_callDeadline (rpc k))) \<and>
          \<not> (sint (delay_after cfg k) > 0 \<and> at_ctxDone (rpc k)))"

lemma delay_after_Suc: "k > 0 \<Longrightarrow> delay_after cfg (Suc k) = next_delay cfg (delay_after cfg k)"
  by (cases k) (simp_all add: delay_after_def)

lemma call_loop_Inr:
  "k > 0 \<Longrightarrow> snd (call_loop cfg rpc n k (delay_after cfg k)) = Inr v \<longleftrightarrow>
     (\<exists>j. k \<le> j \<and> j < k + n \<and> at_result (rpc j) = Inr v \<and> (\<forall>i. k \<le> i \<and> i < j \<longrightarrow> goes_on cfg rpc i))"
proof (induction n arbitrary: k)
  case (Suc n)
  have ih: "snd (call_loop cfg rpc n (Suc k) (next_delay cfg (delay_after cfg k))) = Inr v \<longleftrightarrow>
     (\<exists>j. Suc k \<le> j \<and> j < Suc k + n \<and> at_result (rpc j) = Inr v \<and> (\<forall>i. Suc k \<le> i \<and> i < j \<longrightarrow> goes_on cfg rpc i))"
    using Suc.IH [of "Suc k"] delay_after_Suc [OF Suc.prems, of cfg] by simp
  have split: "(\<exists>j. k \<le> j \<and> j < k + Suc n \<and> at_result (rpc j) = Inr v \<and> (\<forall>i. k \<le> i \<and> i < j \<longrightarrow> goes_on cfg rpc i)) \<longleftrightarrow>
      at_result (rpc k) = Inr v \<or> goes_on cfg rpc k \<and>
        (\<exists>j. Suc k \<le> j \<and> j < Suc k + n \<and> at_result (rpc j) = Inr v \<and> (\<forall>i. Suc k \<le> i \<and> i < j \<longrightarrow> goes_on cfg rpc i))"
    (is "?l \<longleftrightarrow> ?r")
  proof
    assume ?l
    then obtain j where j: "k \<le> j" "j < k + Suc n" "at_result (rpc j) = Inr v" "\<forall>i. k \<le> i \<and> i < j \<longrightarrow> goes_on cfg rpc i"
      by blast
    then show ?r by (cases "j = k") (auto intro!: exI [of _ j])
  next
    assume ?r
    then show ?l
    proof (elim disjE conjE exE)
      fix j assume "goes_on cfg rpc k" "Suc k \<le> j" "j < Suc k + n" "at_result (rpc j) = Inr v"
        "\<forall>i. Suc k \<le> i \<and> i < j \<longrightarrow> goes_on cfg rpc i"
      then show ?l by (intro exI [of _ j]) (simp, metis Suc_leI le_neq_implies_less)
    qed (auto intro: exI [of _ k])
  qed
  show ?case
  proof (cases "at_result (rpc k)")
    case (Inr x)
    then show ?thesis unfolding split by (auto simp: goes_on_def)
  next
    case (Inl err)
    show ?thesis
    proof (cases n)
      case 0
      then show ?thesis unfolding split using Inl by (auto simp: Let_def)
    next
      case (Suc m)
      then show ?thesis
        unfolding split ih [symmetric] using Inl
        by (auto simp: Let_def goes_on_def split: prod.splits)
    qed
  qed
qed simp

text \<open>The retry of a request. It answers with a value exactly if one of the first three attempts has
  one and every earlier attempt failed retryably without the caller's context ending during the wait
  that followed; every other history is a failure.\<close>

lemma call_answers_iff:
  "call cfg rpc = Inr v \<longleftrightarrow>
     (\<exists>k \<in> {1..3}. at_result (rpc k) = Inr v \<and> (\<forall>j \<in> {1..<k}. goes_on cfg rpc j))"
proof -
  have "call cfg rpc = snd (call_loop cfg rpc 3 1 (delay_after cfg 1))"
    by (simp add: call_def obsMaxAttempts_def delay_after_def)
  then have "call cfg rpc = Inr v \<longleftrightarrow>
      (\<exists>j. 1 \<le> j \<and> j < 1 + 3 \<and> at_result (rpc j) = Inr v \<and> (\<forall>i. 1 \<le> i \<and> i < j \<longrightarrow> goes_on cfg rpc i))"
    using call_loop_Inr [of 1 cfg rpc 3 v] by simp
  then show ?thesis by (auto simp: Bex_def) 
qed

text \<open>A node that answers at once, and one that always times out.\<close>

definition demo_up :: "'r \<Rightarrow> nat \<Rightarrow> 'r rpc_attempt" where
  "demo_up v k = \<lparr>at_result = Inr v, at_callDeadline = False, at_ctxDone = False, at_ctxDeadline = False\<rparr>"

definition demo_down :: "nat \<Rightarrow> 'r rpc_attempt" where
  "demo_down k = \<lparr>at_result = Inl \<lparr>re_Kind = None, re_NotFound = False, re_TooManyRequests = False,
       re_DeadlineExceeded = True, re_NetTimeout = False, re_RPCError = False, re_SyntaxError = False,
       re_TypeError = False\<rparr>, at_callDeadline = True, at_ctxDone = False, at_ctxDeadline = False\<rparr>"

lemma demo_down_call: "call \<lparr>oc_RetryInitial = 0, oc_RetryMax = 0\<rparr> (demo_down :: nat \<Rightarrow> 'r rpc_attempt) = Inl KindTimeout"
  by (simp add: call_def obsMaxAttempts_def demo_down_def obsKind_def obsRetryable_def next_delay_def eval_nat_numeral)

lemma next_delay_capped:
  assumes "sint (oc_RetryMax cfg) > 0"
  shows "sint (next_delay cfg d) \<le> sint (oc_RetryMax cfg)"
  using assms by (auto simp: next_delay_def Let_def)

lemma call_loop_waits:
  assumes "sint (oc_RetryMax cfg) > 0"
  shows "sint d \<le> sint (oc_RetryMax cfg) \<Longrightarrow> call_loop cfg rpc n k d = (ws, res) \<Longrightarrow>
    length ws \<le> n - 1 \<and> (\<forall>w \<in> set ws. 0 < sint w \<and> sint w \<le> sint (oc_RetryMax cfg))"
proof (induction n arbitrary: k d ws res)
  case (Suc n)
  obtain ws1 res1 where rest: "call_loop cfg rpc n (Suc k) (next_delay cfg d) = (ws1, res1)" by (rule prod.exhaust)
  note ih = Suc.IH [OF next_delay_capped [OF assms] rest]
  from Suc.prems rest ih show ?case
    by (cases "at_result (rpc k)"; cases n) (auto simp: Let_def split: if_splits)
qed simp

text \<open>C33: the waits of a request. With a positive cap no smaller than the first delay, at most two waits
  happen, each positive and at most the cap, whatever the attempts answer; doubling that wraps cannot exceed it.\<close>

theorem call_waits_bounded:
  assumes "sint (oc_RetryMax cfg) > 0" "sint (oc_RetryInitial cfg) \<le> sint (oc_RetryMax cfg)"
    and "call_loop cfg rpc obsMaxAttempts 1 (oc_RetryInitial cfg) = (ws, res)"
  shows "length ws \<le> 2 \<and> (\<forall>w \<in> set ws. 0 < sint w \<and> sint w \<le> sint (oc_RetryMax cfg))"
  using call_loop_waits [OF assms] by (simp add: obsMaxAttempts_def)

theorem call_waits_bounded_witness:
  "let (ws, res) = call_loop \<lparr>oc_RetryInitial = 2 ^ 62, oc_RetryMax = 2 ^ 63 - 1\<rparr>
     (demo_down :: nat \<Rightarrow> string rpc_attempt) obsMaxAttempts 1 (2 ^ 62)
   in length ws \<le> 2 \<and> (\<forall>w \<in> set ws. 0 < sint w)"
proof -
  let ?cfg = "\<lparr>oc_RetryInitial = 2 ^ 62, oc_RetryMax = 2 ^ 63 - 1\<rparr>" and ?rpc = "demo_down :: nat \<Rightarrow> string rpc_attempt"
  have "sint (oc_RetryMax ?cfg) > 0" "sint (oc_RetryInitial ?cfg) \<le> sint (oc_RetryMax ?cfg)" by simp_all
  moreover obtain ws res where "call_loop ?cfg ?rpc obsMaxAttempts 1 (oc_RetryInitial ?cfg) = (ws, res)"
    by (rule prod.exhaust)
  ultimately show ?thesis
    using call_waits_bounded [of ?cfg ?rpc ws res] by simp
qed

section \<open>One observation\<close>

lemma case_Inl_eq_Inr: "(case m of Inl a \<Rightarrow> Inl (f a) | Inr x \<Rightarrow> g x) = Inr y \<longleftrightarrow> (\<exists>x. m = Inr x \<and> g x = Inr y)"
  by (cases m) auto

lemma case_None_eq_Inr: "(case m of None \<Rightarrow> Inl a | Some x \<Rightarrow> g x) = Inr y \<longleftrightarrow> (\<exists>x. m = Some x \<and> g x = Inr y)"
  by (cases m) auto

lemma transactionCount_range: "transactionCount cfg rpc = Inr n \<Longrightarrow> in_nonce_range n"
  by (auto simp: transactionCount_def rbind_rules case_Inl_eq_Inr dest: ParseHexQuantity_range)

lemma latestHead_range: "latestHead cfg rpc = Inr (n, h) \<Longrightarrow> in_nonce_range n \<and> matches_lower_hex 64 h"
  by (auto simp: latestHead_def rbind_rules case_Inl_eq_Inr case_None_eq_Inr dest: ParseHexQuantity_range split: if_splits)

text \<open>An observation is all or nothing. It is either \<open>unavailable\<close> with an error class of the vocabulary
  and no count, head or hash at all, or it carries both counts, the head and its hash, each answered by
  the node and in range, and no verdict yet; in both cases it is a sample that the transactions of the
  scope accept.\<close>

lemma Observe_all_or_nothing:
  assumes "kind = ObservationKindAllocation \<or> kind = ObservationKindReconcile"
  shows "sampled chain sender (Observe cfg latestRPC pendingRPC headRPC chain sender kind) \<and>
    (let obs = Observe cfg latestRPC pendingRPC headRPC chain sender kind in
       o_Kind obs = kind \<and>
       (if \<exists>l p h. transactionCount cfg latestRPC = Inr l \<and> transactionCount cfg pendingRPC = Inr p \<and>
             latestHead cfg headRPC = Inr h
        then o_Classification obs = ClassificationOther [] \<and> o_ErrorClass obs = [] \<and>
          transactionCount cfg latestRPC = Inr (the (o_LatestCount obs)) \<and> o_LatestCount obs \<noteq> None \<and>
          transactionCount cfg pendingRPC = Inr (the (o_PendingCount obs)) \<and> o_PendingCount obs \<noteq> None \<and>
          latestHead cfg headRPC = Inr (the (o_HeadNumber obs), o_HeadHash obs) \<and> o_HeadNumber obs \<noteq> None
        else o_Classification obs = ClassificationUnavailable \<and> o_ErrorClass obs \<noteq> [] \<and>
          o_LatestCount obs = None \<and> o_PendingCount obs = None \<and> o_HeadNumber obs = None \<and> o_HeadHash obs = []))"
proof -
  have cls: "errorClassOf k \<noteq> []" for k by (simp add: errorClassOf_def split: eth_kind.split)
  show ?thesis
    using assms cls transactionCount_range latestHead_range
    by (cases "transactionCount cfg latestRPC"; cases "transactionCount cfg pendingRPC"; cases "latestHead cfg headRPC")
      (auto simp: Observe_def failed_def sampled_def opt_in_range_def Let_def)
qed

end
