(* ===== verification/NonceAdmin.thy ===== *)
theory NonceAdmin
  imports NonceAllocate
begin

text \<open>
  Model of \<^verbatim>\<open>internal/nonce/admin.go\<close>: the operator transactions (hold release, binding release,
  registry register and disable), the audit row that every committed attempt leaves, and the replay of
  a recorded attempt by operation id.
\<close>

section \<open>Requests\<close>

record admin_request =
  q_Action :: admin_action
  q_OperationID :: string
  q_ChainID :: int
  q_Sender :: string
  q_HoldID :: string
  q_BindingID :: string
  q_ObservationID :: string
  q_Evidence :: string
  q_Operator :: string
  q_Reason :: string

datatype admin_invalid =
    OperationIDRequired
  | OperationIDTooLong
  | AdminChainID int
  | AdminSender string
  | HoldIDRequired
  | BindingIDRequired
  | UnknownAdminAction string
  | NoChainObserver

definition AdminRequest_Validate :: "admin_request \<Rightarrow> admin_invalid + unit" where
  "AdminRequest_Validate r =
     (if q_OperationID r = [] then Inl OperationIDRequired
      else if length (q_OperationID r) > 128 then Inl OperationIDTooLong
      else if q_ChainID r \<le> 0 then Inl (AdminChainID (q_ChainID r))
      else if \<not> sender_ok (q_Sender r) then Inl (AdminSender (q_Sender r))
      else case q_Action r of
          AdminActionHoldRelease \<Rightarrow> if q_HoldID r = [] then Inl HoldIDRequired else Inr ()
        | AdminActionBindingRelease \<Rightarrow> if q_BindingID r = [] then Inl BindingIDRequired else Inr ()
        | AdminActionRegistryRegister \<Rightarrow> Inr ()
        | AdminActionRegistryDisable \<Rightarrow> Inr ()
        | AdminActionOther a \<Rightarrow> Inl (UnknownAdminAction a))"

definition subjectID :: "admin_request \<Rightarrow> string" where
  "subjectID r =
     (case q_Action r of
        AdminActionHoldRelease \<Rightarrow> q_HoldID r
      | AdminActionBindingRelease \<Rightarrow> q_BindingID r
      | _ \<Rightarrow> q_Sender r)"

fun action_str :: "admin_action \<Rightarrow> string" where
  "action_str AdminActionHoldRelease = ''hold_release''"
| "action_str AdminActionBindingRelease = ''binding_release''"
| "action_str AdminActionRegistryRegister = ''registry_register''"
| "action_str AdminActionRegistryDisable = ''registry_disable''"
| "action_str (AdminActionOther a) = a"

record admin_result =
  ad_Outcome :: outcome
  ad_Action :: admin_action
  ad_SubjectID :: string
  ad_Detail :: string

section \<open>The op-input digest\<close>

definition adminInputDigest :: "admin_request \<Rightarrow> string" where
  "adminInputDigest req =
     digest_lines
       [action_str (q_Action req),
        int_text 10 (q_ChainID req),
        q_Sender req,
        subjectID req,
        q_ObservationID req,
        q_Operator req,
        q_Reason req,
        q_Evidence req]"

definition auditInputPrefix :: string where
  "auditInputPrefix = ''input=''"

text \<open>\<open>strings.IndexByte\<close> and \<open>strings.Index\<close>: the offset of the first occurrence.\<close>

fun index_byte :: "string \<Rightarrow> char \<Rightarrow> nat option" where
  "index_byte [] c = None"
| "index_byte (x # xs) c = (if x = c then Some 0 else map_option Suc (index_byte xs c))"

fun index_of :: "string \<Rightarrow> string \<Rightarrow> nat option" where
  "index_of [] p = (if p = [] then Some 0 else None)"
| "index_of (x # xs) p = (if has_prefix (x # xs) p then Some 0 else map_option Suc (index_of xs p))"

definition auditInputDigestOf :: "string \<Rightarrow> string" where
  "auditInputDigestOf detail =
     (if \<not> has_prefix detail auditInputPrefix then []
      else let rest = drop (length auditInputPrefix) detail
           in case index_byte rest CHR '';'' of None \<Rightarrow> [] | Some i \<Rightarrow> take i rest)"

definition auditDetailOf :: "string \<Rightarrow> string" where
  "auditDetailOf detail =
     (if \<not> has_prefix detail auditInputPrefix then detail
      else case index_of detail ''; '' of None \<Rightarrow> [] | Some i \<Rightarrow> drop (i + 2) detail)"

definition inputEqual :: "admin_audit \<Rightarrow> admin_request \<Rightarrow> bool" where
  "inputEqual a req \<longleftrightarrow> auditInputDigestOf (au_Detail a) = adminInputDigest req"

section \<open>Statements\<close>

definition readHoldByIDForUpdateTx :: "env \<Rightarrow> nonce_db \<Rightarrow> string \<Rightarrow> terr + scope_hold option" where
  "readHoldByIDForUpdateTx e db holdID =
     sql e ReadHoldByIDForUpdate (Inr (List.find (\<lambda>h. h_HoldID h = holdID) (hold_t db)))"

definition readObservationScopeTx :: "env \<Rightarrow> nonce_db \<Rightarrow> string \<Rightarrow> terr + (int \<times> string) option" where
  "readObservationScopeTx e db obsID =
     sql e ReadObservationScope
       (Inr (map_option (\<lambda>o'. (o_ChainID o', o_Sender o'))
          (List.find (\<lambda>o'. o_ObservationID o' = obsID) (observation_t db))))"

definition released_hold :: "env \<Rightarrow> admin_request \<Rightarrow> string \<Rightarrow> string \<Rightarrow> scope_hold \<Rightarrow> scope_hold" where
  "released_hold e req evidence freshID h =
     h\<lparr>h_Status := HoldStatusReleased, h_ReleasedAt := Some (now_at e), h_ReleasedBy := Some (q_Operator req),
       h_ReleaseOperationID := Some (q_OperationID req), h_ReleaseEvidence := Some evidence,
       h_ReleaseObservationID := Some freshID\<rparr>"

definition releaseHoldTx ::
  "env \<Rightarrow> nonce_db \<Rightarrow> string \<Rightarrow> admin_request \<Rightarrow> string \<Rightarrow> string \<Rightarrow> terr + nonce_db \<times> bool" where
  "releaseHoldTx e db holdID req evidence freshID =
     (let hit = (\<lambda>h. h_HoldID h = holdID \<and> h_Status h = HoldStatusActive)
      in sql e ReleaseHold
           (Inr (db\<lparr>hold_t := update_where hit (released_hold e req evidence freshID) (hold_t db)\<rparr>,
                 count_where hit (hold_t db) = 1)))"

definition readBindingByIDForUpdateTx :: "env \<Rightarrow> nonce_db \<Rightarrow> string \<Rightarrow> terr + binding option" where
  "readBindingByIDForUpdateTx e db bindingID =
     sql e ReadBindingByIDForUpdate
       (scanBindingRow (List.find (\<lambda>b. b_BindingID b = bindingID) (binding_t db)))"

definition readAuditByOperationIDTx :: "env \<Rightarrow> nonce_db \<Rightarrow> string \<Rightarrow> terr + admin_audit option" where
  "readAuditByOperationIDTx e db operationID =
     sql e ReadAuditByOperationID (Inr (List.find (\<lambda>a. au_OperationID a = operationID) (audit_t db)))"

record admin_tx_outcome =
  ot_Outcome :: outcome
  ot_Detail :: string

definition audit_row :: "env \<Rightarrow> admin_request \<Rightarrow> admin_tx_outcome \<Rightarrow> admin_audit" where
  "audit_row e req out =
     \<lparr>au_OperationID = q_OperationID req, au_Action = q_Action req, au_ChainID = q_ChainID req,
      au_Sender = q_Sender req, au_SubjectID = subjectID req, au_Outcome = ot_Outcome out,
      au_Operator = q_Operator req, au_Reason = q_Reason req, au_Evidence = q_Evidence req,
      au_Detail = auditInputPrefix @ adminInputDigest req @ ''; '' @ ot_Detail out,
      au_RecordedAt = now_at e\<rparr>"

definition audit_insert_error :: "nonce_db \<Rightarrow> admin_audit \<Rightarrow> pg_error option" where
  "audit_insert_error db a =
     (case first_violation
        [(''nonce_ops_audit_chain_id_check'', au_ChainID a > 0),
         (''nonce_ops_audit_sender_check'', sender_ok (au_Sender a)),
         (''nonce_ops_audit_action_check'', audit_action_ok (au_Action a)),
         (''nonce_ops_audit_outcome_check'', audit_outcome_ok (au_Outcome a))] of
        Some c \<Rightarrow> Some (PgError ''23514'' c)
      | None \<Rightarrow>
          if has_row (\<lambda>a'. au_OperationID a' = au_OperationID a) (audit_t db)
          then Some (PgError ''23505'' ''nonce_ops_audit_operation_id_uniq'')
          else None)"

definition insertAuditTx ::
  "env \<Rightarrow> nonce_db \<Rightarrow> tx_state \<Rightarrow> admin_request \<Rightarrow> admin_tx_outcome \<Rightarrow> terr + nonce_db" where
  "insertAuditTx e db tx req out =
     (if tx = TxAborted then Inl (Pg InsertAudit (PgError ''25P02'' []))
      else sql e InsertAudit
        (case audit_insert_error db (audit_row e req out) of
           Some p \<Rightarrow> Inl (Pg InsertAudit p)
         | None \<Rightarrow> Inr (db\<lparr>audit_t := audit_t db @ [audit_row e req out]\<rparr>)))"

definition auditOperationIDConflict :: "terr \<Rightarrow> bool" where
  "auditOperationIDConflict err =
     (case err of
        Pg _ (PgError code name) \<Rightarrow> code = ''23505'' \<and> name = ''nonce_ops_audit_operation_id_uniq''
      | _ \<Rightarrow> False)"

section \<open>Actions\<close>

fun attributable :: "binding \<Rightarrow> bool" where
  "attributable b \<longleftrightarrow> b_IntentID b \<noteq> [] \<and> known_state (b_State b) \<and> TerminalConsistent b"

definition scopeAttributionOK :: "binding list \<Rightarrow> bool" where
  "scopeAttributionOK bs = list_all attributable bs"

definition gateSummary :: "gate_state \<Rightarrow> string" where
  "gateSummary g = (if GateState_Causes g \<noteq> [] then join_comma (GateState_Causes g) else ''clear'')"

definition nop :: "nonce_db \<Rightarrow> string \<Rightarrow> terr + nonce_db \<times> tx_state \<times> admin_tx_outcome" where
  "nop db detail = Inr (db, TxOpen, \<lparr>ot_Outcome = AdminNop, ot_Detail = detail\<rparr>)"

definition refused :: "nonce_db \<Rightarrow> string \<Rightarrow> terr + nonce_db \<times> tx_state \<times> admin_tx_outcome" where
  "refused db detail = Inr (db, TxOpen, \<lparr>ot_Outcome = AdminRefused, ot_Detail = detail\<rparr>)"

definition applied :: "nonce_db \<Rightarrow> string \<Rightarrow> terr + nonce_db \<times> tx_state \<times> admin_tx_outcome" where
  "applied db detail = Inr (db, TxOpen, \<lparr>ot_Outcome = AdminApplied, ot_Detail = detail\<rparr>)"

definition release_version :: "wallet_registry \<Rightarrow> nat \<Rightarrow> gate_state \<Rightarrow> string \<Rightarrow> string" where
  "release_version reg nactive gates freshID =
     ''registry_seq='' @ int_text 10 (r_RegistrySeq reg) @
     '' registry_state='' @ registry_state_str (r_State reg) @
     '' active_holds='' @ int_text 10 (int nactive) @
     '' 006='' @ gateSummary gates @ '' release_observation='' @ freshID"

text \<open>The writes of a hold release whose evidence stood up.\<close>

definition holdReleaseApply ::
  "env \<Rightarrow> nonce_db \<Rightarrow> admin_request \<Rightarrow> observation \<Rightarrow> wallet_registry \<Rightarrow> gate_state \<Rightarrow> classification
   \<Rightarrow> terr + nonce_db \<times> tx_state \<times> admin_tx_outcome" where
  "holdReleaseApply e db req obs reg gates cl =
     rbind (readActiveHoldsTx e db (q_ChainID req) (q_Sender req)) (\<lambda>active.
     rbind (insertObservationTx e db
        \<lparr>o_ObservationID = [], o_ChainID = q_ChainID req, o_Sender = q_Sender req,
         o_Kind = ObservationKindReconcile, o_Classification = cl, o_LatestCount = o_LatestCount obs,
         o_PendingCount = o_PendingCount obs, o_HeadNumber = o_HeadNumber obs, o_HeadHash = o_HeadHash obs,
         o_ErrorClass = [], o_RPCRef = o_RPCRef obs\<rparr>) (\<lambda>(db1, freshID).
       let version = release_version reg (length active) gates freshID
       in rbind (releaseHoldTx e db1 (q_HoldID req) req (q_Evidence req @ '' | '' @ version) freshID)
            (\<lambda>(db2, ok).
              if \<not> ok then Inl HoldLostActiveRow
              else rbind (advanceScopeFloorTx e db2 (q_ChainID req) (q_Sender req) (o_PendingCount obs))
                (\<lambda>(db3, _). applied db3 version))))"

definition holdReleaseVerify ::
  "env \<Rightarrow> nonce_db \<Rightarrow> admin_request \<Rightarrow> observation \<Rightarrow> gate_state
   \<Rightarrow> terr + nonce_db \<times> tx_state \<times> admin_tx_outcome" where
  "holdReleaseVerify e db req obs gates =
     rbind (readRegistryBySenderTx e db (q_ChainID req) (q_Sender req)) (\<lambda>registry.
     case registry of
       None \<Rightarrow> refused db ''registry row is missing for the scope''
     | Some reg \<Rightarrow>
         rbind (readBindingsByScopeTx e db (q_ChainID req) (q_Sender req)) (\<lambda>bs.
         rbind (readScopeStateTx e db (q_ChainID req) (q_Sender req)) (\<lambda>scope.
           if \<not> scopeAttributionOK bs
           then refused db ''scope has unattributable bindings; resolve them first''
           else let dec = scope_classify obs scope bs in
             if d_Classification dec \<noteq> ClassificationConsistent
             then refused db (''fresh observation still classifies '' @ class_str (d_Classification dec))
             else holdReleaseApply e db req obs reg gates (d_Classification dec))))"

fun pg_of :: "terr \<Rightarrow> pg_error" where
  "pg_of (Pg s p) = p"
| "pg_of _ = DriverError []"

definition holdReleaseInTx ::
  "env \<Rightarrow> nonce_db \<Rightarrow> admin_request \<Rightarrow> observation \<Rightarrow> terr + nonce_db \<times> tx_state \<times> admin_tx_outcome" where
  "holdReleaseInTx e db req obs =
     rbind (lockScopeRowTx e db (q_ChainID req) (q_Sender req)) (\<lambda>_.
     rbind (readHoldByIDForUpdateTx e db (q_HoldID req)) (\<lambda>hold.
     case hold of
       None \<Rightarrow> nop db ''hold is missing or already released; zero change''
     | Some h \<Rightarrow>
       if h_Status h \<noteq> HoldStatusActive then nop db ''hold is missing or already released; zero change''
       else if h_ChainID h \<noteq> q_ChainID req \<or> h_Sender h \<noteq> q_Sender req
       then refused db ''hold scope does not match the requested chain_id/sender''
       else if q_Evidence req = [] then refused db ''release requires an operator finding (evidence)''
       else if q_ObservationID req = [] then refused db ''release requires an observation reference''
       else rbind (readObservationScopeTx e db (q_ObservationID req)) (\<lambda>refScope.
         if refScope \<noteq> Some (q_ChainID req, q_Sender req)
         then refused db ''observation reference is missing or outside the scope''
         else case readGateStateTx e db (q_ChainID req) of
             Inl err \<Rightarrow> Inr (db, tx_after (pg_of err), \<lparr>ot_Outcome = AdminRefused,
                 ot_Detail = ''006 gate state is unreadable at the re-verify point''\<rparr>)
           | Inr gates \<Rightarrow> holdReleaseVerify e db req obs gates)))"

text \<open>The writes of a binding release whose evidence stood up.\<close>

definition bindingReleaseApply ::
  "env \<Rightarrow> nonce_db \<Rightarrow> admin_request \<Rightarrow> observation \<Rightarrow> binding
   \<Rightarrow> terr + nonce_db \<times> tx_state \<times> admin_tx_outcome" where
  "bindingReleaseApply e db req obs b =
     rbind (advanceBindingStateTx e db (b_BindingID b) StateReleased (q_OperationID req) (b_State b))
       (\<lambda>(db1, ok).
         if \<not> ok then Inl BindingLostState
         else let detail = ''fresh latest='' @ FormatDecimal (o_LatestCount obs) @
                    '' pending='' @ FormatDecimal (o_PendingCount obs) @ '' nonce='' @ FormatDecimal (b_Nonce b)
           in rbind (insertBindingEventTx e db1
                \<lparr>ev_BindingID = b_BindingID b, ev_FromState = Some (b_State b), ev_ToState = StateReleased,
                 ev_ObservationID = [], ev_OperationID = q_OperationID req,
                 ev_Detail = detail @ ''; '' @ q_Evidence req\<rparr>) (\<lambda>(db2, created).
                if \<not> created then Inl ReleaseEventMissing else applied db2 detail))"

text \<open>The checks on the fresh chain view.\<close>

definition bindingReleaseView ::
  "env \<Rightarrow> nonce_db \<Rightarrow> admin_request \<Rightarrow> observation \<Rightarrow> binding
   \<Rightarrow> terr + nonce_db \<times> tx_state \<times> admin_tx_outcome" where
  "bindingReleaseView e db req obs b =
     (case (o_LatestCount obs, o_PendingCount obs) of
        (Some l, Some p) \<Rightarrow>
          if o_Classification obs = ClassificationUnavailable
          then refused db ''fresh chain re-observation unavailable; no-side-effect evidence was not established''
          else if l > p then refused db ''fresh chain view diverges; the evidence is not trustworthy''
          else if l > the (b_Nonce b) \<or> p > the (b_Nonce b)
          then refused db ''fresh observation shows the nonce mined or pending; the binding has an external side effect''
          else bindingReleaseApply e db req obs b
      | _ \<Rightarrow> refused db ''fresh chain re-observation unavailable; no-side-effect evidence was not established'')"

definition bindingReleaseInTx ::
  "env \<Rightarrow> nonce_db \<Rightarrow> admin_request \<Rightarrow> observation \<Rightarrow> terr + nonce_db \<times> tx_state \<times> admin_tx_outcome" where
  "bindingReleaseInTx e db req obs =
     rbind (lockScopeRowTx e db (q_ChainID req) (q_Sender req)) (\<lambda>_.
     rbind (readBindingByIDForUpdateTx e db (q_BindingID req)) (\<lambda>found.
     case found of
       None \<Rightarrow> nop db ''binding is missing or already released; zero change''
     | Some b \<Rightarrow>
       if b_State b = StateReleased then nop db ''binding is missing or already released; zero change''
       else if b_ChainID b \<noteq> q_ChainID req \<or> b_Sender b \<noteq> q_Sender req
       then refused db ''binding scope does not match the requested chain_id/sender''
       else if b_State b = StateConsumed
       then refused db ''binding is consumed; its nonce was used and is never released''
       else if q_Evidence req = []
       then refused db ''release requires explicit no-side-effect evidence; a timeout or connection error alone is never evidence''
       else if q_ObservationID req \<noteq> []
       then rbind (readObservationScopeTx e db (q_ObservationID req)) (\<lambda>refScope.
              if refScope \<noteq> Some (q_ChainID req, q_Sender req)
              then refused db ''observation reference is missing or outside the scope''
              else bindingReleaseView e db req obs b)
       else bindingReleaseView e db req obs b))"

definition is_wallet :: "int \<Rightarrow> string \<Rightarrow> wallet_registry \<Rightarrow> bool" where
  "is_wallet chain sender r \<longleftrightarrow> r_ChainID r = chain \<and> r_Sender r = sender"

definition MaxBigint :: int where
  "MaxBigint = 9223372036854775807"

text \<open>The two guarded registry updates; \<open>registry_seq + 1\<close> is a BIGINT and raises \<open>22003\<close> at its top.\<close>

definition bumpRegistry ::
  "env \<Rightarrow> nonce_db \<Rightarrow> stmt \<Rightarrow> int \<Rightarrow> string \<Rightarrow> registry_state \<Rightarrow> registry_state \<Rightarrow> terr + nonce_db \<times> bool" where
  "bumpRegistry e db s chain sender old new =
     (let hit = (\<lambda>r. is_wallet chain sender r \<and> r_State r = old)
      in sql e s
           (if has_row (\<lambda>r. hit r \<and> r_RegistrySeq r \<ge> MaxBigint) (registry_t db)
            then Inl (Pg s (PgError ''22003'' []))
            else Inr (db\<lparr>registry_t := update_where hit
                   (\<lambda>r. r\<lparr>r_State := new, r_RegistrySeq := r_RegistrySeq r + 1, r_UpdatedAt := now_at e\<rparr>)
                   (registry_t db)\<rparr>, count_where hit (registry_t db) = 1)))"

definition ensureRegistryRow :: "env \<Rightarrow> nonce_db \<Rightarrow> int \<Rightarrow> string \<Rightarrow> terr + nonce_db \<times> bool" where
  "ensureRegistryRow e db chain sender =
     sql e EnsureRegistryRow
       (if \<not> chain > 0
        then Inl (Pg EnsureRegistryRow (PgError ''23514'' ''nonce_wallet_registry_chain_id_check''))
        else if \<not> sender_ok sender
        then Inl (Pg EnsureRegistryRow (PgError ''23514'' ''nonce_wallet_registry_sender_check''))
        else if has_row (is_wallet chain sender) (registry_t db) then Inr (db, False)
        else Inr (db\<lparr>registry_t := registry_t db @
               [\<lparr>r_ChainID = chain, r_Sender = sender, r_State = RegistryActive, r_RegistrySeq = 1,
                 r_CreatedAt = now_at e, r_UpdatedAt = now_at e\<rparr>]\<rparr>, True))"

definition registryInTx :: "env \<Rightarrow> nonce_db \<Rightarrow> admin_request \<Rightarrow> terr + nonce_db \<times> tx_state \<times> admin_tx_outcome" where
  "registryInTx e db req =
     (if q_Action req = AdminActionRegistryRegister
      then rbind (ensureRegistryRow e db (q_ChainID req) (q_Sender req)) (\<lambda>(db1, inserted).
        if inserted then applied db1 ''sender registered''
        else rbind (bumpRegistry e db1 BumpRegistryActive (q_ChainID req) (q_Sender req)
                      RegistryDisabled RegistryActive) (\<lambda>(db2, ok).
          if ok then applied db2 ''sender re-enabled with a bumped registry_seq''
          else nop db2 ''sender is already registered and active; zero change''))
      else rbind (bumpRegistry e db DisableRegistry (q_ChainID req) (q_Sender req)
                    RegistryActive RegistryDisabled) (\<lambda>(db1, ok).
        if ok then applied db1 ''sender disabled with a bumped registry_seq''
        else nop db1 ''sender is unregistered or already disabled; zero change''))"

definition adminInTx ::
  "env \<Rightarrow> nonce_db \<Rightarrow> admin_request \<Rightarrow> observation \<Rightarrow> terr + nonce_db \<times> tx_state \<times> admin_tx_outcome" where
  "adminInTx e db req obs =
     rbind (lockChain e db (q_ChainID req)) (\<lambda>db1.
       case q_Action req of
         AdminActionHoldRelease \<Rightarrow> holdReleaseInTx e db1 req obs
       | AdminActionBindingRelease \<Rightarrow> bindingReleaseInTx e db1 req obs
       | _ \<Rightarrow> registryInTx e db1 req)"

section \<open>The runner\<close>

datatype admin_error =
    InvalidAdmin admin_invalid
  | AdminErr wrapped

definition replayRecorded :: "env \<Rightarrow> nonce_db \<Rightarrow> admin_request \<Rightarrow> admin_error + admin_result" where
  "replayRecorded e db req =
     (case fault e BeginTx of
        Some p \<Rightarrow> Inl (AdminErr (storageRefusal ''open replay classify transaction'' (Pg BeginTx p)))
      | None \<Rightarrow>
          (case readAuditByOperationIDTx e db (q_OperationID req) of
             Inl err \<Rightarrow> Inl (AdminErr (storageRefusal ''re-read audit by operation id'' err))
           | Inr None \<Rightarrow> Inl (AdminErr (Refuse OutcomeTemporarilyUnavailable
                 ''operation-id race classify miss; retry with the same operation id'', None))
           | Inr (Some row) \<Rightarrow>
               if \<not> inputEqual row req
               then Inl (AdminErr (Refuse OutcomeOperationConflict
                      ''operation_id was already recorded with a differing op-input'', None))
               else Inr \<lparr>ad_Outcome = au_Outcome row, ad_Action = au_Action row,
                     ad_SubjectID = au_SubjectID row, ad_Detail = auditDetailOf (au_Detail row)\<rparr>))"

text \<open>\<open>obs\<close> is the sample of the runner's observer, \<open>None\<close> when it has no observer; \<open>e2\<close> and \<open>db2\<close> are
  what the replay transaction sees after a rolled-back operation-id race.\<close>

definition Run ::
  "env \<Rightarrow> nonce_db \<Rightarrow> admin_request \<Rightarrow> observation option \<Rightarrow> env \<Rightarrow> nonce_db
   \<Rightarrow> nonce_db \<times> (admin_error + admin_result)" where
  "Run e db req obs e2 db2 =
     (case AdminRequest_Validate req of
        Inl err \<Rightarrow> (db, Inl (InvalidAdmin err))
      | Inr _ \<Rightarrow>
        if (q_Action req = AdminActionHoldRelease \<or> q_Action req = AdminActionBindingRelease) \<and> obs = None
        then (db, Inl (InvalidAdmin NoChainObserver))
        else case fault e BeginTx of
          Some p \<Rightarrow> (db, Inl (AdminErr (storageRefusal ''open admin transaction'' (Pg BeginTx p))))
        | None \<Rightarrow>
          (case adminInTx e db req (the obs) of
             Inl err \<Rightarrow> (db, Inl (AdminErr (storageRefusal ''admin transaction failed'' err)))
           | Inr (db1, tx, out) \<Rightarrow>
             (case insertAuditTx e db1 tx req out of
                Inl err \<Rightarrow>
                  if auditOperationIDConflict err then (db, replayRecorded e2 db2 req)
                  else (db, Inl (AdminErr (storageRefusal ''record admin audit'' err)))
              | Inr db' \<Rightarrow>
                (case fault e CommitTx of
                   Some p \<Rightarrow> (committed e db db',
                       Inl (AdminErr (storageRefusal ''commit admin transaction'' (Pg CommitTx p))))
                 | None \<Rightarrow> (db', Inr \<lparr>ad_Outcome = ot_Outcome out, ad_Action = q_Action req,
                       ad_SubjectID = subjectID req, ad_Detail = ot_Detail out\<rparr>)))))"

end
