(* ===== verification/NonceAdminSpec.thy ===== *)
theory NonceAdminSpec
  imports NonceAdmin NonceReconcileSpec
begin

text \<open>
  What the operator transactions guarantee: every attempt that becomes durable leaves exactly one audit row
  under a fresh operation id, a hold release clears only the named hold on consistent evidence and moves the
  floor forward only, a binding release needs a chain view without side effect, registry changes bump the
  sequence, and a repeated operation id replays the recorded outcome.
\<close>

section \<open>Statements\<close>

lemma released_hold_row:
  "hold_identity (released_hold e req ev i h) = hold_identity h" "h_Status (released_hold e req ev i h) = HoldStatusReleased"
  "hold_row_ok h \<Longrightarrow> hold_row_ok (released_hold e req ev i h)" "hold_slot (released_hold e req ev i h) = hold_slot h"
  by (auto simp: released_hold_def hold_identity_def hold_row_ok_def hold_slot_def)

lemma distinct_active_slots:
  assumes "distinct (map hold_slot (filter active_hold t))" "\<And>h. P h \<Longrightarrow> \<not> active_hold (f h)"
  shows "distinct (map hold_slot (filter active_hold (update_where P f t)))"
proof -
  have "filter active_hold (update_where P f t) = filter (\<lambda>r. \<not> P r) (filter active_hold t)"
    using assms(2) by (induction t) (auto simp: update_where_def)
  then show ?thesis using distinct_map_filter [OF assms(1)] by simp
qed

lemma nonce_inv_hold_release:
  assumes "nonce_inv db"
  shows "nonce_inv (db\<lparr>hold_t := update_where P (released_hold e req ev i) (hold_t db)\<rparr>)"
proof -
  let ?t = "update_where P (released_hold e req ev i) (hold_t db)"
  have "map h_HoldID ?t = map h_HoldID (hold_t db)"
    by (rule map_key_update_where) (simp add: released_hold_def)
  moreover have "distinct (map hold_slot (filter active_hold ?t))"
    using assms by (intro distinct_active_slots)
      (auto simp: nonce_inv_def hold_inv_def active_hold_def released_hold_row)
  moreover have "\<forall>h \<in> set ?t. hold_row_ok h \<and> registered db (h_ChainID h) (h_Sender h)"
    using assms by (auto simp: nonce_inv_def hold_inv_def table_simps released_hold_row)
      (auto simp: released_hold_def)
  ultimately have "hold_inv (db\<lparr>hold_t := ?t\<rparr>)"
    using assms by (auto simp: nonce_inv_def hold_inv_def registered_def)
  then show ?thesis using assms by (simp add: nonce_inv_def)
qed

lemma releaseHoldTx_Inr:
  assumes "releaseHoldTx e db holdID req ev i = Inr (db', ok)"
  shows "keeps db db' \<and> ok = (count_where (\<lambda>h. h_HoldID h = holdID \<and> h_Status h = HoldStatusActive) (hold_t db) = 1) \<and>
    db' = db\<lparr>hold_t := update_where (\<lambda>h. h_HoldID h = holdID \<and> h_Status h = HoldStatusActive)
      (released_hold e req ev i) (hold_t db)\<rparr>"
proof -
  have db': "db' = db\<lparr>hold_t := update_where (\<lambda>h. h_HoldID h = holdID \<and> h_Status h = HoldStatusActive)
      (released_hold e req ev i) (hold_t db)\<rparr>"
    "ok = (count_where (\<lambda>h. h_HoldID h = holdID \<and> h_Status h = HoldStatusActive) (hold_t db) = 1)"
    using assms by (simp_all add: releaseHoldTx_def rbind_rules Let_def)
  have "db_evolves db db'"
    by (auto simp: db' db_evolves_def hold_evolves_def released_hold_row intro!: hold_rows.grows_update_where)
  then show ?thesis using nonce_inv_hold_release db' by (auto simp: keeps_def)
qed

lemma nonce_inv_registry_update:
  assumes "nonce_inv db" "\<And>r. P r \<Longrightarrow> registry_key (f r) = registry_key r"
    and "\<And>r. registry_row_ok r \<Longrightarrow> P r \<Longrightarrow> registry_row_ok (f r)"
  shows "nonce_inv (db\<lparr>registry_t := update_where P f (registry_t db)\<rparr>)"
proof -
  let ?t = "update_where P f (registry_t db)" and ?db = "db\<lparr>registry_t := update_where P f (registry_t db)\<rparr>"
  have keys: "map registry_key ?t = map registry_key (registry_t db)"
    using assms(2) by (rule map_key_update_where)
  then have "registry_key ` set ?t = registry_key ` set (registry_t db)" by (metis list.set_map)
  then have reg: "registered ?db c s = registered db c s" for c s by (simp add: registered_key)
  have "registry_inv ?db"
    using assms(1,3) keys by (auto simp: nonce_inv_def registry_inv_def table_simps)
  then show ?thesis
    using assms(1) reg by (simp add: nonce_inv_def scope_inv_def hold_inv_def)
qed

lemma bumpRegistry_Inr:
  assumes "bumpRegistry e db s chain sender old new = Inr (db', ok)"
    and "new = RegistryActive \<or> new = RegistryDisabled"
  shows "keeps db db' \<and>
    db' = db\<lparr>registry_t := update_where (\<lambda>r. is_wallet chain sender r \<and> r_State r = old)
      (\<lambda>r. r\<lparr>r_State := new, r_RegistrySeq := r_RegistrySeq r + 1, r_UpdatedAt := now_at e\<rparr>) (registry_t db)\<rparr> \<and>
    ok = (count_where (\<lambda>r. is_wallet chain sender r \<and> r_State r = old) (registry_t db) = 1)"
proof -
  let ?P = "\<lambda>r. is_wallet chain sender r \<and> r_State r = old"
  let ?f = "\<lambda>r. r\<lparr>r_State := new, r_RegistrySeq := r_RegistrySeq r + 1, r_UpdatedAt := now_at e\<rparr>"
  have db': "db' = db\<lparr>registry_t := update_where ?P ?f (registry_t db)\<rparr>" "ok = (count_where ?P (registry_t db) = 1)"
    using assms(1) by (auto simp: bumpRegistry_def rbind_rules Let_def split: if_splits)
  have "nonce_inv db \<Longrightarrow> nonce_inv db'"
    unfolding db' by (rule nonce_inv_registry_update) (use assms(2) in \<open>auto simp: registry_key_def registry_row_ok_def\<close>)
  moreover have "db_evolves db db'"
    by (auto simp: db' db_evolves_def registry_evolves_def registry_key_def intro!: registry_rows.grows_update_where)
  ultimately show ?thesis using db' by (auto simp: keeps_def)
qed

lemma nonce_inv_registry_insert:
  assumes "nonce_inv db" "registry_row_ok r" "\<not> registered db (r_ChainID r) (r_Sender r)"
  shows "nonce_inv (db\<lparr>registry_t := registry_t db @ [r]\<rparr>)"
proof -
  let ?db = "db\<lparr>registry_t := registry_t db @ [r]\<rparr>"
  have mono: "registered db c s \<Longrightarrow> registered ?db c s" for c s by (auto simp: registered_key)
  have "registry_inv ?db"
    using assms distinct_map_snoc [of registry_key "registry_t db" r]
    by (auto simp: nonce_inv_def registry_inv_def registered_key registry_key_def has_row_iff)
  then show ?thesis
    using assms(1) mono unfolding nonce_inv_def scope_inv_def hold_inv_def by auto
qed

lemma ensureRegistryRow_Inr:
  assumes "ensureRegistryRow e db chain sender = Inr (db', inserted)"
  shows "keeps db db' \<and> inserted = (\<not> registered db chain sender) \<and>
    db' = (if inserted then db\<lparr>registry_t := registry_t db @
               [\<lparr>r_ChainID = chain, r_Sender = sender, r_State = RegistryActive, r_RegistrySeq = 1,
                 r_CreatedAt = now_at e, r_UpdatedAt = now_at e\<rparr>]\<rparr> else db)"
proof -
  have reg: "has_row (is_wallet chain sender) (registry_t db) = registered db chain sender"
    by (auto simp: registered_def has_row_iff is_wallet_def)
  then show ?thesis
    using assms
    by (auto simp: ensureRegistryRow_def rbind_rules keeps_def db_evolves_def registry_row_ok_def
        split: if_splits intro!: nonce_inv_registry_insert)
qed

section \<open>The actions\<close>

definition scope_observed :: "nonce_db \<Rightarrow> admin_request \<Rightarrow> bool" where
  "scope_observed db req \<longleftrightarrow>
     (\<exists>ob \<in> set (observation_t db). o_ObservationID ob = q_ObservationID req \<and>
        o_ChainID ob = q_ChainID req \<and> o_Sender ob = q_Sender req)"

lemma readObservationScopeTx_Inr:
  assumes "readObservationScopeTx e db (q_ObservationID req) = Inr (Some (q_ChainID req, q_Sender req))"
  shows "scope_observed db req"
  using assms by (auto simp: readObservationScopeTx_def rbind_rules scope_observed_def dest!: find_Some_set)

text \<open>What a hold release stood on, and what it wrote.\<close>

definition hold_release_evidence :: "nonce_db \<Rightarrow> admin_request \<Rightarrow> observation \<Rightarrow> bool" where
  "hold_release_evidence db req obs \<longleftrightarrow>
     (\<exists>h \<in> set (hold_t db). h_HoldID h = q_HoldID req \<and> active_hold h \<and>
        h_ChainID h = q_ChainID req \<and> h_Sender h = q_Sender req) \<and>
     q_Evidence req \<noteq> [] \<and> scope_observed db req \<and> registered db (q_ChainID req) (q_Sender req) \<and>
     scopeAttributionOK (scope_bindings db (q_ChainID req) (q_Sender req)) \<and>
     d_Classification (scope_decision db (q_ChainID req) (q_Sender req) obs) = ClassificationConsistent"

definition hold_released :: "env \<Rightarrow> nonce_db \<Rightarrow> admin_request \<Rightarrow> observation \<Rightarrow> nonce_db \<Rightarrow> bool" where
  "hold_released e db req obs db' \<longleftrightarrow>
     (\<exists>ev i. hold_t db' = map (\<lambda>h. if h_HoldID h = q_HoldID req then released_hold e req ev i h else h) (hold_t db)) \<and>
     (\<exists>p. o_PendingCount obs = Some p \<and>
        scope_t db' = update_where (floor_under (q_ChainID req) (q_Sender req) p) (raise_floor e p) (scope_t db)) \<and>
     binding_t db' = binding_t db \<and> event_t db' = event_t db \<and> registry_t db' = registry_t db \<and>
     audit_t db' = audit_t db"

lemma hold_unique:
  assumes "nonce_inv db" "h \<in> set (hold_t db)" "h' \<in> set (hold_t db)" "h_HoldID h = h_HoldID h'"
  shows "h = h'"
  using assms unfolding nonce_inv_def hold_inv_def by (metis distinct_map inj_onD)

lemma holdReleaseApply_Inr:
  assumes run: "holdReleaseApply e db req obs reg gates cl = Inr (db', tx, out)"
    and inv: "nonce_inv db" and h: "h \<in> set (hold_t db)" "h_HoldID h = q_HoldID req" "active_hold h"
  shows "keeps db db' \<and> tx = TxOpen \<and> ot_Outcome out = AdminApplied \<and> hold_released e db req obs db'"
proof -
  from run obtain ob db1 i ev db2 db3 m where
    ins: "insertObservationTx e db ob = Inr (db1, i)" and
    rel: "releaseHoldTx e db1 (q_HoldID req) req ev i = Inr (db2, True)" and
    flr: "advanceScopeFloorTx e db2 (q_ChainID req) (q_Sender req) (o_PendingCount obs) = Inr (db3, m)" and
    out: "db' = db3" "tx = TxOpen" "ot_Outcome out = AdminApplied"
    by (auto simp: holdReleaseApply_def rbind_rules Let_def applied_def split: if_splits)
  note r = releaseHoldTx_Inr [OF rel]
  have k: "keeps db db3"
    using insertObservationTx_keeps [OF ins] r advanceScopeFloorTx_keeps [OF flr] keeps_trans by blast
  have f1: "db1 = db\<lparr>observation_t := observation_t db @ [ob\<lparr>o_ObservationID := i\<rparr>]\<rparr>"
    using insertObservationTx_Inr [OF ins] by blast
  have "h_Status r = HoldStatusActive" if "r \<in> set (hold_t db)" "h_HoldID r = q_HoldID req" for r
    using hold_unique [OF inv that(1) h(1)] that h by (simp add: active_hold_def)
  then have "update_where (\<lambda>r. h_HoldID r = q_HoldID req \<and> h_Status r = HoldStatusActive) (released_hold e req ev i) (hold_t db) =
      map (\<lambda>r. if h_HoldID r = q_HoldID req then released_hold e req ev i r else r) (hold_t db)"
    by (simp add: update_where_def)
  moreover obtain p where "o_PendingCount obs = Some p"
    "db3 = db2\<lparr>scope_t := update_where (floor_under (q_ChainID req) (q_Sender req) p) (raise_floor e p) (scope_t db2)\<rparr>"
    using flr by (rule advanceScopeFloorTx_Inr)
  ultimately have "hold_released e db req obs db3"
    using r by (auto simp: hold_released_def f1)
  with k out show ?thesis by simp
qed

text \<open>The in-transaction result of an action that did not apply: nothing but the answer.\<close>

definition declined :: "nonce_db \<Rightarrow> nonce_db \<Rightarrow> admin_tx_outcome \<Rightarrow> bool" where
  "declined db db' out \<longleftrightarrow> db' = db \<and> (ot_Outcome out = AdminNop \<or> ot_Outcome out = AdminRefused)"

lemma holdReleaseVerify_Inr:
  assumes run: "holdReleaseVerify e db req obs gates = Inr (db', tx, out)"
    and inv: "nonce_inv db" and h: "h \<in> set (hold_t db)" "h_HoldID h = q_HoldID req" "active_hold h"
  shows "declined db db' out \<or> keeps db db' \<and> tx = TxOpen \<and> ot_Outcome out = AdminApplied \<and>
    registered db (q_ChainID req) (q_Sender req) \<and> scopeAttributionOK (scope_bindings db (q_ChainID req) (q_Sender req)) \<and>
    d_Classification (scope_decision db (q_ChainID req) (q_Sender req) obs) = ClassificationConsistent \<and>
    hold_released e db req obs db'"
proof -
  let ?reg = "List.find (\<lambda>r. r_ChainID r = q_ChainID req \<and> r_Sender r = q_Sender req) (registry_t db)"
  from run have reg: "readRegistryBySenderTx e db (q_ChainID req) (q_Sender req) = Inr ?reg"
    by (auto simp: holdReleaseVerify_def rbind_rules readRegistryBySenderTx_def)
  show ?thesis
  proof (cases ?reg)
    case None
    with run reg show ?thesis by (auto simp: holdReleaseVerify_def refused_def declined_def)
  next
    case (Some r)
    then have "registered db (q_ChainID req) (q_Sender req)"
      by (auto simp: registered_def has_row_iff dest!: find_Some_set)
    with run reg Some show ?thesis
      by (auto simp: holdReleaseVerify_def rbind_rules read_rules [OF inv] refused_def declined_def Let_def
          scope_decision_def dest!: holdReleaseApply_Inr [OF _ inv h] split: if_splits)
  qed
qed

lemma holdReleaseInTx_Inr:
  assumes run: "holdReleaseInTx e db req obs = Inr (db', tx, out)" and inv: "nonce_inv db"
  shows "declined db db' out \<or> keeps db db' \<and> tx = TxOpen \<and> ot_Outcome out = AdminApplied \<and>
    hold_release_evidence db req obs \<and> hold_released e db req obs db'"
proof -
  let ?h = "List.find (\<lambda>h. h_HoldID h = q_HoldID req) (hold_t db)"
  from run have rd: "readHoldByIDForUpdateTx e db (q_HoldID req) = Inr ?h" "lockScopeRowTx e db (q_ChainID req) (q_Sender req) = Inr ()"
    by (auto simp: holdReleaseInTx_def rbind_rules readHoldByIDForUpdateTx_def)
  show ?thesis
  proof (cases "\<exists>h. ?h = Some h \<and> h_Status h = HoldStatusActive")
    case False
    with run rd show ?thesis
      by (auto simp: holdReleaseInTx_def nop_def declined_def split: option.splits if_splits)
  next
    case True
    then obtain h where h: "?h = Some h" "h_Status h = HoldStatusActive" by blast
    note hs = find_Some_set [OF h(1)]
    show ?thesis
      using run rd h hs
      by (auto simp: holdReleaseInTx_def refused_def declined_def rbind_rules hold_release_evidence_def active_hold_def
          dest!: holdReleaseVerify_Inr [OF _ inv, where h = h] readObservationScopeTx_Inr
          split: if_splits sum.splits intro!: bexI [of _ h])
  qed
qed

text \<open>What a binding release stood on, and what it wrote.\<close>

definition binding_release_evidence :: "nonce_db \<Rightarrow> admin_request \<Rightarrow> observation \<Rightarrow> bool" where
  "binding_release_evidence db req obs \<longleftrightarrow>
     (\<exists>b \<in> set (binding_t db). b_BindingID b = q_BindingID req \<and> in_binding_scope (q_ChainID req) (q_Sender req) b \<and>
        \<not> IsTerminal (b_State b) \<and>
        (\<exists>l p. o_LatestCount obs = Some l \<and> o_PendingCount obs = Some p \<and> l \<le> p \<and> p \<le> the (b_Nonce b))) \<and>
     q_Evidence req \<noteq> [] \<and> (q_ObservationID req = [] \<or> scope_observed db req) \<and>
     o_Classification obs \<noteq> ClassificationUnavailable"

definition binding_released :: "env \<Rightarrow> nonce_db \<Rightarrow> admin_request \<Rightarrow> nonce_db \<Rightarrow> bool" where
  "binding_released e db req db' \<longleftrightarrow>
     binding_t db' = map (\<lambda>b. if b_BindingID b = q_BindingID req
       then advanced_binding e StateReleased (q_OperationID req) b else b) (binding_t db) \<and>
     (\<exists>ev. event_t db' = event_t db @ [ev] \<and> event_key ev = (q_BindingID req, StateReleased) \<and>
        ev_OperationID ev = q_OperationID req) \<and>
     scope_t db' = scope_t db \<and> hold_t db' = hold_t db \<and> registry_t db' = registry_t db \<and>
     audit_t db' = audit_t db \<and> observation_t db' = observation_t db"

lemma bindingReleaseApply_Inr:
  assumes run: "bindingReleaseApply e db req obs b = Inr (db', tx, out)"
    and inv: "nonce_inv db" and b: "b \<in> set (binding_t db)" "b_BindingID b = q_BindingID req"
  shows "keeps db db' \<and> tx = TxOpen \<and> ot_Outcome out = AdminApplied \<and> binding_released e db req db'"
proof -
  define ev where "ev d = \<lparr>ev_BindingID = b_BindingID b, ev_FromState = Some (b_State b), ev_ToState = StateReleased,
    ev_ObservationID = [], ev_OperationID = q_OperationID req, ev_Detail = d\<rparr>" for d
  from run obtain db1 d where
    adv: "advanceBindingStateTx e db (b_BindingID b) StateReleased (q_OperationID req) (b_State b) = Inr (db1, True)" and
    evt: "insertBindingEventTx e db1 (ev d) = Inr (db', True)" and
    out: "tx = TxOpen" "ot_Outcome out = AdminApplied"
    by (auto simp: bindingReleaseApply_def rbind_rules Let_def applied_def ev_def split: if_splits)
  note a = advanceBindingStateTx_Inr [OF adv]
  have "known_state (b_State b)" using nonce_inv_row [OF inv b(1)] by (simp add: binding_row_ok_iff)
  then have e1: "event_row_ok (ev d)" "db' = db1\<lparr>event_t := event_t db1 @ [ev d]\<rparr>"
    using insertBindingEventTx_Inr [OF evt] by (auto simp: ev_def known_state_def)
  let ?P = "\<lambda>r. b_BindingID r = b_BindingID b \<and> b_State r = b_State b"
  let ?f = "advanced_binding e StateReleased (q_OperationID req)"
  have db': "db' = db\<lparr>binding_t := update_where ?P ?f (binding_t db), event_t := event_t db @ [ev d]\<rparr>"
    using a e1(2) by simp
  have "TerminalConsistent (?f b)" using a b(1) by blast
  then have "nonce_inv db'"
    unfolding db' using a e1(1) by (intro advance_logged [OF inv b(1)]) (auto simp: ev_def event_key_def)
  moreover have "db_evolves db db'"
    using advance_evolves [of "b_State b" StateReleased] a by (simp add: db' db_evolves_def)
  moreover have "b_State r = b_State b" if "r \<in> set (binding_t db)" "b_BindingID r = b_BindingID b" for r
    using binding_unique [OF inv that(1) b(1) that(2)] by simp
  then have "binding_released e db req db'"
    using b(2) by (simp add: binding_released_def db' update_where_def ev_def event_key_def)
  ultimately show ?thesis using out by (simp add: keeps_def)
qed

lemma bindingReleaseView_Inr:
  assumes run: "bindingReleaseView e db req obs b = Inr (db', tx, out)"
    and inv: "nonce_inv db" and b: "b \<in> set (binding_t db)" "b_BindingID b = q_BindingID req"
  shows "declined db db' out \<or> keeps db db' \<and> tx = TxOpen \<and> ot_Outcome out = AdminApplied \<and>
    binding_released e db req db' \<and> o_Classification obs \<noteq> ClassificationUnavailable \<and>
    (\<exists>l p. o_LatestCount obs = Some l \<and> o_PendingCount obs = Some p \<and> l \<le> p \<and> p \<le> the (b_Nonce b))"
proof (cases "o_LatestCount obs"; cases "o_PendingCount obs")
  fix l p assume lp: "o_LatestCount obs = Some l" "o_PendingCount obs = Some p"
  show ?thesis
  proof (cases "o_Classification obs = ClassificationUnavailable \<or> l > p \<or> l > the (b_Nonce b) \<or> p > the (b_Nonce b)")
    case True
    with run lp show ?thesis by (auto simp: bindingReleaseView_def refused_def declined_def split: if_splits)
  next
    case False
    with run lp have "bindingReleaseApply e db req obs b = Inr (db', tx, out)" by (simp add: bindingReleaseView_def)
    from bindingReleaseApply_Inr [OF this inv b] False lp show ?thesis by auto
  qed
qed (use run in \<open>auto simp: bindingReleaseView_def refused_def declined_def\<close>)

lemma bindingReleaseInTx_Inr:
  assumes run: "bindingReleaseInTx e db req obs = Inr (db', tx, out)" and inv: "nonce_inv db"
  shows "declined db db' out \<or> keeps db db' \<and> tx = TxOpen \<and> ot_Outcome out = AdminApplied \<and>
    binding_release_evidence db req obs \<and> binding_released e db req db'"
proof -
  let ?b = "List.find (\<lambda>b. b_BindingID b = q_BindingID req) (binding_t db)"
  from run have rd: "readBindingByIDForUpdateTx e db (q_BindingID req) = Inr ?b"
    "lockScopeRowTx e db (q_ChainID req) (q_Sender req) = Inr ()"
    by (auto simp: bindingReleaseInTx_def rbind_rules readBindingByIDForUpdateTx_def scanBindingRow_find [OF inv])
  show ?thesis
  proof (cases "\<exists>b. ?b = Some b \<and> b_State b \<noteq> StateReleased")
    case False
    with run rd show ?thesis
      by (auto simp: bindingReleaseInTx_def nop_def declined_def split: option.splits if_splits)
  next
    case True
    then obtain b where b: "?b = Some b" "b_State b \<noteq> StateReleased" by blast
    note bs = find_Some_set [OF b(1)]
    have "declined db db' out \<or> b_State b \<noteq> StateConsumed \<and> in_binding_scope (q_ChainID req) (q_Sender req) b \<and>
        q_Evidence req \<noteq> [] \<and> (q_ObservationID req = [] \<or> scope_observed db req) \<and>
        bindingReleaseView e db req obs b = Inr (db', tx, out)"
      using run rd b
      by (auto simp: bindingReleaseInTx_def refused_def declined_def rbind_rules in_binding_scope_def
          dest!: readObservationScopeTx_Inr split: if_splits)
    then show ?thesis
      using bindingReleaseView_Inr [OF _ inv, of e req obs b db' tx out] bs b(2)
      unfolding binding_release_evidence_def IsTerminal_def by blast
  qed
qed

text \<open>What a registry action wrote.\<close>

definition registry_changed :: "env \<Rightarrow> nonce_db \<Rightarrow> admin_request \<Rightarrow> nonce_db \<Rightarrow> bool" where
  "registry_changed e db req db' \<longleftrightarrow>
     scope_t db' = scope_t db \<and> binding_t db' = binding_t db \<and> event_t db' = event_t db \<and>
     observation_t db' = observation_t db \<and> hold_t db' = hold_t db \<and> audit_t db' = audit_t db \<and>
     (if q_Action req = AdminActionRegistryRegister \<and> \<not> registered db (q_ChainID req) (q_Sender req)
      then registry_t db' = registry_t db @ [\<lparr>r_ChainID = q_ChainID req, r_Sender = q_Sender req,
             r_State = RegistryActive, r_RegistrySeq = 1, r_CreatedAt = now_at e, r_UpdatedAt = now_at e\<rparr>]
      else let old = (if q_Action req = AdminActionRegistryRegister then RegistryDisabled else RegistryActive);
               new = (if q_Action req = AdminActionRegistryRegister then RegistryActive else RegistryDisabled)
           in has_row (\<lambda>r. is_wallet (q_ChainID req) (q_Sender req) r \<and> r_State r = old) (registry_t db) \<and>
              registry_t db' = update_where (\<lambda>r. is_wallet (q_ChainID req) (q_Sender req) r \<and> r_State r = old)
                (\<lambda>r. r\<lparr>r_State := new, r_RegistrySeq := r_RegistrySeq r + 1, r_UpdatedAt := now_at e\<rparr>) (registry_t db))"

lemma count_where_one: "count_where P t = Suc 0 \<Longrightarrow> has_row P t"
  using count_where_pos [of P t] by simp

lemma bump_none:
  assumes "nonce_inv db" "count_where (\<lambda>r. is_wallet chain sender r \<and> r_State r = old) (registry_t db) \<noteq> 1"
  shows "\<not> has_row (\<lambda>r. is_wallet chain sender r \<and> r_State r = old) (registry_t db)"
proof -
  have "distinct (map registry_key (registry_t db))" using assms(1) by (simp add: nonce_inv_def registry_inv_def)
  then have "count_where (\<lambda>r. is_wallet chain sender r \<and> r_State r = old) (registry_t db) \<le> 1"
    by (rule count_where_unique) (auto simp: is_wallet_def registry_key_def)
  with assms(2) show ?thesis by (metis One_nat_def Suc_leI count_where_pos le_antisym)
qed

lemma registryInTx_Inr:
  assumes run: "registryInTx e db req = Inr (db', tx, out)" and inv: "nonce_inv db"
  shows "tx = TxOpen \<and> (declined db db' out \<or> keeps db db' \<and> ot_Outcome out = AdminApplied \<and> registry_changed e db req db')"
proof (cases "q_Action req = AdminActionRegistryRegister")
  case True
  show ?thesis
  proof (cases "registered db (q_ChainID req) (q_Sender req)")
    case False
    with True run show ?thesis
      by (auto simp: registryInTx_def rbind_rules applied_def nop_def registry_changed_def
          dest!: ensureRegistryRow_Inr split: if_splits)
  next
    case reg: True
    with True run obtain db2 ok where
      bump: "bumpRegistry e db BumpRegistryActive (q_ChainID req) (q_Sender req) RegistryDisabled RegistryActive = Inr (db2, ok)"
      and out: "(if ok then applied db2 ''sender re-enabled with a bumped registry_seq''
          else nop db2 ''sender is already registered and active; zero change'') = Inr (db', tx, out)"
      by (auto simp: registryInTx_def rbind_rules dest!: ensureRegistryRow_Inr split: if_splits)
    note u = bumpRegistry_Inr [OF bump]
    then show ?thesis
      using out reg True bump_none [OF inv, of "q_ChainID req" "q_Sender req" RegistryDisabled]
      by (auto simp: applied_def nop_def declined_def registry_changed_def Let_def update_where_none
          dest: count_where_one split: if_splits)
  qed
next
  case False
  with run obtain db2 ok where
    bump: "bumpRegistry e db DisableRegistry (q_ChainID req) (q_Sender req) RegistryActive RegistryDisabled = Inr (db2, ok)"
    and out: "(if ok then applied db2 ''sender disabled with a bumped registry_seq''
        else nop db2 ''sender is unregistered or already disabled; zero change'') = Inr (db', tx, out)"
    by (auto simp: registryInTx_def rbind_rules)
  note u = bumpRegistry_Inr [OF bump]
  then show ?thesis
    using out False bump_none [OF inv, of "q_ChainID req" "q_Sender req" RegistryActive]
    by (auto simp: applied_def nop_def declined_def registry_changed_def Let_def update_where_none
        dest: count_where_one split: if_splits)
qed

section \<open>The runner\<close>

definition admin_applied :: "env \<Rightarrow> nonce_db \<Rightarrow> admin_request \<Rightarrow> observation \<Rightarrow> nonce_db \<Rightarrow> bool" where
  "admin_applied e db req obs db' =
     (case q_Action req of
        AdminActionHoldRelease \<Rightarrow> hold_release_evidence db req obs \<and> hold_released e db req obs db'
      | AdminActionBindingRelease \<Rightarrow> binding_release_evidence db req obs \<and> binding_released e db req db'
      | _ \<Rightarrow> registry_changed e db req db')"

lemma admin_predicates_lease [simp]:
  "hold_release_evidence (db\<lparr>lease_t := ls\<rparr>) req obs = hold_release_evidence db req obs"
  "hold_released e (db\<lparr>lease_t := ls\<rparr>) req obs db' = hold_released e db req obs db'"
  "binding_release_evidence (db\<lparr>lease_t := ls\<rparr>) req obs = binding_release_evidence db req obs"
  "binding_released e (db\<lparr>lease_t := ls\<rparr>) req db' = binding_released e db req db'"
  "registry_changed e (db\<lparr>lease_t := ls\<rparr>) req db' = registry_changed e db req db'"
  by (simp_all add: hold_release_evidence_def hold_released_def binding_release_evidence_def binding_released_def
      registry_changed_def registered_def scope_observed_def scope_decision_def scope_bindings_def)

lemma applied_audit: "admin_applied e db req obs db' \<Longrightarrow> audit_t db' = audit_t db"
  by (auto simp: admin_applied_def hold_released_def binding_released_def registry_changed_def split: admin_action.splits)

lemma adminInTx_Inr:
  assumes run: "adminInTx e db req obs = Inr (db', tx, out)" and inv: "nonce_inv db"
  shows "keeps db db' \<and>
    (same_tables db db' \<and> (ot_Outcome out = AdminNop \<or> ot_Outcome out = AdminRefused) \<or>
     tx = TxOpen \<and> ot_Outcome out = AdminApplied \<and> admin_applied e db req obs db')"
proof -
  obtain ls where lock: "lockChain e db (q_ChainID req) = Inr (db\<lparr>lease_t := ls\<rparr>)"
    using run lockChain_Inr by (fastforce simp: adminInTx_def rbind_rules)
  define db1 where "db1 = db\<lparr>lease_t := ls\<rparr>"
  have k1: "keeps db db1" using lockChain_keeps [OF lock] by (simp add: db1_def)
  have i1: "nonce_inv db1" using keeps_inv [OF k1 inv] .
  have "declined db1 db' out \<or> keeps db1 db' \<and> tx = TxOpen \<and> ot_Outcome out = AdminApplied \<and> admin_applied e db1 req obs db'"
    using run lock holdReleaseInTx_Inr [OF _ i1, of e req obs db' tx out]
      bindingReleaseInTx_Inr [OF _ i1, of e req obs db' tx out] registryInTx_Inr [OF _ i1, of e req db' tx out]
    by (auto simp: adminInTx_def admin_applied_def db1_def split: admin_action.splits)
  moreover have "admin_applied e db1 req obs db' = admin_applied e db req obs db'"
    by (simp add: admin_applied_def db1_def split: admin_action.split)
  moreover have "same_tables db db1" by (simp add: same_tables_def db1_def)
  ultimately show ?thesis using k1 keeps_trans by (auto simp: declined_def)
qed

lemma insertAuditTx_Inr:
  assumes "insertAuditTx e db tx req out = Inr db'"
  shows "tx = TxOpen \<and> keeps db db' \<and> db' = db\<lparr>audit_t := audit_t db @ [audit_row e req out]\<rparr> \<and>
    \<not> has_row (\<lambda>a. au_OperationID a = q_OperationID req) (audit_t db)"
proof -
  from assms have c: "tx \<noteq> TxAborted" "audit_insert_error db (audit_row e req out) = None"
    "db' = db\<lparr>audit_t := audit_t db @ [audit_row e req out]\<rparr>"
    by (auto simp: insertAuditTx_def rbind_rules split: if_splits option.splits)
  have "au_OperationID (audit_row e req out) = q_OperationID req" by (simp add: audit_row_def)
  then have "audit_row_ok (audit_row e req out)" "\<not> has_row (\<lambda>a. au_OperationID a = q_OperationID req) (audit_t db)"
    using c(2) by (auto simp: audit_insert_error_def audit_row_ok_def first_violation_None split: option.splits if_splits)
  moreover have "tx = TxOpen" using c(1) by (cases tx) auto
  ultimately show ?thesis
    using c(3) \<open>au_OperationID _ = _\<close> by (auto simp: keeps_def db_evolves_def intro!: nonce_inv_audit_insert)
qed

text \<open>Every run either leaves the database alone or made one audited transaction durable.\<close>

lemma Run_durable:
  assumes run: "Run e db req obs e2 db2 = (db', res)" and inv: "nonce_inv db"
  obtains (unchanged) "db' = db"
  | (durable) db1 out where "keeps db db1" "keeps db1 db'" "db' = db1\<lparr>audit_t := audit_t db @ [audit_row e req out]\<rparr>"
      "\<not> has_row (\<lambda>a. au_OperationID a = q_OperationID req) (audit_t db)"
      "same_tables db db1 \<and> (ot_Outcome out = AdminNop \<or> ot_Outcome out = AdminRefused) \<or>
       ot_Outcome out = AdminApplied \<and> admin_applied e db req (the obs) db1"
      "res = Inr \<lparr>ad_Outcome = ot_Outcome out, ad_Action = q_Action req, ad_SubjectID = subjectID req,
         ad_Detail = ot_Detail out\<rparr> \<or> fault e CommitTx \<noteq> None"
proof (cases "db' = db")
  case False
  with run obtain db1 tx out where tx: "adminInTx e db req (the obs) = Inr (db1, tx, out)"
    and aud: "insertAuditTx e db1 tx req out = Inr db'"
    and res: "res = Inr \<lparr>ad_Outcome = ot_Outcome out, ad_Action = q_Action req, ad_SubjectID = subjectID req,
         ad_Detail = ot_Detail out\<rparr> \<or> fault e CommitTx \<noteq> None"
    by (auto simp: Run_def committed_def split: sum.splits option.splits if_splits prod.splits)
  note a = insertAuditTx_Inr [OF aud] and t = adminInTx_Inr [OF tx inv]
  have same: "audit_t db1 = audit_t db" using t applied_audit by (auto simp: same_tables_def)
  show thesis using durable [of db1 out] a t res unfolding same by blast
qed (use unchanged in blast)

lemma Run_keeps:
  assumes "Run e db req obs e2 db2 = (db', res)" "nonce_inv db"
  shows "nonce_inv db' \<and> db_evolves db db'"
  using assms
proof (cases rule: Run_durable)
  case unchanged
  then show ?thesis using assms(2) by simp
next
  case (durable db1 out)
  then have "keeps db db'" using keeps_trans by blast
  then show ?thesis using assms(2) keeps_inv keeps_evolves by blast
qed

end
