(* ===== verification/NonceAdminRefine.thy ===== *)
theory NonceAdminRefine
  imports NonceAdminSpec
begin

text \<open>
  The operator transactions against their specification: in a healthy environment every valid request is
  answered and audited with exactly the outcome the durable rows dictate, and a repeated operation id replays it.
\<close>

section \<open>The actions answer what the durable rows say\<close>

definition hold_release_spec :: "nonce_db \<Rightarrow> admin_request \<Rightarrow> observation \<Rightarrow> outcome" where
  "hold_release_spec db req obs =
     (if \<not> has_row (\<lambda>h. h_HoldID h = q_HoldID req \<and> active_hold h) (hold_t db) then AdminNop
      else if hold_release_evidence db req obs then AdminApplied else AdminRefused)"

definition binding_release_spec :: "nonce_db \<Rightarrow> admin_request \<Rightarrow> observation \<Rightarrow> outcome" where
  "binding_release_spec db req obs =
     (if \<not> has_row (\<lambda>b. b_BindingID b = q_BindingID req \<and> b_State b \<noteq> StateReleased) (binding_t db) then AdminNop
      else if binding_release_evidence db req obs then AdminApplied else AdminRefused)"

definition registry_spec :: "nonce_db \<Rightarrow> admin_request \<Rightarrow> outcome" where
  "registry_spec db req =
     (let wallet = is_wallet (q_ChainID req) (q_Sender req) in
      if q_Action req = AdminActionRegistryRegister
      then if has_row (\<lambda>r. wallet r \<and> r_State r = RegistryActive) (registry_t db) then AdminNop else AdminApplied
      else if has_row (\<lambda>r. wallet r \<and> r_State r = RegistryActive) (registry_t db) then AdminApplied else AdminNop)"

definition admin_spec :: "nonce_db \<Rightarrow> admin_request \<Rightarrow> observation \<Rightarrow> outcome" where
  "admin_spec db req obs =
     (case q_Action req of
        AdminActionHoldRelease \<Rightarrow> hold_release_spec db req obs
      | AdminActionBindingRelease \<Rightarrow> binding_release_spec db req obs
      | _ \<Rightarrow> registry_spec db req)"

lemma find_key:
  assumes "distinct (map key t)" "x \<in> set t" "\<And>r. P r \<Longrightarrow> key r = key x" "P x"
  shows "List.find P t = Some x"
proof -
  obtain y where y: "List.find P t = Some y" using assms(2,4) by (meson find_None_set not_None_eq)
  note ys = find_Some_set [OF y]
  then have "y = x" using assms by (metis distinct_map inj_onD)
  with y show ?thesis by simp
qed

lemma readObservationScopeTx_total:
  assumes nf: "\<And>s. fault e s = None" and inv: "nonce_inv db"
  shows "\<exists>r. readObservationScopeTx e db (q_ObservationID req) = Inr r \<and>
    (r = Some (q_ChainID req, q_Sender req) \<longleftrightarrow> scope_observed db req)"
proof -
  let ?r = "map_option (\<lambda>o'. (o_ChainID o', o_Sender o'))
    (List.find (\<lambda>o'. o_ObservationID o' = q_ObservationID req) (observation_t db))"
  have rd: "readObservationScopeTx e db (q_ObservationID req) = Inr ?r" by (simp add: readObservationScopeTx_def nf)
  have "?r = Some (q_ChainID req, q_Sender req)" if "scope_observed db req"
  proof -
    from that obtain ob where ob: "ob \<in> set (observation_t db)" "o_ObservationID ob = q_ObservationID req"
      "o_ChainID ob = q_ChainID req" "o_Sender ob = q_Sender req" by (auto simp: scope_observed_def)
    have "distinct (map o_ObservationID (observation_t db))" using inv by (simp add: nonce_inv_def observation_inv_def)
    from find_key [OF this ob(1), of "\<lambda>o'. o_ObservationID o' = q_ObservationID req"] ob show ?thesis by simp
  qed
  moreover have "scope_observed db req" if "?r = Some (q_ChainID req, q_Sender req)"
    using readObservationScopeTx_Inr [of e db req] rd that by simp
  ultimately show ?thesis using rd by blast
qed

lemma scope_observed_named: "nonce_inv db \<Longrightarrow> scope_observed db req \<Longrightarrow> q_ObservationID req \<noteq> []"
  by (auto simp: scope_observed_def nonce_inv_def observation_inv_def)

lemma Classify_consistent:
  assumes "d_Classification (Classify i) = ClassificationConsistent"
  shows "ci_Latest i \<noteq> None \<and> ci_Pending i \<noteq> None \<and> d_Candidate (Classify i) \<noteq> None"
  using assms by (auto simp: Classify_def Let_def split: bool.splits option.splits sum.splits if_splits)

lemma holdReleaseApply_total:
  assumes h: "healthy e db" and inv: "nonce_inv db" and smp: "sampled (q_ChainID req) (q_Sender req) obs"
    and cs: "q_ChainID req > 0" "sender_ok (q_Sender req)" and pend: "o_PendingCount obs \<noteq> None"
    and cl: "persistable cl" and hold: "hr \<in> set (hold_t db)" "h_HoldID hr = q_HoldID req" "active_hold hr"
  shows "\<exists>x. holdReleaseApply e db req obs reg gates cl = Inr x"
proof -
  have nf: "fault e s = None" for s using h by (rule healthy_fault)
  let ?ob = "\<lparr>o_ObservationID = [], o_ChainID = q_ChainID req, o_Sender = q_Sender req,
         o_Kind = ObservationKindReconcile, o_Classification = cl, o_LatestCount = o_LatestCount obs,
         o_PendingCount = o_PendingCount obs, o_HeadNumber = o_HeadNumber obs, o_HeadHash = o_HeadHash obs,
         o_ErrorClass = [], o_RPCRef = o_RPCRef obs\<rparr>"
  have "sampled (q_ChainID req) (q_Sender req) ?ob" using smp by (simp add: sampled_def)
  from insertObservationTx_total [OF h this cs cl] obtain db1 i where
    ins: "insertObservationTx e db ?ob = Inr (db1, i)" by auto
  have h1: "hold_t db1 = hold_t db" using insertObservationTx_Inr [OF ins] by simp
  have "distinct (map h_HoldID (hold_t db))" using inv by (simp add: nonce_inv_def hold_inv_def)
  then have "count_where (\<lambda>h. h_HoldID h = q_HoldID req \<and> h_Status h = HoldStatusActive) (hold_t db) \<le> 1"
    by (rule count_where_unique) auto
  moreover have "has_row (\<lambda>h. h_HoldID h = q_HoldID req \<and> h_Status h = HoldStatusActive) (hold_t db)"
    using hold by (auto simp: has_row_iff active_hold_def)
  then have "0 < count_where (\<lambda>h. h_HoldID h = q_HoldID req \<and> h_Status h = HoldStatusActive) (hold_t db)"
    by (simp add: count_where_pos)
  ultimately have "count_where (\<lambda>h. h_HoldID h = q_HoldID req \<and> h_Status h = HoldStatusActive) (hold_t db) = 1"
    by linarith
  then have rel: "\<exists>db2. releaseHoldTx e db1 (q_HoldID req) req ev i = Inr (db2, True)" for ev
    by (simp add: releaseHoldTx_def nf h1 Let_def)
  obtain p where "o_PendingCount obs = Some p" "in_nonce_range p"
    using pend smp by (auto simp: sampled_def opt_in_range_def)
  then have flr: "\<exists>db3 m. advanceScopeFloorTx e db2 (q_ChainID req) (q_Sender req) (o_PendingCount obs) = Inr (db3, m)" for db2
    by (simp add: advanceScopeFloorTx_def nf ValidateNonceRange_ok Let_def)
  let ?active = "hold_order (filter (hold_active_in (q_ChainID req) (q_Sender req)) (hold_t db))"
  have "readActiveHoldsTx e db (q_ChainID req) (q_Sender req) = Inr ?active"
    by (simp add: readActiveHoldsTx_def nf)
  moreover obtain db2 where "releaseHoldTx e db1 (q_HoldID req) req
      (q_Evidence req @ '' | '' @ release_version reg (length ?active) gates i) i = Inr (db2, True)" using rel by blast
  moreover obtain db3 m where "advanceScopeFloorTx e db2 (q_ChainID req) (q_Sender req) (o_PendingCount obs) = Inr (db3, m)"
    using flr by blast
  ultimately show ?thesis using ins by (simp add: holdReleaseApply_def Let_def applied_def)
qed

lemma holdReleaseVerify_total:
  assumes h: "healthy e db" and inv: "nonce_inv db" and smp: "sampled (q_ChainID req) (q_Sender req) obs"
    and cs: "q_ChainID req > 0" "sender_ok (q_Sender req)"
    and hold: "hr \<in> set (hold_t db)" "h_HoldID hr = q_HoldID req" "active_hold hr"
  shows "\<exists>db' out. holdReleaseVerify e db req obs gates = Inr (db', TxOpen, out) \<and>
    ot_Outcome out = (if registered db (q_ChainID req) (q_Sender req) \<and>
        scopeAttributionOK (scope_bindings db (q_ChainID req) (q_Sender req)) \<and>
        d_Classification (scope_decision db (q_ChainID req) (q_Sender req) obs) = ClassificationConsistent
      then AdminApplied else AdminRefused)"
proof -
  have nf: "fault e s = None" for s using h by (rule healthy_fault)
  let ?reg = "List.find (\<lambda>r. r_ChainID r = q_ChainID req \<and> r_Sender r = q_Sender req) (registry_t db)"
  have rd: "readRegistryBySenderTx e db (q_ChainID req) (q_Sender req) = Inr ?reg"
    by (simp add: readRegistryBySenderTx_def nf)
  define dec where "dec = scope_decision db (q_ChainID req) (q_Sender req) obs"
  note ev = holdReleaseVerify_def rd read_rules [OF inv] nf refused_def Let_def dec_def scope_decision_def
  show ?thesis
  proof (cases ?reg)
    case None
    then have "\<not> registered db (q_ChainID req) (q_Sender req)"
      by (auto simp: registered_def has_row_iff find_None_set)
    with None show ?thesis by (simp add: ev)
  next
    case (Some r)
    then have reg: "registered db (q_ChainID req) (q_Sender req)"
      by (auto simp: registered_def has_row_iff dest!: find_Some_set)
    show ?thesis
    proof (cases "scopeAttributionOK (scope_bindings db (q_ChainID req) (q_Sender req)) \<and>
        d_Classification dec = ClassificationConsistent")
      case False
      with Some show ?thesis by (auto simp: ev)
    next
      case True
      then have "o_PendingCount obs \<noteq> None"
        using Classify_consistent by (fastforce simp: dec_def scope_decision_def scope_classify_def)
      then obtain x where "holdReleaseApply e db req obs r gates ClassificationConsistent = Inr x"
        using holdReleaseApply_total [OF h inv smp cs _ _ hold] by (fastforce simp: persistable_def)
      moreover obtain db' tx out where "x = (db', tx, out)" by (rule prod_cases3)
      moreover from calculation have "tx = TxOpen" "ot_Outcome out = AdminApplied"
        using holdReleaseApply_Inr [OF _ inv hold] by blast+
      ultimately show ?thesis using True Some reg by (simp add: ev)
    qed
  qed
qed

lemma holdReleaseInTx_total:
  assumes h: "healthy e db" and inv: "nonce_inv db" and smp: "sampled (q_ChainID req) (q_Sender req) obs"
    and cs: "q_ChainID req > 0" "sender_ok (q_Sender req)"
    and scope: "has_row (in_scope (q_ChainID req) (q_Sender req)) (scope_t db)"
  shows "\<exists>db' out. holdReleaseInTx e db req obs = Inr (db', TxOpen, out) \<and> ot_Outcome out = hold_release_spec db req obs"
proof -
  have nf: "fault e s = None" for s using h by (rule healthy_fault)
  let ?h = "List.find (\<lambda>h. h_HoldID h = q_HoldID req) (hold_t db)"
  note ev = holdReleaseInTx_def lockScopeRowTx_def nf scope readHoldByIDForUpdateTx_def nop_def refused_def
  show ?thesis
  proof (cases "has_row (\<lambda>h. h_HoldID h = q_HoldID req \<and> active_hold h) (hold_t db)")
    case False
    then have "?h = None \<or> (\<exists>h. ?h = Some h \<and> h_Status h \<noteq> HoldStatusActive)"
      by (cases ?h) (auto simp: has_row_iff active_hold_def dest!: find_Some_set)
    with False show ?thesis by (auto simp: ev hold_release_spec_def)
  next
    case True
    then obtain hr where hr: "hr \<in> set (hold_t db)" "h_HoldID hr = q_HoldID req" "active_hold hr" by (auto simp: has_row_iff)
    have "distinct (map h_HoldID (hold_t db))" using inv by (simp add: nonce_inv_def hold_inv_def)
    from find_key [OF this hr(1), of "\<lambda>h. h_HoldID h = q_HoldID req"] hr have fd: "?h = Some hr" by simp
    have only: "(\<exists>h \<in> set (hold_t db). h_HoldID h = q_HoldID req \<and> active_hold h \<and> h_ChainID h = q_ChainID req \<and>
        h_Sender h = q_Sender req) \<longleftrightarrow> h_ChainID hr = q_ChainID req \<and> h_Sender hr = q_Sender req"
      using hr hold_unique [OF inv _ hr(1)] by metis
    obtain rs where rs: "readObservationScopeTx e db (q_ObservationID req) = Inr rs"
      "rs = Some (q_ChainID req, q_Sender req) \<longleftrightarrow> scope_observed db req"
      using readObservationScopeTx_total [OF nf inv] by blast
    have gates: "readGateStateTx e db (q_ChainID req) = Inr (gate_of db (q_ChainID req))" by (simp add: rbind_rules nf)
    show ?thesis
      using True fd hr(3) rs gates only scope_observed_named [OF inv, of req]
        holdReleaseVerify_total [OF h inv smp cs hr, of "gate_of db (q_ChainID req)"]
      by (auto simp: ev hold_release_spec_def hold_release_evidence_def active_hold_def)
  qed
qed

lemma bindingReleaseApply_total:
  assumes nf: "\<And>s. fault e s = None" and inv: "nonce_inv db" and b: "b \<in> set (binding_t db)"
    and live: "\<not> IsTerminal (b_State b)" and op: "q_OperationID req \<noteq> []"
  shows "\<exists>x. bindingReleaseApply e db req obs b = Inr x"
proof -
  let ?f = "advanced_binding e StateReleased (q_OperationID req)"
  let ?P = "\<lambda>r. b_BindingID r = b_BindingID b \<and> b_State r = b_State b"
  have ok: "binding_row_ok b" using nonce_inv_row [OF inv b] .
  then have known: "known_state (b_State b)" by (simp add: binding_row_ok_iff)
  have edge: "CanTransition (b_State b) StateReleased"
    using live known by (auto simp: CanTransition_cases IsTerminal_def known_state_def)
  have tc: "TerminalConsistent (?f b)"
    using ok live op by (auto simp: binding_row_ok_iff TerminalConsistent_def advanced_binding_def IsTerminal_def split: if_splits)
  have "distinct (map b_BindingID (binding_t db))" using inv by (simp add: nonce_inv_def binding_inv_def)
  then have "count_where ?P (binding_t db) \<le> 1" by (rule count_where_unique) auto
  moreover have "0 < count_where ?P (binding_t db)" using b by (auto simp: count_where_pos has_row_iff)
  ultimately have one: "count_where ?P (binding_t db) = 1" by linarith
  have adv: "advanceBindingStateTx e db (b_BindingID b) StateReleased (q_OperationID req) (b_State b) =
      Inr (db\<lparr>binding_t := update_where ?P ?f (binding_t db)\<rparr>, True)"
    using edge nf one tc binding_unique [OF inv _ b]
    by (auto simp: advanceBindingStateTx_def Let_def has_row_iff)
  let ?ev = "\<lambda>d. \<lparr>ev_BindingID = b_BindingID b, ev_FromState = Some (b_State b), ev_ToState = StateReleased,
     ev_ObservationID = [], ev_OperationID = q_OperationID req, ev_Detail = d\<rparr>"
  have "\<exists>db2. insertBindingEventTx e (db\<lparr>binding_t := t\<rparr>) (?ev d) = Inr (db2, True)" for t d
  proof -
    have ev: "event_row_ok (?ev d)" "ev_FromState (?ev d) \<noteq> Some (StateOther [])"
      using known by (auto simp: event_row_ok_def known_state_def)
    obtain db2 c where evt: "insertBindingEventTx e (db\<lparr>binding_t := t\<rparr>) (?ev d) = Inr (db2, c)"
      using insertBindingEventTx_total [OF nf ev] by blast
    then show ?thesis
      using insertBindingEventTx_Inr [OF evt ev(2)] move_not_logged [OF inv b edge] by (auto simp: event_key_def)
  qed
  then obtain db2 where "insertBindingEventTx e (db\<lparr>binding_t := update_where ?P ?f (binding_t db)\<rparr>)
      (?ev ((''fresh latest='' @ FormatDecimal (o_LatestCount obs) @ '' pending='' @ FormatDecimal (o_PendingCount obs) @
        '' nonce='' @ FormatDecimal (b_Nonce b)) @ ''; '' @ q_Evidence req)) = Inr (db2, True)" by blast
  with adv show ?thesis by (simp add: bindingReleaseApply_def applied_def Let_def)
qed

lemma bindingReleaseInTx_total:
  assumes nf: "\<And>s. fault e s = None" and inv: "nonce_inv db" and op: "q_OperationID req \<noteq> []"
    and scope: "has_row (in_scope (q_ChainID req) (q_Sender req)) (scope_t db)"
  shows "\<exists>db' out. bindingReleaseInTx e db req obs = Inr (db', TxOpen, out) \<and> ot_Outcome out = binding_release_spec db req obs"
proof -
  let ?b = "List.find (\<lambda>b. b_BindingID b = q_BindingID req) (binding_t db)"
  have rd: "readBindingByIDForUpdateTx e db (q_BindingID req) = Inr ?b"
    by (simp add: readBindingByIDForUpdateTx_def nf scanBindingRow_find [OF inv])
  note ev = bindingReleaseInTx_def lockScopeRowTx_def nf scope rd nop_def refused_def
  show ?thesis
  proof (cases "has_row (\<lambda>b. b_BindingID b = q_BindingID req \<and> b_State b \<noteq> StateReleased) (binding_t db)")
    case False
    then have "?b = None \<or> (\<exists>b. ?b = Some b \<and> b_State b = StateReleased)"
      by (cases ?b) (auto simp: has_row_iff dest!: find_Some_set)
    with False show ?thesis by (auto simp: ev binding_release_spec_def)
  next
    case True
    then obtain b where b: "b \<in> set (binding_t db)" "b_BindingID b = q_BindingID req" "b_State b \<noteq> StateReleased"
      by (auto simp: has_row_iff)
    have "distinct (map b_BindingID (binding_t db))" using inv by (simp add: nonce_inv_def binding_inv_def)
    from find_key [OF this b(1), of "\<lambda>b. b_BindingID b = q_BindingID req"] b have fd: "?b = Some b" by simp
    let ?view = "\<exists>l p. o_LatestCount obs = Some l \<and> o_PendingCount obs = Some p \<and> l \<le> p \<and> p \<le> the (b_Nonce b)"
    have "b' = b" if "b' \<in> set (binding_t db)" "b_BindingID b' = q_BindingID req" for b'
      using binding_unique [OF inv that(1) b(1)] that(2) b(2) by simp
    then have only: "(\<exists>b \<in> set (binding_t db). b_BindingID b = q_BindingID req \<and> in_binding_scope (q_ChainID req) (q_Sender req) b \<and>
        \<not> IsTerminal (b_State b) \<and> (\<exists>l p. o_LatestCount obs = Some l \<and> o_PendingCount obs = Some p \<and> l \<le> p \<and> p \<le> the (b_Nonce b)))
      \<longleftrightarrow> in_binding_scope (q_ChainID req) (q_Sender req) b \<and> b_State b \<noteq> StateConsumed \<and> ?view"
      using b unfolding IsTerminal_def by blast
    obtain rs where rs: "readObservationScopeTx e db (q_ObservationID req) = Inr rs"
      "rs = Some (q_ChainID req, q_Sender req) \<longleftrightarrow> scope_observed db req"
      using readObservationScopeTx_total [OF nf inv] by blast
    have view: "\<exists>db' out. bindingReleaseView e db req obs b = Inr (db', TxOpen, out) \<and>
        ot_Outcome out = (if o_Classification obs \<noteq> ClassificationUnavailable \<and> ?view then AdminApplied else AdminRefused)"
      if "b_State b \<noteq> StateConsumed"
    proof (cases "o_Classification obs \<noteq> ClassificationUnavailable \<and> ?view")
      case True
      have "\<not> IsTerminal (b_State b)" using b(3) that by (simp add: IsTerminal_def)
      from bindingReleaseApply_total [OF nf inv b(1) this op] obtain db' tx out where
        ap: "bindingReleaseApply e db req obs b = Inr (db', tx, out)" by (metis prod_cases3)
      with bindingReleaseApply_Inr [OF ap inv b(1,2)] True show ?thesis by (auto simp: bindingReleaseView_def)
    next
      case False
      then show ?thesis
        by (cases "o_LatestCount obs"; cases "o_PendingCount obs") (auto simp: bindingReleaseView_def refused_def)
    qed
    show ?thesis
      using True fd b(3) rs only view
      by (auto simp: ev binding_release_spec_def binding_release_evidence_def in_binding_scope_def)
  qed
qed

lemma registryInTx_total:
  assumes nf: "\<And>s. fault e s = None" and inv: "nonce_inv db" and cs: "q_ChainID req > 0" "sender_ok (q_Sender req)"
    and seq: "\<forall>r \<in> set (registry_t db). r_RegistrySeq r < MaxBigint"
  shows "\<exists>db' out. registryInTx e db req = Inr (db', TxOpen, out) \<and> ot_Outcome out = registry_spec db req"
proof -
  let ?w = "is_wallet (q_ChainID req) (q_Sender req)"
  have cnt: "(count_where (\<lambda>r. ?w r \<and> r_State r = st) (registry_t db) = 1) = has_row (\<lambda>r. ?w r \<and> r_State r = st) (registry_t db)" for st
    using bump_none [OF inv] count_where_one by (metis One_nat_def)
  have bump: "\<exists>db'. bumpRegistry e db s (q_ChainID req) (q_Sender req) old new =
      Inr (db', has_row (\<lambda>r. ?w r \<and> r_State r = old) (registry_t db))" for s old new
  proof -
    have "\<not> has_row (\<lambda>r. (?w r \<and> r_State r = old) \<and> MaxBigint \<le> r_RegistrySeq r) (registry_t db)"
      using seq by (force simp: has_row_iff)
    then show ?thesis unfolding bumpRegistry_def Let_def cnt by (simp add: nf)
  qed
  have st: "r_State r = RegistryDisabled \<longleftrightarrow> r_State r \<noteq> RegistryActive" if "r \<in> set (registry_t db)" for r
    using nonce_inv_registry_row [OF inv that] by (auto simp: registry_row_ok_def)
  have one: "r = r'" if "r \<in> set (registry_t db)" "r' \<in> set (registry_t db)" "?w r" "?w r'" for r r'
    using inv that unfolding nonce_inv_def registry_inv_def is_wallet_def
    by (metis (no_types, lifting) distinct_map inj_onD registry_key_def)
  show ?thesis
  proof (cases "q_Action req = AdminActionRegistryRegister")
    case True
    show ?thesis
    proof (cases "has_row ?w (registry_t db)")
      case False
      then have "\<not> has_row (\<lambda>r. ?w r \<and> r_State r = RegistryActive) (registry_t db)" by (auto simp: has_row_iff)
      with True False cs show ?thesis by (auto simp: registryInTx_def ensureRegistryRow_def nf applied_def registry_spec_def)
    next
      case reg: True
      then have "has_row (\<lambda>r. ?w r \<and> r_State r = RegistryDisabled) (registry_t db) \<longleftrightarrow>
          \<not> has_row (\<lambda>r. ?w r \<and> r_State r = RegistryActive) (registry_t db)"
        using st one by (auto simp: has_row_iff)
      moreover obtain db' where "bumpRegistry e db BumpRegistryActive (q_ChainID req) (q_Sender req) RegistryDisabled RegistryActive =
          Inr (db', has_row (\<lambda>r. ?w r \<and> r_State r = RegistryDisabled) (registry_t db))" using bump by blast
      ultimately show ?thesis
        using True reg cs by (auto simp: registryInTx_def ensureRegistryRow_def nf applied_def nop_def registry_spec_def)
    qed
  next
    case False
    moreover obtain db' where "bumpRegistry e db DisableRegistry (q_ChainID req) (q_Sender req) RegistryActive RegistryDisabled =
        Inr (db', has_row (\<lambda>r. ?w r \<and> r_State r = RegistryActive) (registry_t db))" using bump by blast
    ultimately show ?thesis by (auto simp: registryInTx_def applied_def nop_def registry_spec_def)
  qed
qed

section \<open>The runner\<close>

definition admin_ready :: "env \<Rightarrow> nonce_db \<Rightarrow> admin_request \<Rightarrow> observation \<Rightarrow> bool" where
  "admin_ready e db req obs \<longleftrightarrow>
     healthy e db \<and> nonce_inv db \<and> AdminRequest_Validate req = Inr () \<and>
     sampled (q_ChainID req) (q_Sender req) obs \<and>
     (q_Action req = AdminActionHoldRelease \<or> q_Action req = AdminActionBindingRelease \<longrightarrow>
        has_row (in_scope (q_ChainID req) (q_Sender req)) (scope_t db)) \<and>
     (\<forall>r \<in> set (registry_t db). r_RegistrySeq r < MaxBigint)"

lemma AdminRequest_valid:
  assumes "AdminRequest_Validate req = Inr u"
  shows "q_OperationID req \<noteq> []" "q_ChainID req > 0" "sender_ok (q_Sender req)" "audit_action_ok (q_Action req)"
  using assms by (auto simp: AdminRequest_Validate_def audit_action_ok_def split: if_splits admin_action.splits)

lemma admin_spec_lease [simp]: "admin_spec (db\<lparr>lease_t := ls\<rparr>) req obs = admin_spec db req obs"
  by (simp add: admin_spec_def hold_release_spec_def binding_release_spec_def registry_spec_def split: admin_action.split)

lemma adminInTx_total:
  assumes "admin_ready e db req obs"
  shows "\<exists>db' out. adminInTx e db req obs = Inr (db', TxOpen, out) \<and> ot_Outcome out = admin_spec db req obs"
proof -
  have h: "healthy e db" and inv: "nonce_inv db" and v: "AdminRequest_Validate req = Inr ()"
    and smp: "sampled (q_ChainID req) (q_Sender req) obs" and seq: "\<forall>r \<in> set (registry_t db). r_RegistrySeq r < MaxBigint"
    using assms by (auto simp: admin_ready_def)
  have nf: "fault e s = None" for s using h by (rule healthy_fault)
  obtain ls where lock: "lockChain e db (q_ChainID req) = Inr (db\<lparr>lease_t := ls\<rparr>)" using nf by (rule lockChain_total)
  let ?db = "db\<lparr>lease_t := ls\<rparr>"
  have i1: "nonce_inv ?db" using inv lockChain_inv [OF lock] by simp
  have h1: "healthy e ?db" using h by (simp add: healthy_def)
  note v' = AdminRequest_valid [OF v]
  have "admin_spec ?db req obs = admin_spec db req obs" by simp
  moreover have "\<exists>db' out. (case q_Action req of
         AdminActionHoldRelease \<Rightarrow> holdReleaseInTx e ?db req obs
       | AdminActionBindingRelease \<Rightarrow> bindingReleaseInTx e ?db req obs
       | _ \<Rightarrow> registryInTx e ?db req) = Inr (db', TxOpen, out) \<and> ot_Outcome out = admin_spec ?db req obs"
    using holdReleaseInTx_total [OF h1 i1 smp v'(2,3)] bindingReleaseInTx_total [OF nf i1 v'(1)]
      registryInTx_total [OF nf i1 v'(2,3)] seq assms
    unfolding admin_spec_def admin_ready_def by (cases "q_Action req") simp_all
  ultimately show ?thesis using lock by (simp add: adminInTx_def)
qed

lemma admin_spec_outcomes: "audit_outcome_ok (admin_spec db req obs)"
  by (auto simp: admin_spec_def hold_release_spec_def binding_release_spec_def registry_spec_def audit_outcome_ok_def Let_def
      split: admin_action.split)

lemma Run_total:
  assumes ready: "admin_ready e db req obs"
    and new: "\<not> has_row (\<lambda>a. au_OperationID a = q_OperationID req) (audit_t db)"
  shows "\<exists>db' r. Run e db req (Some obs) e2 db2 = (db', Inr r) \<and> ad_Outcome r = admin_spec db req obs \<and>
    map au_Outcome (audit_t db') = map au_Outcome (audit_t db) @ [admin_spec db req obs]"
proof -
  have inv: "nonce_inv db" and v: "AdminRequest_Validate req = Inr ()" and nf: "fault e s = None" for s
    using ready by (auto simp: admin_ready_def healthy_def)
  note v' = AdminRequest_valid [OF v]
  obtain db1 out where tx: "adminInTx e db req obs = Inr (db1, TxOpen, out)" "ot_Outcome out = admin_spec db req obs"
    using adminInTx_total [OF ready] by blast
  have aud: "audit_t db1 = audit_t db" using adminInTx_Inr [OF tx(1) inv] applied_audit by (auto simp: same_tables_def)
  have row: "au_OperationID (audit_row e req out) = q_OperationID req" "au_ChainID (audit_row e req out) = q_ChainID req"
    "au_Sender (audit_row e req out) = q_Sender req" "au_Action (audit_row e req out) = q_Action req"
    "au_Outcome (audit_row e req out) = ot_Outcome out"
    by (simp_all add: audit_row_def)
  have "audit_insert_error db1 (audit_row e req out) = None"
    using v' new admin_spec_outcomes [of db req obs] by (simp add: audit_insert_error_def row aud tx(2))
  then have "insertAuditTx e db1 TxOpen req out = Inr (db1\<lparr>audit_t := audit_t db @ [audit_row e req out]\<rparr>)"
    by (simp add: insertAuditTx_def nf aud)
  with tx v nf row show ?thesis by (simp add: Run_def)
qed

subsection \<open>A concrete scope on hold\<close>

definition demo_hold :: scope_hold where
  "demo_hold = \<lparr>h_HoldID = ''nh-9'', h_ChainID = 1, h_Sender = demo_sender, h_Cause = CauseUnexplainedGap,
     h_Status = HoldStatusActive, h_EstablishedAt = 4, h_EvidenceObservationID = ''no-9'', h_EvidenceDetail = [],
     h_ReleasedAt = None, h_ReleasedBy = None, h_ReleaseOperationID = None, h_ReleaseEvidence = None,
     h_ReleaseObservationID = None\<rparr>"

definition demo_evidence :: observation where
  "demo_evidence = (demo_obs 0 0)\<lparr>o_ObservationID := ''no-9'', o_Classification := ClassificationUnexplainedGap\<rparr>"

definition demo_held_db :: nonce_db where
  "demo_held_db = demo_bound_db\<lparr>observation_t := [demo_evidence], hold_t := [demo_hold]\<rparr>"

definition demo_admin :: "admin_action \<Rightarrow> admin_request" where
  "demo_admin a = \<lparr>q_Action = a, q_OperationID = ''op-1'', q_ChainID = 1, q_Sender = demo_sender, q_HoldID = ''nh-9'',
     q_BindingID = ''nb-1'', q_ObservationID = ''no-9'', q_Evidence = ''checked'', q_Operator = ''ops'', q_Reason = ''gap''\<rparr>"

lemma demo_held_inv: "nonce_inv demo_held_db"
proof -
  have "validateObservation demo_evidence = Inr ()" by code_simp
  then have "nonce_inv (demo_bound_db\<lparr>observation_t := observation_t demo_bound_db @ [demo_evidence]\<rparr>)"
    by (intro nonce_inv_observation_insert [OF demo_bound_inv]) (simp_all add: demo_bound_tables demo_evidence_def has_row_def)
  then have "nonce_inv (demo_bound_db\<lparr>observation_t := [demo_evidence]\<rparr>)" by (simp add: demo_bound_tables)
  from nonce_inv_hold_insert [OF this, of demo_hold] show ?thesis
    using demo_bound_registered demo_sender_ok
    by (simp add: demo_held_db_def demo_bound_tables has_row_def hold_row_ok_def demo_hold_def holdCauses_def registered_def)
qed

lemma demo_held_ready:
  assumes "a = AdminActionHoldRelease \<or> a = AdminActionBindingRelease"
  shows "admin_ready demo_env demo_held_db (demo_admin a) (demo_obs 0 0)"
proof -
  have "healthy demo_env demo_held_db"
    by (simp add: healthy_def fresh_mint_def demo_env_def demo_held_db_def demo_bound_db_def demo_db_def demo_binding_def
        demo_hold_def demo_evidence_def hex_encode_def)
  then show ?thesis
    using assms demo_held_inv demo_sampled [of 0 0] demo_sender_ok
    by (auto simp: admin_ready_def demo_admin_def AdminRequest_Validate_def demo_held_db_def demo_bound_db_def demo_db_def
        has_row_def in_scope_def MaxBigint_def)
qed

lemma demo_hold_release: "hold_release_spec demo_held_db (demo_admin AdminActionHoldRelease) (demo_obs 0 0) = AdminApplied"
  by code_simp

lemma demo_binding_release: "binding_release_spec demo_held_db (demo_admin AdminActionBindingRelease) (demo_obs 0 0) = AdminApplied"
  by (simp add: binding_release_spec_def binding_release_evidence_def demo_admin_def demo_held_db_def demo_bound_tables
      has_row_def demo_binding_def demo_obs_def in_binding_scope_def IsTerminal_def scope_observed_def demo_evidence_def)

lemma demo_held_specs:
  "admin_spec demo_held_db (demo_admin AdminActionHoldRelease) (demo_obs 0 0) = AdminApplied"
  "admin_spec demo_held_db (demo_admin AdminActionBindingRelease) (demo_obs 0 0) = AdminApplied"
  using demo_hold_release demo_binding_release by (simp_all add: admin_spec_def demo_admin_def)

lemma demo_held_new: "\<not> has_row (\<lambda>a. au_OperationID a = q_OperationID (demo_admin x)) (audit_t demo_held_db)"
  by (simp add: demo_held_db_def demo_bound_db_def demo_db_def has_row_def)

text \<open>The two releases on it apply, and change what they are for.\<close>

lemma demo_released:
  assumes "a = AdminActionHoldRelease \<or> a = AdminActionBindingRelease"
  obtains db' r where "Run demo_env demo_held_db (demo_admin a) (Some (demo_obs 0 0)) demo_env demo_held_db = (db', Inr r)"
    "admin_applied demo_env demo_held_db (demo_admin a) (demo_obs 0 0) (db'\<lparr>audit_t := []\<rparr>)"
proof -
  have spec: "admin_spec demo_held_db (demo_admin a) (demo_obs 0 0) = AdminApplied" using assms demo_held_specs by blast
  obtain db' r where run: "Run demo_env demo_held_db (demo_admin a) (Some (demo_obs 0 0)) demo_env demo_held_db = (db', Inr r)"
    "map au_Outcome (audit_t db') = [AdminApplied]"
    using Run_total [OF demo_held_ready demo_held_new, of a demo_env demo_held_db] assms spec
    by (auto simp: demo_held_db_def demo_bound_db_def demo_db_def)
  from run(1) demo_held_inv show thesis
  proof (cases rule: Run_durable)
    case unchanged
    then show thesis using run(2) by (simp add: demo_held_db_def demo_bound_db_def demo_db_def)
  next
    case (durable db1 out)
    have no_audit: "audit_t demo_held_db = []" by (simp add: demo_held_db_def demo_bound_db_def demo_db_def)
    have "au_Outcome (audit_row demo_env (demo_admin a) out) = ot_Outcome out" by (simp add: audit_row_def)
    then have "ot_Outcome out = AdminApplied" using run(2) durable(3) no_audit by simp
    then have ap: "admin_applied demo_env demo_held_db (demo_admin a) (demo_obs 0 0) db1"
      using durable(5) by auto
    then have "audit_t db1 = []" using applied_audit no_audit by fastforce
    then have "db'\<lparr>audit_t := []\<rparr> = db1" using durable(3) by simp
    with run(1) ap show thesis using that by simp
  qed
qed

lemma demo_hold_released:
  obtains db' r where "Run demo_env demo_held_db (demo_admin AdminActionHoldRelease) (Some (demo_obs 0 0)) demo_env demo_held_db = (db', Inr r)"
    "hold_t db' \<noteq> hold_t demo_held_db"
proof -
  obtain db' r where run: "Run demo_env demo_held_db (demo_admin AdminActionHoldRelease) (Some (demo_obs 0 0)) demo_env demo_held_db = (db', Inr r)"
    "admin_applied demo_env demo_held_db (demo_admin AdminActionHoldRelease) (demo_obs 0 0) (db'\<lparr>audit_t := []\<rparr>)"
    using demo_released by blast
  then have "hold_t db' \<noteq> hold_t demo_held_db"
    by (auto simp: admin_applied_def hold_released_def demo_admin_def demo_held_db_def demo_hold_def released_hold_def)
  with run(1) that show thesis by blast
qed

lemma demo_binding_released:
  obtains db' r where "Run demo_env demo_held_db (demo_admin AdminActionBindingRelease) (Some (demo_obs 0 0)) demo_env demo_held_db = (db', Inr r)"
    "binding_t db' \<noteq> binding_t demo_held_db"
proof -
  obtain db' r where run: "Run demo_env demo_held_db (demo_admin AdminActionBindingRelease) (Some (demo_obs 0 0)) demo_env demo_held_db = (db', Inr r)"
    "admin_applied demo_env demo_held_db (demo_admin AdminActionBindingRelease) (demo_obs 0 0) (db'\<lparr>audit_t := []\<rparr>)"
    using demo_released by blast
  then have "binding_t db' \<noteq> binding_t demo_held_db"
    by (auto simp: admin_applied_def binding_released_def demo_admin_def demo_held_db_def demo_bound_tables
        demo_binding_def advanced_binding_def)
  with run(1) that show thesis by blast
qed

subsection \<open>Theorems\<close>



text \<open>C16: a hold falls only on evidence. Whenever a hold-release run changes the holds or the floors, the named
  hold was active in the requested scope, the operator gave a finding and an observation of the scope,
  every binding of the scope was attributable and the fresh view classified as consistent; exactly the named
  hold is released, the floor of the scope rises to the fresh pending count and never falls, and bindings, events and the
  registry are untouched.\<close>

theorem Run_hold_release_safe:
  assumes inv: "nonce_inv db" and run: "Run e db req (Some obs) e2 db2 = (db', res)"
    and act: "q_Action req = AdminActionHoldRelease" and changed: "hold_t db' \<noteq> hold_t db \<or> scope_t db' \<noteq> scope_t db"
  shows "hold_release_evidence db req obs \<and>
    (\<exists>ev i. hold_t db' = map (\<lambda>h. if h_HoldID h = q_HoldID req then released_hold e req ev i h else h) (hold_t db)) \<and>
    map s_ReconciledFloor (scope_t db') =
      map (\<lambda>s. if in_scope (q_ChainID req) (q_Sender req) s
        then Some (max (case s_ReconciledFloor s of None \<Rightarrow> 0 | Some f \<Rightarrow> f) (the (o_PendingCount obs)))
        else s_ReconciledFloor s) (scope_t db) \<and>
    binding_t db' = binding_t db \<and> event_t db' = event_t db \<and> registry_t db' = registry_t db"
  using run inv
proof (cases rule: Run_durable)
  case (durable db1 out)
  have tabs: "hold_t db' = hold_t db1" "scope_t db' = scope_t db1" "binding_t db' = binding_t db1"
    "event_t db' = event_t db1" "registry_t db' = registry_t db1"
    using durable(3) by simp_all
  then have "hold_release_evidence db req obs" and rel: "hold_released e db req obs db1"
    using durable(5) changed act by (auto simp: same_tables_def admin_applied_def)
  moreover have "map s_ReconciledFloor (scope_t db1) =
      map (\<lambda>s. if in_scope (q_ChainID req) (q_Sender req) s
        then Some (max (case s_ReconciledFloor s of None \<Rightarrow> 0 | Some f \<Rightarrow> f) (the (o_PendingCount obs)))
        else s_ReconciledFloor s) (scope_t db)"
    using rel by (auto simp: hold_released_def update_where_def floor_under_def raise_floor_def max_def split: option.splits)
  ultimately show ?thesis using rel tabs by (auto simp: hold_released_def)
qed (use changed in simp)

theorem Run_hold_release_safe_witness:
  "\<exists>db' r. Run demo_env demo_held_db (demo_admin AdminActionHoldRelease) (Some (demo_obs 0 0)) demo_env demo_held_db = (db', Inr r) \<and>
     map h_Status (hold_t db') = [HoldStatusReleased] \<and> map s_ReconciledFloor (scope_t db') = [Some 0]"
proof -
  obtain db' r where run: "Run demo_env demo_held_db (demo_admin AdminActionHoldRelease) (Some (demo_obs 0 0)) demo_env demo_held_db = (db', Inr r)"
    "hold_t db' \<noteq> hold_t demo_held_db" by (rule demo_hold_released)
  have "q_Action (demo_admin AdminActionHoldRelease) = AdminActionHoldRelease" by (simp add: demo_admin_def)
  from Run_hold_release_safe [OF demo_held_inv run(1) this disjI1 [OF run(2)]] run(1) show ?thesis
    by (auto simp: demo_admin_def demo_held_db_def demo_bound_db_def demo_hold_def demo_obs_def released_hold_row in_scope_def)
qed

text \<open>C17: a binding is released only without side effect. Whenever a binding-release run changes a binding, the
  named binding was a non-terminal one of the requested scope, the fresh view was available with latest
  and pending counts both at or below its nonce, and the operator gave a finding; exactly that binding becomes \<open>released\<close> under
  the operation id, with one event, and holds, floors and the registry are untouched.\<close>

theorem Run_binding_release_safe:
  assumes inv: "nonce_inv db" and run: "Run e db req (Some obs) e2 db2 = (db', res)"
    and act: "q_Action req = AdminActionBindingRelease" and changed: "binding_t db' \<noteq> binding_t db"
  shows "binding_release_evidence db req obs \<and>
    binding_t db' = map (\<lambda>b. if b_BindingID b = q_BindingID req
      then advanced_binding e StateReleased (q_OperationID req) b else b) (binding_t db) \<and>
    (\<exists>ev. event_t db' = event_t db @ [ev] \<and> event_key ev = (q_BindingID req, StateReleased) \<and>
       ev_OperationID ev = q_OperationID req) \<and>
    hold_t db' = hold_t db \<and> scope_t db' = scope_t db \<and> registry_t db' = registry_t db"
  using run inv
proof (cases rule: Run_durable)
  case (durable db1 out)
  have tabs: "hold_t db' = hold_t db1" "scope_t db' = scope_t db1" "binding_t db' = binding_t db1"
    "event_t db' = event_t db1" "registry_t db' = registry_t db1"
    using durable(3) by simp_all
  then show ?thesis
    using durable(5) changed act by (auto simp: same_tables_def admin_applied_def binding_released_def)
qed (use changed in simp)

theorem Run_binding_release_safe_witness:
  "\<exists>db' r. Run demo_env demo_held_db (demo_admin AdminActionBindingRelease) (Some (demo_obs 0 0)) demo_env demo_held_db = (db', Inr r) \<and>
     map b_State (binding_t db') = [StateReleased]"
proof -
  obtain db' r where run: "Run demo_env demo_held_db (demo_admin AdminActionBindingRelease) (Some (demo_obs 0 0)) demo_env demo_held_db = (db', Inr r)"
    "binding_t db' \<noteq> binding_t demo_held_db" by (rule demo_binding_released)
  have "q_Action (demo_admin AdminActionBindingRelease) = AdminActionBindingRelease" by (simp add: demo_admin_def)
  from Run_binding_release_safe [OF demo_held_inv run(1) this run(2)] run(1) show ?thesis
    by (auto simp: demo_admin_def demo_held_db_def demo_bound_tables demo_binding_def advanced_binding_row)
qed

text \<open>C5: the operator actions refine their specification. In a healthy environment, with an invariant
  database, a valid request whose operation id is new, the scope row in place for the releases and registry
  sequences below the top of a BIGINT, the run commits and answers exactly what the durable rows dictate:
  a hold release applies if and only if the named hold is active and its evidence stands, is a no-op if no such hold is
  active and is refused otherwise; a binding release likewise; a registration applies unless the sender is already
  active, a disable applies only to an active one. The outcome is also the one on the audit row.\<close>

theorem Run_refines_spec:
  assumes "admin_ready e db req obs" "\<not> has_row (\<lambda>a. au_OperationID a = q_OperationID req) (audit_t db)"
  shows "\<exists>db' r. Run e db req (Some obs) e2 db2 = (db', Inr r) \<and> ad_Outcome r = admin_spec db req obs \<and>
    map au_Outcome (audit_t db') = map au_Outcome (audit_t db) @ [admin_spec db req obs]"
  using assms by (rule Run_total)

theorem Run_refines_spec_witness:
  "\<exists>db' r. Run demo_env demo_held_db (demo_admin AdminActionHoldRelease) (Some (demo_obs 0 0)) demo_env demo_held_db =
     (db', Inr r) \<and> ad_Outcome r = AdminApplied"
  using Run_refines_spec [OF demo_held_ready demo_held_new, of AdminActionHoldRelease demo_env demo_held_db]
  by (auto simp: demo_held_specs)

end
