(* ===== verification/NonceAdminReplay.thy ===== *)
theory NonceAdminReplay
  imports NonceAdminRefine
begin

text \<open>
  The operation id as the only dedup key: the op-input digest that rides in the audit detail, the replay of
  a recorded attempt, and two places where the code falls short of its comments.
\<close>

section \<open>The digest in the audit detail\<close>

lemma index_byte_append:
  "list_all (\<lambda>x. x \<noteq> c) xs \<Longrightarrow> index_byte (xs @ c # ys) c = Some (length xs)"
  by (induction xs) auto

lemma index_of_append:
  assumes "list_all (\<lambda>x. x \<noteq> c) xs"
  shows "index_of (xs @ c # ds @ ys) (c # ds) = Some (length xs)"
  using assms by (induction xs) (auto simp: has_prefix_def)

lemma digest_no_semicolon: "list_all (\<lambda>x. x \<noteq> CHR '';'') (adminInputDigest req)"
proof -
  have "list_all is_lower_hex (adminInputDigest req)"
    by (simp add: adminInputDigest_def digest_lines_def hex_encode_lower_hex)
  then show ?thesis by (rule list.pred_mono_strong) (auto simp: is_lower_hex_def is_dec_def)
qed

lemma audit_detail_parts:
  "auditInputDigestOf (au_Detail (audit_row e req out)) = adminInputDigest req"
  "auditDetailOf (au_Detail (audit_row e req out)) = ot_Detail out"
proof -
  let ?d = "adminInputDigest req"
  have det: "au_Detail (audit_row e req out) = auditInputPrefix @ ?d @ CHR '';'' # '' '' @ ot_Detail out"
    by (simp add: audit_row_def)
  have pre: "list_all (\<lambda>x. x \<noteq> CHR '';'') (auditInputPrefix @ ?d)"
    using digest_no_semicolon by (simp add: auditInputPrefix_def)
  show "auditInputDigestOf (au_Detail (audit_row e req out)) = ?d"
    by (simp add: auditInputDigestOf_def det index_byte_append [OF digest_no_semicolon])
  have "index_of ((auditInputPrefix @ ?d) @ CHR '';'' # '' '' @ ot_Detail out) (CHR '';'' # '' '') =
      Some (length (auditInputPrefix @ ?d))"
    by (rule index_of_append [OF pre])
  then show "auditDetailOf (au_Detail (audit_row e req out)) = ot_Detail out"
    by (simp add: auditDetailOf_def det)
qed

text \<open>The audit detail round trips. Reading a recorded detail back yields exactly the digest of the
  request that wrote it and exactly the outcome detail, whatever that detail contains, so the recorded input compares equal to
  a request exactly if the digests agree.\<close>

lemma audit_detail_round_trip:
  "auditInputDigestOf (au_Detail (audit_row e req out)) = adminInputDigest req \<and>
   auditDetailOf (au_Detail (audit_row e req out)) = ot_Detail out \<and>
   (inputEqual (audit_row e req out) req' \<longleftrightarrow> adminInputDigest req = adminInputDigest req')"
  by (simp add: audit_detail_parts inputEqual_def)

section \<open>Replay\<close>

lemma replayRecorded_found:
  assumes "nonce_inv db" "a \<in> set (audit_t db)" "au_OperationID a = q_OperationID req" "working e"
  shows "replayRecorded e db req =
    (if inputEqual a req
     then Inr \<lparr>ad_Outcome = au_Outcome a, ad_Action = au_Action a, ad_SubjectID = au_SubjectID a,
            ad_Detail = auditDetailOf (au_Detail a)\<rparr>
     else Inl (AdminErr (Refuse OutcomeOperationConflict
            ''operation_id was already recorded with a differing op-input'', None)))"
proof -
  have "distinct (map au_OperationID (audit_t db))" using assms(1) by (simp add: nonce_inv_def audit_inv_def)
  from find_key [OF this assms(2), of "\<lambda>a. au_OperationID a = q_OperationID req"] assms(3)
  have "List.find (\<lambda>a. au_OperationID a = q_OperationID req) (audit_t db) = Some a" by simp
  then show ?thesis using assms(4) by (simp add: replayRecorded_def readAuditByOperationIDTx_def working_def)
qed

lemma Run_recorded:
  assumes ready: "admin_ready e db req obs" and a: "a \<in> set (audit_t db)" "au_OperationID a = q_OperationID req"
  shows "Run e db req (Some obs) e2 db2 = (db, replayRecorded e2 db2 req)"
proof -
  have inv: "nonce_inv db" and v: "AdminRequest_Validate req = Inr ()" and nf: "fault e s = None" for s
    using ready by (auto simp: admin_ready_def healthy_def)
  note v' = AdminRequest_valid [OF v]
  obtain db1 out where tx: "adminInTx e db req obs = Inr (db1, TxOpen, out)" "ot_Outcome out = admin_spec db req obs"
    using adminInTx_total [OF ready] by blast
  have aud: "audit_t db1 = audit_t db" using adminInTx_Inr [OF tx(1) inv] applied_audit by (auto simp: same_tables_def)
  have "has_row (\<lambda>a. au_OperationID a = q_OperationID req) (audit_t db)" using a by (auto simp: has_row_iff)
  then have "insertAuditTx e db1 TxOpen req out =
      Inl (Pg InsertAudit (PgError ''23505'' ''nonce_ops_audit_operation_id_uniq''))"
    using v' admin_spec_outcomes [of db req obs] tx(2) nf
    by (simp add: insertAuditTx_def audit_insert_error_def audit_row_def aud)
  with tx(1) v nf show ?thesis by (simp add: Run_def auditOperationIDConflict_def)
qed

text \<open>A recorded operation id decides. When the audit table already holds a row under the operation id, a
  run changes nothing: with the same input it answers the recorded outcome, action, subject and detail unchanged,
  with a differing input it is an \<open>operation_conflict\<close>.\<close>

lemma Run_replays_recorded:
  assumes "admin_ready e db req obs" "a \<in> set (audit_t db)" "au_OperationID a = q_OperationID req"
    and "nonce_inv db2" "db_evolves db db2" "working e2"
  shows "Run e db req (Some obs) e2 db2 = (db,
    if inputEqual a req
    then Inr \<lparr>ad_Outcome = au_Outcome a, ad_Action = au_Action a, ad_SubjectID = au_SubjectID a,
           ad_Detail = auditDetailOf (au_Detail a)\<rparr>
    else Inl (AdminErr (Refuse OutcomeOperationConflict
           ''operation_id was already recorded with a differing op-input'', None)))"
proof -
  have "a \<in> set (audit_t db2)"
    using log_rows.grows_row assms(2,5) unfolding db_evolves_def by metis
  from replayRecorded_found [OF assms(4) this assms(3,6)] Run_recorded [OF assms(1-3)] show ?thesis by simp
qed

lemma Run_Inr_committed: "Run e db req obs e2 db2 = (db', Inr r) \<Longrightarrow> db' \<noteq> db \<Longrightarrow> fault e CommitTx = None"
  by (auto simp: Run_def split: sum.splits option.splits if_splits prod.splits)

text \<open>A recorded operation id keeps every run of its request, healthy or not, from reaching its COMMIT.\<close>

lemma Run_blocked:
  assumes inv: "nonce_inv db" and a: "a \<in> set (audit_t db)" "au_OperationID a = q_OperationID req"
    and run: "Run e db req obs e2 db2 = (db', res)"
  shows "db' = db \<and> (res = replayRecorded e2 db2 req \<or> (\<exists>err. res = Inl (InvalidAdmin err)) \<or>
    (\<exists>reason err. res = Inl (AdminErr (storageRefusal reason err))))"
proof -
  have "insertAuditTx e db1 tx req out \<noteq> Inr dbx" if "adminInTx e db req (the obs) = Inr (db1, tx, out)" for db1 tx out dbx
  proof
    assume "insertAuditTx e db1 tx req out = Inr dbx"
    then have "\<not> has_row (\<lambda>a. au_OperationID a = q_OperationID req) (audit_t db1)"
      using insertAuditTx_Inr by blast
    moreover have "audit_t db1 = audit_t db"
      using adminInTx_Inr [OF that inv] applied_audit by (auto simp: same_tables_def)
    ultimately show False using a by (auto simp: has_row_iff)
  qed
  with run show ?thesis by (auto simp: Run_def split: sum.splits option.splits if_splits prod.splits)
qed

lemma replayRecorded_answers:
  assumes "nonce_inv db" "a \<in> set (audit_t db)" "au_OperationID a = q_OperationID req" "inputEqual a req"
  shows "replayRecorded e db req = Inr \<lparr>ad_Outcome = au_Outcome a, ad_Action = au_Action a,
      ad_SubjectID = au_SubjectID a, ad_Detail = auditDetailOf (au_Detail a)\<rparr> \<or>
    (\<exists>reason err. replayRecorded e db req = Inl (AdminErr (storageRefusal reason err)))"
proof -
  have "distinct (map au_OperationID (audit_t db))" using assms(1) by (simp add: nonce_inv_def audit_inv_def)
  from find_key [OF this assms(2), of "\<lambda>a. au_OperationID a = q_OperationID req"] assms(3)
  have "List.find (\<lambda>a. au_OperationID a = q_OperationID req) (audit_t db) = Some a" by simp
  then show ?thesis
    using assms(4) by (auto simp: replayRecorded_def readAuditByOperationIDTx_def sql_def split: option.splits)
qed

lemma replayRecorded_error: "replayRecorded e db req \<noteq> Inl (InvalidAdmin err)"
  by (simp add: replayRecorded_def split: option.split sum.split)

lemma Run_invalid:
  assumes "Run e db req obs e2 db2 = (db', res)" "AdminRequest_Validate req = Inr u" "res = Inl (InvalidAdmin err)"
  shows "err = NoChainObserver"
  using assms replayRecorded_error [of e2 db2 req err]
  by (auto simp: Run_def split: sum.splits option.splits if_splits prod.splits)

text \<open>C15: exactly once. After a run that became durable, even one whose COMMIT reported an error, there is one
  result \<open>r\<close>, the one the run answered with if it answered, such that every later run of the same request, in any
  environment, on any invariant database that evolved from it and with any chain view, changes nothing, and
  its answer, if it gives one, is \<open>r\<close>; when it fails, the error is a retryable storage error or the
  complaint about a missing observer, never a refusal or a conflict. A later run in which no statement fails
  and whose preconditions hold (a valid request and sample, the scope row, fresh identifiers) answers \<open>r\<close>. So an operator may
  retry an operation id without a second effect and never sees its outcome changed.\<close>

theorem Run_exactly_once:
  assumes inv: "nonce_inv db" and first: "Run e db req obs e2 db2 = (db1, res)" "db1 \<noteq> db"
  shows "\<exists>r. (\<forall>r1. res = Inr r1 \<longrightarrow> r1 = r) \<and>
    (\<forall>e3 db3 obs3 e4 db4 db' res3. nonce_inv db3 \<and> db_evolves db1 db3 \<and> nonce_inv db4 \<and> db_evolves db3 db4 \<and>
       Run e3 db3 req obs3 e4 db4 = (db', res3) \<longrightarrow>
       db' = db3 \<and>
       (res3 = Inr r \<or> res3 = Inl (InvalidAdmin NoChainObserver) \<or>
        (\<exists>reason err. res3 = Inl (AdminErr (storageRefusal reason err)))) \<and>
       (\<forall>o3. obs3 = Some o3 \<and> admin_ready e3 db3 req o3 \<and> working e4 \<longrightarrow> res3 = Inr r))"
  using first(1) inv
proof (cases rule: Run_durable)
  case (durable dbx out)
  let ?a = "audit_row e req out"
  let ?r = "\<lparr>ad_Outcome = ot_Outcome out, ad_Action = q_Action req, ad_SubjectID = subjectID req, ad_Detail = ot_Detail out\<rparr>"
  have rec: "\<lparr>ad_Outcome = au_Outcome ?a, ad_Action = au_Action ?a, ad_SubjectID = au_SubjectID ?a,
      ad_Detail = auditDetailOf (au_Detail ?a)\<rparr> = ?r" "au_OperationID ?a = q_OperationID req" "inputEqual ?a req"
    by (simp_all add: inputEqual_def audit_detail_parts) (simp_all add: audit_row_def)
  have valid: "AdminRequest_Validate req = Inr ()"
    using first by (auto simp: Run_def split: sum.splits)
  have answered: "r1 = ?r" if "res = Inr r1" for r1
    using that durable(6) Run_Inr_committed first by auto
  have later: "db' = db3 \<and>
       (res3 = Inr ?r \<or> res3 = Inl (InvalidAdmin NoChainObserver) \<or>
        (\<exists>reason err. res3 = Inl (AdminErr (storageRefusal reason err)))) \<and>
       (\<forall>o3. obs3 = Some o3 \<and> admin_ready e3 db3 req o3 \<and> working e4 \<longrightarrow> res3 = Inr ?r)"
    if later: "nonce_inv db3" "db_evolves db1 db3" "nonce_inv db4" "db_evolves db3 db4"
      "Run e3 db3 req obs3 e4 db4 = (db', res3)" for e3 db3 obs3 e4 db4 db' res3
  proof -
    have "?a \<in> set (audit_t db1)" using durable(3) by simp
    then have a3: "?a \<in> set (audit_t db3)" using log_rows.grows_row later(2) unfolding db_evolves_def by metis
    then have a4: "?a \<in> set (audit_t db4)" using log_rows.grows_row later(4) unfolding db_evolves_def by metis
    note b = Run_blocked [OF later(1) a3 rec(2) later(5)]
      and c = replayRecorded_answers [OF later(3) a4 rec(2,3), of e4, unfolded rec(1)]
    have "err = NoChainObserver" if "res3 = Inl (InvalidAdmin err)" for err
      by (rule Run_invalid [OF later(5) valid that])
    moreover have "res3 = Inr ?r" if "obs3 = Some o3" "admin_ready e3 db3 req o3" "working e4" for o3
      using later(5) Run_recorded [OF that(2) a3 rec(2), of e4 db4] replayRecorded_found [OF later(3) a4 rec(2) that(3)]
        rec(1,3) that(1) by simp
    ultimately show ?thesis using b c by metis
  qed
  show ?thesis
  proof (rule exI [of _ ?r], rule conjI)
    show "\<forall>r1. res = Inr r1 \<longrightarrow> r1 = ?r" using answered by blast
  qed (intro allI impI, elim conjE, rule later)
qed (use first in simp)

lemma demo_binding_released_ready:
  assumes "admin_applied demo_env demo_held_db (demo_admin AdminActionBindingRelease) (demo_obs 0 0) (db'\<lparr>audit_t := []\<rparr>)"
    and "nonce_inv db'"
  shows "admin_ready demo_env db' (demo_admin AdminActionBindingRelease) (demo_obs 0 0)"
proof -
  have rel: "binding_released demo_env demo_held_db (demo_admin AdminActionBindingRelease) (db'\<lparr>audit_t := []\<rparr>)"
    using assms(1) by (simp add: admin_applied_def demo_admin_def)
  have "map b_BindingID (binding_t db') = [''nb-1'']" "observation_t db' = [demo_evidence]" "hold_t db' = [demo_hold]"
    "scope_t db' = scope_t demo_held_db" "registry_t db' = registry_t demo_held_db"
    using rel by (auto simp: binding_released_def demo_held_db_def demo_bound_tables demo_binding_def demo_admin_def
        advanced_binding_def)
  then show ?thesis
    using demo_held_ready [of AdminActionBindingRelease] assms(2)
    by (simp add: admin_ready_def healthy_def demo_held_db_def demo_bound_tables demo_binding_def)
qed

theorem Run_exactly_once_witness:
  "\<exists>db1 r. Run demo_env demo_held_db (demo_admin AdminActionBindingRelease) (Some (demo_obs 0 0)) demo_env demo_held_db = (db1, Inr r) \<and>
     db1 \<noteq> demo_held_db \<and>
     Run demo_env db1 (demo_admin AdminActionBindingRelease) (Some (demo_obs 0 0)) demo_env db1 = (db1, Inr r)"
proof -
  obtain db1 r where run: "Run demo_env demo_held_db (demo_admin AdminActionBindingRelease) (Some (demo_obs 0 0)) demo_env demo_held_db = (db1, Inr r)"
    and ap: "admin_applied demo_env demo_held_db (demo_admin AdminActionBindingRelease) (demo_obs 0 0) (db1\<lparr>audit_t := []\<rparr>)"
    using demo_released by blast
  have ne: "db1 \<noteq> demo_held_db"
    using ap by (auto simp: admin_applied_def binding_released_def demo_admin_def demo_held_db_def demo_bound_tables
        demo_binding_def advanced_binding_def)
  have inv1: "nonce_inv db1"
    using Run_keeps [OF run demo_held_inv] by simp
  have ready: "admin_ready demo_env db1 (demo_admin AdminActionBindingRelease) (demo_obs 0 0)"
    by (rule demo_binding_released_ready [OF ap inv1])
  have w: "working demo_env" by (simp add: working_def demo_env_def)
  obtain db' res where again: "Run demo_env db1 (demo_admin AdminActionBindingRelease) (Some (demo_obs 0 0)) demo_env db1 = (db', res)"
    by (metis prod.collapse)
  from Run_exactly_once [OF demo_held_inv run ne] obtain r1 where "r = r1" "db' = db1" "res = Inr r1"
    using again inv1 db_evolves_refl ready w by blast
  then show ?thesis using run ne again by blast
qed

definition demo_audited_db :: nonce_db where
  "demo_audited_db = demo_held_db\<lparr>audit_t := [audit_row demo_env (demo_admin AdminActionHoldRelease)
     \<lparr>ot_Outcome = AdminRefused, ot_Detail = ''release requires an observation reference''\<rparr>]\<rparr>"

section \<open>Two divergences\<close>

text \<open>The op-input digest separates its parts by newlines without escaping them, so a newline can move
  between the reason and the evidence: two different requests have the same digest and the second one is
  answered as a replay of the first instead of an \<open>operation_conflict\<close>.\<close>

lemma adminInputDigest_collides:
  "adminInputDigest (req\<lparr>q_Reason := x @ CHR 0x0A # y, q_Evidence := z\<rparr>) =
   adminInputDigest (req\<lparr>q_Reason := x, q_Evidence := y @ CHR 0x0A # z\<rparr>)"
  by (simp add: adminInputDigest_def digest_lines_def subjectID_def split: admin_action.split)

text \<open>A hold release whose gate read fails on the server is answered \<open>refused\<close> inside the transaction, but the
  server has aborted that transaction: the audit insert fails and the attempt leaves no audit row.\<close>

definition gate_down :: env where
  "gate_down = demo_env\<lparr>fault := (\<lambda>s. if s = IndexerPauseExists then Some (PgError ''57014'' []) else None)\<rparr>"

lemma Run_aborted:
  assumes "AdminRequest_Validate req = Inr ()" "fault e BeginTx = None" "adminInTx e db req obs = Inr (db1, TxAborted, out)"
  shows "Run e db req (Some obs) e2 db2 =
    (db, Inl (AdminErr (storageRefusal ''record admin audit'' (Pg InsertAudit (PgError ''25P02'' [])))))"
  using assms by (simp add: Run_def insertAuditTx_def auditOperationIDConflict_def)

lemma hold_release_gate_unreadable:
  "Run gate_down demo_held_db (demo_admin AdminActionHoldRelease) (Some (demo_obs 0 0)) e2 db2 =
   (demo_held_db, Inl (AdminErr (storageRefusal ''record admin audit'' (Pg InsertAudit (PgError ''25P02'' [])))))"
proof -
  have f: "fault gate_down s = (if s = IndexerPauseExists then Some (PgError ''57014'' []) else None)" for s
    by (simp add: gate_down_def)
  have v: "AdminRequest_Validate (demo_admin AdminActionHoldRelease) = Inr ()"
    using demo_held_ready [of AdminActionHoldRelease] by (simp add: admin_ready_def)
  obtain ls where lock: "lockChain gate_down demo_held_db 1 = Inr (demo_held_db\<lparr>lease_t := ls\<rparr>)"
    by (simp add: lockChain_def Let_def f has_row_def demo_held_db_def demo_bound_db_def demo_db_def)
  let ?db = "demo_held_db\<lparr>lease_t := ls\<rparr>"
  have rows: "has_row (in_scope 1 demo_sender) (scope_t ?db)" "hold_t ?db = [demo_hold]" "observation_t ?db = [demo_evidence]"
    by (simp_all add: demo_held_db_def demo_bound_db_def has_row_def in_scope_def)
  have "\<exists>out. holdReleaseInTx gate_down ?db (demo_admin AdminActionHoldRelease) (demo_obs 0 0) = Inr (?db, TxAborted, out)"
    unfolding holdReleaseInTx_def lockScopeRowTx_def readHoldByIDForUpdateTx_def readObservationScopeTx_def readGateStateTx_def
    using rows by (simp add: f sql_def demo_admin_def demo_hold_def demo_evidence_def demo_obs_def)
  then obtain out where "adminInTx gate_down demo_held_db (demo_admin AdminActionHoldRelease) (demo_obs 0 0) = Inr (?db, TxAborted, out)"
    using lock by (auto simp: adminInTx_def demo_admin_def)
  then show ?thesis using Run_aborted [OF v] f by simp
qed

end
