(* ===== verification/NonceRebuild.thy ===== *)
theory NonceRebuild
  imports NonceAdmin NonceReconcileSpec
begin

text \<open>
  Model of the startup verification in \<^verbatim>\<open>internal/nonce/binding.go\<close> (\<open>VerifyRebuild\<close> and the probes
  it runs). A probe counts the rows of a chain that break a constraint; the catalogue is the list of
  constraint names \<open>pg_constraint\<close> holds.
\<close>

definition requiredConstraintNames :: "string list" where
  "requiredConstraintNames =
     [''nonce_wallet_registry_pkey'',
      ''nonce_wallet_registry_chain_id_check'',
      ''nonce_wallet_registry_sender_check'',
      ''nonce_wallet_registry_state_check'',
      ''nonce_wallet_registry_registry_seq_check'',
      ''nonce_scope_state_pkey'',
      ''nonce_scope_state_registry_fkey'',
      ''nonce_scope_state_chain_id_check'',
      ''nonce_scope_state_sender_check'',
      ''nonce_scope_state_reconciled_floor_check'',
      ''nonce_scope_state_last_latest_check'',
      ''nonce_scope_state_last_pending_check'',
      ''nonce_bindings_pkey'',
      ''nonce_bindings_intent_uniq'',
      ''nonce_bindings_scope_nonce_uniq'',
      ''nonce_bindings_registry_fkey'',
      ''nonce_bindings_chain_id_check'',
      ''nonce_bindings_sender_check'',
      ''nonce_bindings_state_check'',
      ''nonce_bindings_terminal_consistency'',
      ''nonce_bindings_nonce_range'',
      ''nonce_bindings_intent_shape'',
      ''nonce_bindings_authorization_version_check'',
      ''nonce_bindings_registry_seq_check'',
      ''nonce_binding_events_pkey'',
      ''nonce_binding_events_binding_to_uniq'',
      ''nonce_binding_events_from_state_check'',
      ''nonce_binding_events_to_state_check'',
      ''nonce_observations_pkey'',
      ''nonce_observations_chain_id_check'',
      ''nonce_observations_sender_check'',
      ''nonce_observations_kind_check'',
      ''nonce_observations_classification_check'',
      ''nonce_observations_latest_count_check'',
      ''nonce_observations_pending_count_check'',
      ''nonce_observations_head_hash_check'',
      ''nonce_scope_holds_pkey'',
      ''nonce_scope_holds_status_consistency'',
      ''nonce_scope_holds_registry_fkey'',
      ''nonce_scope_holds_chain_id_check'',
      ''nonce_scope_holds_sender_check'',
      ''nonce_scope_holds_cause_check'',
      ''nonce_scope_holds_status_check'',
      ''nonce_ops_audit_pkey'',
      ''nonce_ops_audit_operation_id_uniq'',
      ''nonce_ops_audit_chain_id_check'',
      ''nonce_ops_audit_sender_check'',
      ''nonce_ops_audit_action_check'',
      ''nonce_ops_audit_outcome_check'']"

record rebuild_report =
  rb_ChainID :: int
  rb_Scopes :: nat
  rb_Bindings :: nat
  rb_Holds :: nat
  rb_ConstraintsFound :: nat

definition binding_probe_ok :: "binding \<Rightarrow> bool" where
  "binding_probe_ok b \<longleftrightarrow>
     known_state (b_State b) \<and>
     (b_State b = StateConsumed) = (b_ConsumedAt b \<noteq> None) \<and>
     (b_State b = StateReleased) = (b_ReleasedAt b \<noteq> None \<and> b_ReleaseOperationID b \<noteq> None) \<and>
     nonce_col_ok (b_Nonce b) \<and>
     1 \<le> length (b_IntentID b) \<and> length (b_IntentID b) \<le> 128 \<and>
     b_ChainID b > 0 \<and> sender_ok (b_Sender b) \<and> hex64 (b_AuthorizationVersion b) \<and> b_RegistrySeq b > 0"

definition registry_probe_ok :: "wallet_registry \<Rightarrow> bool" where
  "registry_probe_ok r \<longleftrightarrow>
     r_ChainID r > 0 \<and> sender_ok (r_Sender r) \<and>
     (r_State r = RegistryActive \<or> r_State r = RegistryDisabled) \<and> r_RegistrySeq r > 0"

definition event_probe_ok :: "binding_event \<Rightarrow> bool" where
  "event_probe_ok ev \<longleftrightarrow>
     known_state (ev_ToState ev) \<and> (case ev_FromState ev of None \<Rightarrow> True | Some s \<Rightarrow> known_state s)"

definition observation_probe_ok :: "observation \<Rightarrow> bool" where
  "observation_probe_ok obs \<longleftrightarrow>
     (o_Kind obs = ObservationKindAllocation \<or> o_Kind obs = ObservationKindReconcile) \<and>
     persistable (o_Classification obs)"

definition scope_probe_ok :: "scope_state \<Rightarrow> bool" where
  "scope_probe_ok s \<longleftrightarrow>
     s_ChainID s > 0 \<and> sender_ok (s_Sender s) \<and> opt_in_range (s_ReconciledFloor s) \<and>
     opt_in_range (s_LastLatest s) \<and> opt_in_range (s_LastPending s)"

definition hold_probe_ok :: "scope_hold \<Rightarrow> bool" where
  "hold_probe_ok h \<longleftrightarrow>
     (h_Status h = HoldStatusActive \<or> h_Status h = HoldStatusReleased) \<and>
     (h_Status h = HoldStatusActive) = (h_ReleasedAt h = None) \<and>
     h_EvidenceObservationID h \<noteq> [] \<and> h_ChainID h > 0 \<and> sender_ok (h_Sender h) \<and> holdCauses (h_Cause h)"

definition audit_probe_ok :: "admin_audit \<Rightarrow> bool" where
  "audit_probe_ok a \<longleftrightarrow>
     au_ChainID a > 0 \<and> sender_ok (au_Sender a) \<and> audit_action_ok (au_Action a) \<and>
     audit_outcome_ok (au_Outcome a)"

definition countConstraints :: "nonce_db \<Rightarrow> nat" where
  "countConstraints db = count_where (\<lambda>c. c \<in> set requiredConstraintNames) (pg_constraint_t db)"

definition countInvalidEvents :: "nonce_db \<Rightarrow> int \<Rightarrow> nat" where
  "countInvalidEvents db chain =
     sum_list (map (\<lambda>ev. count_where (\<lambda>b. b_BindingID b = ev_BindingID ev \<and> b_ChainID b = chain \<and>
       \<not> event_probe_ok ev) (binding_t db)) (event_t db))"

text \<open>The seven integrity probes in the order they run.\<close>

definition integrity_probes :: "nonce_db \<Rightarrow> int \<Rightarrow> (stmt \<times> nat) list" where
  "integrity_probes db chain =
     [(CountInvalidBindings, count_where (\<lambda>b. b_ChainID b = chain \<and> \<not> binding_probe_ok b) (binding_t db)),
      (CountInvalidRegistry, count_where (\<lambda>r. r_ChainID r = chain \<and> \<not> registry_probe_ok r) (registry_t db)),
      (CountInvalidEvents, countInvalidEvents db chain),
      (CountInvalidObservations,
         count_where (\<lambda>ob. o_ChainID ob = chain \<and> \<not> observation_probe_ok ob) (observation_t db)),
      (CountInvalidScopes, count_where (\<lambda>s. s_ChainID s = chain \<and> \<not> scope_probe_ok s) (scope_t db)),
      (CountInvalidHolds, count_where (\<lambda>h. h_ChainID h = chain \<and> \<not> hold_probe_ok h) (hold_t db)),
      (CountInvalidOps, count_where (\<lambda>a. au_ChainID a = chain \<and> \<not> audit_probe_ok a) (audit_t db))]"

datatype rebuild_err =
    ProbeFailed stmt pg_error
  | CarriersMissing nat
  | RowsInconsistent stmt nat

fun run_probes :: "env \<Rightarrow> (stmt \<times> nat) list \<Rightarrow> rebuild_err option" where
  "run_probes e [] = None"
| "run_probes e ((s, bad) # rest) =
     (case fault e s of
        Some p \<Rightarrow> Some (ProbeFailed s p)
      | None \<Rightarrow> if bad \<noteq> 0 then Some (RowsInconsistent s bad) else run_probes e rest)"

definition VerifyRebuild :: "env \<Rightarrow> nonce_db \<Rightarrow> int \<Rightarrow> rebuild_report \<times> rebuild_err option" where
  "VerifyRebuild e db chain =
     (let rep0 = \<lparr>rb_ChainID = chain, rb_Scopes = 0, rb_Bindings = 0, rb_Holds = 0, rb_ConstraintsFound = 0\<rparr> in
      case fault e CountConstraints of
        Some p \<Rightarrow> (rep0, Some (ProbeFailed CountConstraints p))
      | None \<Rightarrow>
        let found = countConstraints db; rep1 = rep0\<lparr>rb_ConstraintsFound := found\<rparr> in
        if found \<noteq> length requiredConstraintNames then (rep1, Some (CarriersMissing found))
        else case fault e CountScopes of
          Some p \<Rightarrow> (rep1, Some (ProbeFailed CountScopes p))
        | None \<Rightarrow>
          let rep2 = rep1\<lparr>rb_Scopes := count_where (\<lambda>s. s_ChainID s = chain) (scope_t db)\<rparr> in
          case fault e CountBindings of
            Some p \<Rightarrow> (rep2, Some (ProbeFailed CountBindings p))
          | None \<Rightarrow>
            let rep3 = rep2\<lparr>rb_Bindings := count_where (\<lambda>b. b_ChainID b = chain) (binding_t db)\<rparr> in
            case fault e CountHolds of
              Some p \<Rightarrow> (rep3, Some (ProbeFailed CountHolds p))
            | None \<Rightarrow>
              let rep4 = rep3\<lparr>rb_Holds := count_where (\<lambda>h. h_ChainID h = chain) (hold_t db)\<rparr> in
              (rep4, run_probes e (integrity_probes db chain)))"

text \<open>\<^verbatim>\<open>runRebuildGate\<close> of \<^verbatim>\<open>internal/app/serve.go\<close>: the verdict drives the gate. The text of an error
  is the driver's, so it is a parameter.\<close>

definition runRebuildGate ::
  "(rebuild_err \<Rightarrow> string) \<Rightarrow> rebuild_gate \<Rightarrow> rebuild_report \<times> rebuild_err option \<Rightarrow> rebuild_gate" where
  "runRebuildGate err_text gate verdict =
     (case verdict of
        (_, Some err) \<Rightarrow> RebuildGate_KeepClosed gate (''rebuild_incomplete: '' @ err_text err)
      | (_, None) \<Rightarrow> RebuildGate_Open gate)"

section \<open>What the verdict means\<close>

definition rows_verified :: "nonce_db \<Rightarrow> int \<Rightarrow> bool" where
  "rows_verified db chain \<longleftrightarrow>
     (\<forall>b \<in> set (binding_t db). b_ChainID b = chain \<longrightarrow> binding_probe_ok b) \<and>
     (\<forall>r \<in> set (registry_t db). r_ChainID r = chain \<longrightarrow> registry_probe_ok r) \<and>
     (\<forall>ev \<in> set (event_t db). \<forall>b \<in> set (binding_t db).
        b_BindingID b = ev_BindingID ev \<longrightarrow> b_ChainID b = chain \<longrightarrow> event_probe_ok ev) \<and>
     (\<forall>ob \<in> set (observation_t db). o_ChainID ob = chain \<longrightarrow> observation_probe_ok ob) \<and>
     (\<forall>s \<in> set (scope_t db). s_ChainID s = chain \<longrightarrow> scope_probe_ok s) \<and>
     (\<forall>h \<in> set (hold_t db). h_ChainID h = chain \<longrightarrow> hold_probe_ok h) \<and>
     (\<forall>a \<in> set (audit_t db). au_ChainID a = chain \<longrightarrow> audit_probe_ok a)"

definition rebuild_stmts :: "stmt list" where
  "rebuild_stmts = [CountConstraints, CountScopes, CountBindings, CountHolds, CountInvalidBindings, CountInvalidRegistry,
     CountInvalidEvents, CountInvalidObservations, CountInvalidScopes, CountInvalidHolds, CountInvalidOps]"

lemma count_where_0: "count_where P t = 0 \<longleftrightarrow> (\<forall>r \<in> set t. \<not> P r)"
  using count_where_pos [of P t] by (auto simp: has_row_iff)

lemma run_probes_None: "run_probes e ps = None \<longleftrightarrow> (\<forall>(s, bad) \<in> set ps. fault e s = None \<and> bad = 0)"
  by (induction ps rule: run_probes.induct [of _ e]) (auto split: option.splits)

lemma countInvalidEvents_0:
  "countInvalidEvents db chain = 0 \<longleftrightarrow> (\<forall>ev \<in> set (event_t db). \<forall>b \<in> set (binding_t db).
     b_BindingID b = ev_BindingID ev \<longrightarrow> b_ChainID b = chain \<longrightarrow> event_probe_ok ev)"
  by (auto simp: countInvalidEvents_def sum_list_eq_0_iff count_where_0)

lemma integrity_probes_ok:
  "(\<forall>(s, bad) \<in> set (integrity_probes db chain). fault e s = None \<and> bad = 0) \<longleftrightarrow>
     (\<forall>s \<in> set (drop 4 rebuild_stmts). fault e s = None) \<and> rows_verified db chain"
  by (auto simp: integrity_probes_def rebuild_stmts_def rows_verified_def count_where_0 countInvalidEvents_0)

lemma VerifyRebuild_None:
  "snd (VerifyRebuild e db chain) = None \<longleftrightarrow>
     (\<forall>s \<in> set rebuild_stmts. fault e s = None) \<and> countConstraints db = length requiredConstraintNames \<and>
     rows_verified db chain"
proof -
  have "snd (VerifyRebuild e db chain) = None \<longleftrightarrow>
      (\<forall>s \<in> {CountConstraints, CountScopes, CountBindings, CountHolds}. fault e s = None) \<and>
      countConstraints db = length requiredConstraintNames \<and> run_probes e (integrity_probes db chain) = None"
    by (simp add: VerifyRebuild_def Let_def split: option.split)
  then show ?thesis
    unfolding run_probes_None integrity_probes_ok by (auto simp: rebuild_stmts_def)
qed

text \<open>C28: the gate opens exactly on a complete verification. After the startup verification the rebuild gate is
  open if and only if every probe could be read, the catalogue counts as many carriers as are required,
  and every row of the chain in all seven tables satisfies its probe; whatever state the gate had before.\<close>

theorem rebuild_gate_opens_iff:
  "RebuildGate_IsOpen (runRebuildGate txt gate (VerifyRebuild e db chain)) \<longleftrightarrow>
     (\<forall>s \<in> set rebuild_stmts. fault e s = None) \<and> countConstraints db = length requiredConstraintNames \<and>
     rows_verified db chain"
  unfolding VerifyRebuild_None [symmetric]
  by (cases "VerifyRebuild e db chain")
    (auto simp: runRebuildGate_def RebuildGate_IsOpen_def RebuildGate_State_def RebuildGate_Open_def
      RebuildGate_KeepClosed_def split: option.split)

lemma requiredConstraintNames_distinct: "distinct requiredConstraintNames"
  by code_simp

lemma countConstraints_full:
  assumes "distinct (pg_constraint_t db)" "set requiredConstraintNames \<subseteq> set (pg_constraint_t db)"
  shows "countConstraints db = length requiredConstraintNames"
proof -
  let ?hits = "filter (\<lambda>c. c \<in> set requiredConstraintNames) (pg_constraint_t db)"
  have "distinct ?hits" "set ?hits = set requiredConstraintNames" using assms by auto
  then have "length ?hits = length requiredConstraintNames"
    using requiredConstraintNames_distinct by (metis distinct_card)
  then show ?thesis by (simp add: countConstraints_def count_where_def)
qed

lemma inv_rows_verified:
  assumes inv: "nonce_inv db"
  shows "rows_verified db chain"
proof -
  have "binding_probe_ok b" if "b \<in> set (binding_t db)" for b
    using nonce_inv_row [OF inv that]
    by (auto simp: binding_row_ok_iff binding_probe_ok_def TerminalConsistent_def intent_shape_def split: if_splits)
  moreover have "observation_probe_ok ob" if "ob \<in> set (observation_t db)" for ob
  proof -
    have "validateObservation ob = Inr ()" using inv that by (simp add: nonce_inv_def observation_inv_def)
    then show ?thesis
      by (cases "o_Kind ob") (auto simp: validateObservation_def observation_probe_ok_def split: if_splits)
  qed
  ultimately show ?thesis
    using inv unfolding rows_verified_def nonce_inv_def registry_inv_def event_inv_def scope_inv_def hold_inv_def audit_inv_def
    by (auto simp: registry_row_ok_def registry_probe_ok_def event_row_ok_def event_probe_ok_def scope_row_ok_def
        scope_probe_ok_def hold_row_ok_def hold_probe_ok_def audit_row_ok_def audit_probe_ok_def)
qed

text \<open>A restart on an invariant database opens the gate. If the invariant of the package holds, the
  catalogue lists every required carrier, no name twice, and the probes can be read, then the verification
  of any chain passes and reports that chain's scopes, bindings and holds.\<close>

lemma VerifyRebuild_accepts_invariant:
  assumes "nonce_inv db" "distinct (pg_constraint_t db)" "set requiredConstraintNames \<subseteq> set (pg_constraint_t db)"
    and "\<forall>s \<in> set rebuild_stmts. fault e s = None"
  shows "VerifyRebuild e db chain =
    (\<lparr>rb_ChainID = chain, rb_Scopes = count_where (\<lambda>s. s_ChainID s = chain) (scope_t db),
      rb_Bindings = count_where (\<lambda>b. b_ChainID b = chain) (binding_t db),
      rb_Holds = count_where (\<lambda>h. h_ChainID h = chain) (hold_t db),
      rb_ConstraintsFound = length requiredConstraintNames\<rparr>, None)"
proof -
  have c: "countConstraints db = length requiredConstraintNames" using assms(2,3) by (rule countConstraints_full)
  have "run_probes e (integrity_probes db chain) = None"
    unfolding run_probes_None integrity_probes_ok using assms(4) inv_rows_verified [OF assms(1)]
    by (simp add: rebuild_stmts_def)
  with c assms(4) show ?thesis by (simp add: VerifyRebuild_def Let_def rebuild_stmts_def)
qed

definition demo_catalogued_db :: nonce_db where
  "demo_catalogued_db = demo_bound_db\<lparr>pg_constraint_t := requiredConstraintNames\<rparr>"

theorem rebuild_gate_opens_iff_witness:
  "RebuildGate_IsOpen (runRebuildGate (\<lambda>_. []) NewRebuildGate (VerifyRebuild demo_env demo_catalogued_db 1))"
proof -
  have "same_tables demo_bound_db demo_catalogued_db" by (simp add: same_tables_def demo_catalogued_db_def)
  then have "nonce_inv demo_catalogued_db" using demo_bound_inv same_tables_inv by blast
  then have "rows_verified demo_catalogued_db 1" by (rule inv_rows_verified)
  moreover have "countConstraints demo_catalogued_db = length requiredConstraintNames"
    using requiredConstraintNames_distinct by (intro countConstraints_full) (simp_all add: demo_catalogued_db_def)
  ultimately show ?thesis by (subst rebuild_gate_opens_iff) (simp add: demo_env_def)
qed

text \<open>The catalogue probe counts rows, so a second row of one name hides a missing one.\<close>

lemma countConstraints_masked:
  "\<exists>names. \<not> set requiredConstraintNames \<subseteq> set names \<and>
     countConstraints (demo_bound_db\<lparr>pg_constraint_t := names\<rparr>) = length requiredConstraintNames"
proof -
  let ?names = "hd requiredConstraintNames # butlast requiredConstraintNames"
  have "\<not> set requiredConstraintNames \<subseteq> set ?names \<and>
      length (filter (\<lambda>c. c \<in> set requiredConstraintNames) ?names) = length requiredConstraintNames"
    by code_simp
  moreover have "countConstraints (demo_bound_db\<lparr>pg_constraint_t := ns\<rparr>) =
      length (filter (\<lambda>c. c \<in> set requiredConstraintNames) ns)" for ns
    by (simp add: countConstraints_def count_where_def)
  ultimately show ?thesis by metis
qed

end
