(* ===== verification/NonceRead.thy ===== *)
theory NonceRead
  imports NonceReconcileSpec
begin

text \<open>
  Model of \<^verbatim>\<open>internal/nonce/readapi.go\<close>: one lookup in one snapshot, its five outcomes with their HTTP
  status, the recovery annotation that degrades to \<open>unknown\<close>, and the bearer check.
\<close>

section \<open>Requests and responses\<close>

definition ReadNoticeFacts :: string where
  "ReadNoticeFacts = ''binding facts only; this response is not a signing or broadcast authorization''"

definition ReadNoticeNotBound :: string where
  "ReadNoticeNotBound = ''no binding exists for this identity; fail closed and never invent an identity''"

definition ReadNoticeMismatch :: string where
  "ReadNoticeMismatch = ''the supplied expected scope contradicts the durable binding; the durable binding is authoritative''"

definition ReadNoticeUnavailable :: string where
  "ReadNoticeUnavailable = ''the read service cannot produce a trustworthy answer; retry later with the same identity''"

definition ReadNoticeUnauthenticated :: string where
  "ReadNoticeUnauthenticated = ''missing or invalid bearer credential''"

datatype recovery_state =
    RecoveryNone | RecoveryRecovering | RecoveryPausedReconcile | RecoveryReleased | RecoveryUnknown

datatype read_gate_state = ReadGateOpen | ReadGateHeld

record read_request =
  rq_BindingID :: string
  rq_IntentID :: string
  rq_ExpectedChainID :: "int option"
  rq_ExpectedSender :: string

definition ReadRequest_Validate :: "read_request \<Rightarrow> bool" where
  "ReadRequest_Validate r \<longleftrightarrow> (rq_BindingID r = []) \<noteq> (rq_IntentID r = [])"

record read_binding =
  rd_BindingID :: string
  rd_IntentID :: string
  rd_ChainID :: int
  rd_Sender :: string
  rd_Nonce :: string
  rd_State :: bstate
  rd_CreatedAt :: instant
  rd_AuthorizationID :: string
  rd_AuthorizationVersion :: string
  rd_RegistrySeq :: int
  rd_TerminalAt :: "instant option"
  rd_ReleaseOperationID :: string

record read_gate_cause =
  gc_HoldID :: string
  gc_Cause :: hold_cause
  gc_EstablishedAt :: instant

record read_annotations =
  an_GateState :: read_gate_state
  an_GateCauses :: "read_gate_cause list"
  an_Recovery :: recovery_state
  an_RegistryState :: registry_state

record read_response =
  rs_Outcome :: outcome
  rs_Binding :: "read_binding option"
  rs_Annotations :: "read_annotations option"
  rs_Notice :: string
  rs_ErrorCode :: string
  rs_DurableBindingID :: string
  rs_DurableChainID :: "int option"
  rs_DurableSender :: string

definition HTTPStatus :: "read_response \<Rightarrow> nat" where
  "HTTPStatus r =
     (case rs_Outcome r of
        ReadBound \<Rightarrow> 200 | ReadTerminal \<Rightarrow> 200 | ReadNotBound \<Rightarrow> 404 | ReadMismatch \<Rightarrow> 409
      | ReadUnavailable \<Rightarrow> 503 | ReadUnauthenticated \<Rightarrow> 401 | _ \<Rightarrow> 503)"

definition error_response :: "outcome \<Rightarrow> string \<Rightarrow> read_response" where
  "error_response oc notice =
     \<lparr>rs_Outcome = oc, rs_Binding = None, rs_Annotations = None, rs_Notice = notice,
      rs_ErrorCode = outcome_str oc, rs_DurableBindingID = [], rs_DurableChainID = None,
      rs_DurableSender = []\<rparr>"

definition notBoundResponse :: read_response where
  "notBoundResponse = error_response ReadNotBound ReadNoticeNotBound"

definition mismatchResponse :: "binding \<Rightarrow> read_response" where
  "mismatchResponse b = (error_response ReadMismatch ReadNoticeMismatch)
     \<lparr>rs_DurableBindingID := b_BindingID b, rs_DurableChainID := Some (b_ChainID b),
      rs_DurableSender := b_Sender b\<rparr>"

definition unavailableResponse :: read_response where
  "unavailableResponse = error_response ReadUnavailable ReadNoticeUnavailable"

definition UnauthenticatedResponse :: read_response where
  "UnauthenticatedResponse = error_response ReadUnauthenticated ReadNoticeUnauthenticated"

definition readBindingResponse ::
  "binding \<Rightarrow> scope_hold list \<Rightarrow> wallet_registry \<Rightarrow> recovery_state \<Rightarrow> read_response" where
  "readBindingResponse b holds reg recovery =
     (let causes = map (\<lambda>h. \<lparr>gc_HoldID = h_HoldID h, gc_Cause = h_Cause h,
                              gc_EstablishedAt = h_EstablishedAt h\<rparr>) holds;
          rb = \<lparr>rd_BindingID = b_BindingID b, rd_IntentID = b_IntentID b, rd_ChainID = b_ChainID b,
                rd_Sender = b_Sender b, rd_Nonce = FormatDecimal (b_Nonce b), rd_State = b_State b,
                rd_CreatedAt = b_CreatedAt b, rd_AuthorizationID = b_AuthorizationID b,
                rd_AuthorizationVersion = b_AuthorizationVersion b, rd_RegistrySeq = b_RegistrySeq b,
                rd_TerminalAt = (case b_State b of StateConsumed \<Rightarrow> b_ConsumedAt b
                                 | StateReleased \<Rightarrow> b_ReleasedAt b | _ \<Rightarrow> None),
                rd_ReleaseOperationID = (case b_State b of
                    StateReleased \<Rightarrow> (case b_ReleaseOperationID b of None \<Rightarrow> [] | Some op \<Rightarrow> op)
                  | _ \<Rightarrow> [])\<rparr>
      in \<lparr>rs_Outcome = (if b_State b = StateConsumed \<or> b_State b = StateReleased then ReadTerminal else ReadBound),
          rs_Binding = Some rb,
          rs_Annotations = Some \<lparr>an_GateState = (if causes \<noteq> [] then ReadGateHeld else ReadGateOpen),
            an_GateCauses = causes, an_Recovery = recovery, an_RegistryState = r_State reg\<rparr>,
          rs_Notice = ReadNoticeFacts, rs_ErrorCode = [], rs_DurableBindingID = [],
          rs_DurableChainID = None, rs_DurableSender = []\<rparr>)"

section \<open>The read transaction\<close>

text \<open>The probe swallows its error; the transaction state says whether the server aborted.\<close>

definition readRecoveryStateTx :: "env \<Rightarrow> nonce_db \<Rightarrow> int \<Rightarrow> recovery_state \<times> tx_state" where
  "readRecoveryStateTx e db chain =
     (case fault e ReadRecoveryPhase of
        Some p \<Rightarrow> (RecoveryUnknown, tx_after p)
      | None \<Rightarrow>
          (case List.find (\<lambda>r. rr_ChainID r = chain) (recovery_t db) of
             Some r \<Rightarrow>
               (if rr_Phase r = ''reconcile_required'' then RecoveryPausedReconcile else RecoveryRecovering,
                TxOpen)
           | None \<Rightarrow>
               (case fault e ReadRecoveryReleased of
                  Some p \<Rightarrow> (RecoveryUnknown, tx_after p)
                | None \<Rightarrow>
                    (if has_row (\<lambda>(c, ev). c = chain \<and> (ev = ''auto_completed'' \<or> ev = ''released''))
                          (recovery_event_t db)
                     then RecoveryReleased else RecoveryNone, TxOpen))))"

definition applyReadGuards :: "env \<Rightarrow> terr + unit" where
  "applyReadGuards e = sql e LocalWriteGuard (sql e ReadLockGuard (Inr ()))"

definition degradedBy006Failure :: "read_response \<Rightarrow> bool" where
  "degradedBy006Failure r \<longleftrightarrow>
     (rs_Outcome r = ReadBound \<or> rs_Outcome r = ReadTerminal) \<and>
     (case rs_Annotations r of None \<Rightarrow> False | Some a \<Rightarrow> an_Recovery a = RecoveryUnknown)"

text \<open>The reads of a hit, after the identity lookup and the expected-scope check.\<close>

definition readAnnotationsTx :: "env \<Rightarrow> nonce_db \<Rightarrow> binding \<Rightarrow> bool \<Rightarrow> terr + read_response \<times> tx_state" where
  "readAnnotationsTx e db b locked =
     rbind (if locked then Inr True else shareScopeRowTx e db (b_ChainID b) (b_Sender b)) (\<lambda>exists.
       if \<not> exists then Inl (BindingWithoutScope (b_BindingID b))
       else rbind (readActiveHoldsTx e db (b_ChainID b) (b_Sender b)) (\<lambda>holds.
         rbind (readRegistryBySenderTx e db (b_ChainID b) (b_Sender b)) (\<lambda>registry.
           case registry of
             None \<Rightarrow> Inl (BindingWithoutRegistry (b_BindingID b))
           | Some reg \<Rightarrow>
               (case readRecoveryStateTx e db (b_ChainID b) of
                  (recovery, tx) \<Rightarrow> Inr (readBindingResponse b holds reg recovery, tx)))))"

definition readBindingOutcomeTx :: "env \<Rightarrow> nonce_db \<Rightarrow> read_request \<Rightarrow> terr + read_response \<times> tx_state" where
  "readBindingOutcomeTx e db req =
     rbind (case rq_ExpectedChainID req of
              Some c \<Rightarrow>
                if rq_IntentID req \<noteq> [] \<and> rq_ExpectedSender req \<noteq> []
                then shareScopeRowTx e db c (rq_ExpectedSender req) else Inr False
            | None \<Rightarrow> Inr False) (\<lambda>locked.
     rbind (if rq_BindingID req \<noteq> [] then readBindingByIDTx e db (rq_BindingID req)
            else readBindingByIntentTx e db (rq_IntentID req)) (\<lambda>found.
       case found of
         None \<Rightarrow> Inr (notBoundResponse, TxOpen)
       | Some b \<Rightarrow>
           if rq_IntentID req \<noteq> [] \<and>
              ((case rq_ExpectedChainID req of None \<Rightarrow> False | Some c \<Rightarrow> c \<noteq> b_ChainID b) \<or>
               (rq_ExpectedSender req \<noteq> [] \<and> rq_ExpectedSender req \<noteq> b_Sender b))
           then Inr (mismatchResponse b, TxOpen)
           else readAnnotationsTx e db b locked))"

section \<open>The provider\<close>

definition readUnavailable :: "string \<Rightarrow> terr \<Rightarrow> wrapped" where
  "readUnavailable reason cause = (Refuse ReadUnavailable reason, Some cause)"

datatype read_error = InvalidRead | ReadErr wrapped

definition commit_error :: "env \<Rightarrow> tx_state \<Rightarrow> pg_error option" where
  "commit_error e tx = (if tx = TxAborted then Some (DriverError ''commit unexpectedly resulted in rollback'')
     else fault e CommitTx)"

definition Read_lookup ::
  "rebuild_gate option \<Rightarrow> env \<Rightarrow> nonce_db \<Rightarrow> read_request \<Rightarrow> read_response option \<times> read_error option" where
  "Read_lookup gate e db req =
     (let unavailable = (\<lambda>err. (Some unavailableResponse, Some (ReadErr err))) in
      if \<not> ReadRequest_Validate req then (None, Some InvalidRead)
      else if (case gate of None \<Rightarrow> False | Some g \<Rightarrow> \<not> RebuildGate_IsOpen g)
      then unavailable (Refuse ReadUnavailable (''rebuild gate not open: '' @ rebuildCause (the gate)), None)
      else case fault e BeginTx of
        Some p \<Rightarrow> unavailable (readUnavailable ''open read transaction'' (Pg BeginTx p))
      | None \<Rightarrow>
        (case applyReadGuards e of
           Inl err \<Rightarrow> unavailable (readUnavailable ''set read transaction guards'' err)
         | Inr _ \<Rightarrow>
           (case readBindingOutcomeTx e db req of
              Inl err \<Rightarrow> unavailable (readUnavailable ''read failed'' err)
            | Inr (resp, tx) \<Rightarrow>
              (case commit_error e tx of
                 None \<Rightarrow> (Some resp, None)
               | Some p \<Rightarrow>
                   if degradedBy006Failure resp then (Some resp, None)
                   else unavailable (readUnavailable ''commit read transaction'' (Pg CommitTx p))))))"

definition ReadByBindingID ::
  "rebuild_gate option \<Rightarrow> env \<Rightarrow> nonce_db \<Rightarrow> string \<Rightarrow> read_response option \<times> read_error option" where
  "ReadByBindingID gate e db bindingID = Read_lookup gate e db
     \<lparr>rq_BindingID = bindingID, rq_IntentID = [], rq_ExpectedChainID = None, rq_ExpectedSender = []\<rparr>"

definition ReadByIntent ::
  "rebuild_gate option \<Rightarrow> env \<Rightarrow> nonce_db \<Rightarrow> string \<Rightarrow> int option \<Rightarrow> string
   \<Rightarrow> read_response option \<times> read_error option" where
  "ReadByIntent gate e db intentID chain sender = Read_lookup gate e db
     \<lparr>rq_BindingID = [], rq_IntentID = intentID, rq_ExpectedChainID = chain, rq_ExpectedSender = sender\<rparr>"

definition Authenticate :: "string \<Rightarrow> string \<Rightarrow> bool" where
  "Authenticate token presented \<longleftrightarrow>
     token \<noteq> [] \<and> sha256 (str_bytes token) = sha256 (str_bytes presented)"

section \<open>What a read answers\<close>

text \<open>The answer as a function of the snapshot alone; the recovery annotation is an argument.\<close>

definition recovery_of :: "nonce_db \<Rightarrow> int \<Rightarrow> recovery_state" where
  "recovery_of db chain =
     (case List.find (\<lambda>r. rr_ChainID r = chain) (recovery_t db) of
        Some r \<Rightarrow> if rr_Phase r = ''reconcile_required'' then RecoveryPausedReconcile else RecoveryRecovering
      | None \<Rightarrow> if has_row (\<lambda>(c, ev). c = chain \<and> (ev = ''auto_completed'' \<or> ev = ''released'')) (recovery_event_t db)
          then RecoveryReleased else RecoveryNone)"

definition read_target :: "nonce_db \<Rightarrow> read_request \<Rightarrow> binding option" where
  "read_target db req =
     (if rq_BindingID req \<noteq> [] then List.find (\<lambda>b. b_BindingID b = rq_BindingID req) (binding_t db)
      else List.find (\<lambda>b. b_IntentID b = rq_IntentID req) (binding_t db))"

definition scope_contradicts :: "read_request \<Rightarrow> binding \<Rightarrow> bool" where
  "scope_contradicts req b \<longleftrightarrow>
     rq_IntentID req \<noteq> [] \<and>
     ((case rq_ExpectedChainID req of None \<Rightarrow> False | Some c \<Rightarrow> c \<noteq> b_ChainID b) \<or>
      (rq_ExpectedSender req \<noteq> [] \<and> rq_ExpectedSender req \<noteq> b_Sender b))"

definition read_view :: "nonce_db \<Rightarrow> read_request \<Rightarrow> (int \<Rightarrow> recovery_state) \<Rightarrow> read_response" where
  "read_view db req recovery =
     (case read_target db req of
        None \<Rightarrow> notBoundResponse
      | Some b \<Rightarrow>
          if scope_contradicts req b then mismatchResponse b
          else readBindingResponse b (hold_order (filter (hold_active_in (b_ChainID b) (b_Sender b)) (hold_t db)))
            (the (List.find (\<lambda>r. r_ChainID r = b_ChainID b \<and> r_Sender r = b_Sender b) (registry_t db)))
            (recovery (b_ChainID b)))"

lemma readRecoveryStateTx_cases:
  "readRecoveryStateTx e db chain = (rec, tx) \<Longrightarrow>
     (tx = TxOpen \<and> rec = recovery_of db chain \<or> rec = RecoveryUnknown) \<and>
     (working e \<longrightarrow> tx = TxOpen \<and> rec = recovery_of db chain)"
  by (auto simp: readRecoveryStateTx_def recovery_of_def working_def split: option.splits)

text \<open>Under the invariant a bound row always has its scope row and its registry row.\<close>

lemma binding_registered:
  assumes inv: "nonce_inv db" and b: "b \<in> set (binding_t db)"
  shows "has_row (in_scope (b_ChainID b) (b_Sender b)) (scope_t db) \<and> registered db (b_ChainID b) (b_Sender b)"
proof -
  have "has_row (in_scope (b_ChainID b) (b_Sender b)) (scope_t db)"
    using inv b by (simp add: nonce_inv_def binding_inv_def)
  then obtain s where "s \<in> set (scope_t db)" "s_ChainID s = b_ChainID b" "s_Sender s = b_Sender b"
    by (auto simp: has_row_iff in_scope_def)
  with inv have "registered db (b_ChainID b) (b_Sender b)" by (auto simp: nonce_inv_def scope_inv_def)
  with \<open>has_row _ _\<close> show ?thesis by blast
qed

lemma readAnnotationsTx_Inr:
  assumes "readAnnotationsTx e db b locked = Inr (resp, tx)"
  shows "\<exists>rec. readRecoveryStateTx e db (b_ChainID b) = (rec, tx) \<and>
    resp = readBindingResponse b (hold_order (filter (hold_active_in (b_ChainID b) (b_Sender b)) (hold_t db)))
      (the (List.find (\<lambda>r. r_ChainID r = b_ChainID b \<and> r_Sender r = b_Sender b) (registry_t db))) rec"
  using assms
  by (auto simp: readAnnotationsTx_def rbind_rules readActiveHoldsTx_def readRegistryBySenderTx_def split: if_splits option.splits prod.splits)

lemma readBindingOutcomeTx_Inr:
  assumes "readBindingOutcomeTx e db req = Inr (resp, tx)" and inv: "nonce_inv db"
  shows "\<exists>rec. resp = read_view db req rec \<and> (tx = TxOpen \<or> degradedBy006Failure resp) \<and>
    (\<forall>b. read_target db req = Some b \<longrightarrow> rec (b_ChainID b) = recovery_of db (b_ChainID b) \<or> rec (b_ChainID b) = RecoveryUnknown)"
proof -
  have tgt: "(if rq_BindingID req \<noteq> [] then readBindingByIDTx e db (rq_BindingID req)
      else readBindingByIntentTx e db (rq_IntentID req)) = Inr (read_target db req)"
    using assms(1) by (auto simp: readBindingOutcomeTx_def rbind_rules read_rules [OF inv] read_target_def split: if_splits)
  then obtain locked where body: "(case read_target db req of
         None \<Rightarrow> Inr (notBoundResponse, TxOpen)
       | Some b \<Rightarrow> if scope_contradicts req b then Inr (mismatchResponse b, TxOpen) else readAnnotationsTx e db b locked) = Inr (resp, tx)"
    using assms(1) unfolding readBindingOutcomeTx_def scope_contradicts_def by (auto simp: rbind_rules)
  show ?thesis
  proof (cases "read_target db req")
    case None
    with body show ?thesis by (auto simp: read_view_def)
  next
    case (Some b)
    show ?thesis
    proof (cases "scope_contradicts req b")
      case True
      with body Some show ?thesis by (auto simp: read_view_def)
    next
      case False
      with body Some obtain rec where rec: "readRecoveryStateTx e db (b_ChainID b) = (rec, tx)"
        and resp: "resp = read_view db req (\<lambda>_. rec)"
        by (auto simp: read_view_def dest!: readAnnotationsTx_Inr)
      have "degradedBy006Failure resp" if "rec = RecoveryUnknown"
        using that False by (auto simp: resp read_view_def Some degradedBy006Failure_def readBindingResponse_def Let_def)
      with readRecoveryStateTx_cases [OF rec] resp Some show ?thesis by (intro exI [of _ "\<lambda>_. rec"]) auto
    qed
  qed
qed

lemma readBindingOutcomeTx_total:
  assumes inv: "nonce_inv db" and w: "working e"
  shows "readBindingOutcomeTx e db req = Inr (read_view db req (recovery_of db), TxOpen)"
proof -
  have nf: "fault e s = None" for s using w by (simp add: working_def)
  have tgt: "(if rq_BindingID req \<noteq> [] then readBindingByIDTx e db (rq_BindingID req)
      else readBindingByIntentTx e db (rq_IntentID req)) = Inr (read_target db req)"
    by (simp add: read_rules [OF inv] read_target_def nf)
  have ann: "readAnnotationsTx e db b locked = Inr (read_view db req (recovery_of db), TxOpen)"
    if "read_target db req = Some b" "\<not> scope_contradicts req b" for b locked
  proof -
    have b: "b \<in> set (binding_t db)" using that(1) by (auto simp: read_target_def dest!: find_Some_set split: if_splits)
    note br = binding_registered [OF inv b]
    then obtain r where r: "List.find (\<lambda>r. r_ChainID r = b_ChainID b \<and> r_Sender r = b_Sender b) (registry_t db) = Some r"
      by (metis (mono_tags, lifting) find_None_set has_row_iff not_None_eq registered_def)
    obtain rec tx where "readRecoveryStateTx e db (b_ChainID b) = (rec, tx)" by (rule prod.exhaust)
    moreover from readRecoveryStateTx_cases [OF this] w have "rec = recovery_of db (b_ChainID b)" "tx = TxOpen" by auto
    ultimately show ?thesis
      using br r that
      by (simp add: readAnnotationsTx_def shareScopeRowTx_def nf readActiveHoldsTx_def readRegistryBySenderTx_def read_view_def)
  qed
  show ?thesis
    unfolding readBindingOutcomeTx_def tgt shareScopeRowTx_def
    using ann by (auto simp: nf read_view_def scope_contradicts_def split: option.splits)
qed

text \<open>C27: a read is never wrong. In any environment, on an invariant database, a lookup either names its identity
  wrongly and is refused without an answer, or fails with the retryable \<open>unavailable\<close> body and an error, or
  answers exactly what the snapshot holds: \<open>not_bound\<close> only if no binding has the identity, \<open>mismatch\<close> only if
  the durable scope contradicts the expected one, and otherwise the binding's facts with all active holds of
  its scope; only the recovery annotation may degrade, and then to \<open>unknown\<close>. The status is 503 exactly for failures.\<close>

theorem Read_never_wrong:
  assumes inv: "nonce_inv db" and run: "Read_lookup gate e db req = (resp, err)"
  shows "(\<not> ReadRequest_Validate req \<and> resp = None \<and> err = Some InvalidRead) \<or>
    (resp = Some unavailableResponse \<and> err \<noteq> None \<and> HTTPStatus unavailableResponse = 503) \<or>
    (err = None \<and> (\<exists>rec. resp = Some (read_view db req rec) \<and> HTTPStatus (read_view db req rec) \<in> {200, 404, 409} \<and>
       (\<forall>b. read_target db req = Some b \<longrightarrow>
          rec (b_ChainID b) = recovery_of db (b_ChainID b) \<or> rec (b_ChainID b) = RecoveryUnknown)))"
proof (cases "err = None")
  case True
  with run obtain r tx where r: "readBindingOutcomeTx e db req = Inr (r, tx)" "resp = Some r"
    by (auto simp: Read_lookup_def Let_def split: if_splits option.splits sum.splits prod.splits)
  have "HTTPStatus (read_view db req rec) \<in> {200, 404, 409}" for rec
    by (simp add: read_view_def HTTPStatus_def notBoundResponse_def mismatchResponse_def error_response_def
        readBindingResponse_def Let_def split: option.split)
  with readBindingOutcomeTx_Inr [OF r(1) inv] r(2) True show ?thesis by blast
next
  case False
  have "HTTPStatus unavailableResponse = 503" by (simp add: HTTPStatus_def unavailableResponse_def error_response_def)
  with False run show ?thesis
    by (auto simp: Read_lookup_def Let_def split: if_splits option.splits sum.splits prod.splits)
qed

text \<open>A read answers. When no statement fails, the gate (if there is one) is open and the request names
  exactly one identity, the lookup answers the snapshot with its current recovery annotation and no error.\<close>

lemma Read_answers:
  assumes "nonce_inv db" "working e" "ReadRequest_Validate req"
    and "case gate of None \<Rightarrow> True | Some g \<Rightarrow> RebuildGate_IsOpen g"
  shows "Read_lookup gate e db req = (Some (read_view db req (recovery_of db)), None)"
  using assms(2-4) readBindingOutcomeTx_total [OF assms(1,2), of req]
  by (auto simp: Read_lookup_def Let_def working_def applyReadGuards_def commit_error_def split: option.splits)

definition demo_lookup :: read_request where
  "demo_lookup = \<lparr>rq_BindingID = [], rq_IntentID = ''wd-1'', rq_ExpectedChainID = Some 1, rq_ExpectedSender = []\<rparr>"

lemma demo_lookup_target: "read_target demo_bound_db demo_lookup = Some demo_binding" "\<not> scope_contradicts demo_lookup demo_binding"
  by (simp_all add: read_target_def demo_lookup_def demo_bound_tables demo_binding_def scope_contradicts_def)

theorem Read_never_wrong_witness:
  "\<exists>resp err. Read_lookup demo_gate (demo_env\<lparr>fault := (\<lambda>s. if s = ReadRecoveryPhase then Some (PgError ''57014'' []) else None)\<rparr>)
     demo_bound_db demo_lookup = (resp, err) \<and>
     (resp = Some unavailableResponse \<or> (\<exists>rec. resp = Some (read_view demo_bound_db demo_lookup rec)))"
proof -
  let ?e = "demo_env\<lparr>fault := (\<lambda>s. if s = ReadRecoveryPhase then Some (PgError ''57014'' []) else None)\<rparr>"
  obtain resp err where run: "Read_lookup demo_gate ?e demo_bound_db demo_lookup = (resp, err)" by (rule prod.exhaust)
  have "ReadRequest_Validate demo_lookup" by (simp add: ReadRequest_Validate_def demo_lookup_def)
  with Read_never_wrong [OF demo_bound_inv run] run show ?thesis by auto
qed

text \<open>An aborted annotation probe does not cost the facts. If only the recovery probe fails on the server, which
  aborts the transaction so that its COMMIT comes back as a rollback, a bound or terminal answer is still
  served, with the recovery annotation \<open>unknown\<close> and no error.\<close>

lemma Read_survives_recovery_probe:
  assumes inv: "nonce_inv db" and "ReadRequest_Validate req" "gate = None"
    and probe: "fault e ReadRecoveryPhase = Some (PgError code name)" and rest: "\<forall>s. s \<noteq> ReadRecoveryPhase \<longrightarrow> fault e s = None"
    and tgt: "read_target db req = Some b" "\<not> scope_contradicts req b"
  shows "Read_lookup gate e db req = (Some (read_view db req (\<lambda>_. RecoveryUnknown)), None)"
proof -
  have b: "b \<in> set (binding_t db)" using tgt(1) by (auto simp: read_target_def dest!: find_Some_set split: if_splits)
  note br = binding_registered [OF inv b]
  then obtain r where r: "List.find (\<lambda>r. r_ChainID r = b_ChainID b \<and> r_Sender r = b_Sender b) (registry_t db) = Some r"
    by (metis (mono_tags, lifting) find_None_set has_row_iff not_None_eq registered_def)
  have "readRecoveryStateTx e db (b_ChainID b) = (RecoveryUnknown, TxAborted)" by (simp add: readRecoveryStateTx_def probe)
  then have ann: "readAnnotationsTx e db b locked = Inr (read_view db req (\<lambda>_. RecoveryUnknown), TxAborted)" for locked
    using br r tgt rest
    by (simp add: readAnnotationsTx_def shareScopeRowTx_def readActiveHoldsTx_def readRegistryBySenderTx_def read_view_def)
  have rd: "(if rq_BindingID req \<noteq> [] then readBindingByIDTx e db (rq_BindingID req)
      else readBindingByIntentTx e db (rq_IntentID req)) = Inr (read_target db req)"
    using rest by (simp add: read_rules [OF inv] read_target_def)
  have out: "readBindingOutcomeTx e db req = Inr (read_view db req (\<lambda>_. RecoveryUnknown), TxAborted)"
    unfolding readBindingOutcomeTx_def rd shareScopeRowTx_def tgt(1) using ann tgt(2) rest
    by (auto simp: scope_contradicts_def split: option.splits)
  have "degradedBy006Failure (read_view db req (\<lambda>_. RecoveryUnknown))"
    using tgt by (auto simp: read_view_def degradedBy006Failure_def readBindingResponse_def Let_def)
  with out rest assms(2,3) show ?thesis
    by (simp add: Read_lookup_def Let_def applyReadGuards_def commit_error_def)
qed

end
