(* ===== verification/NonceSystem.thy ===== *)
theory NonceSystem
  imports NonceAdminRefine
begin

text \<open>
  The nonce manager as one system. Its three writers (\<open>Allocate\<close>, \<open>reconcileScope\<close>, \<open>Run\<close>) and the changes
  other packages make to their own tables are the steps of a transition relation; each is one transaction on
  the shared database, serialised by the lock row of the chain, so an interleaving of processes is a list of
  steps. The theory proves what holds along every such list: nonces are never issued twice, rows move
  forward only, a hold stops a scope until an operator releases it, and the reconciled floor never
  rises above the local frontier.
\<close>

section \<open>Steps that release nothing\<close>

text \<open>No hold changes, and no scope row gets a floor it did not have.\<close>

definition floors_from :: "nonce_db \<Rightarrow> nonce_db \<Rightarrow> bool" where
  "floors_from db db' \<longleftrightarrow>
     (\<forall>s' \<in> set (scope_t db'). s_ReconciledFloor s' = None \<or>
        (\<exists>s \<in> set (scope_t db). scope_key s = scope_key s' \<and> s_ReconciledFloor s = s_ReconciledFloor s'))"

definition routine :: "nonce_db \<Rightarrow> nonce_db \<Rightarrow> bool" where
  "routine db db' \<longleftrightarrow> grows (=) (hold_t db) (hold_t db') \<and> floors_from db db'"

lemma floors_from_trans: "floors_from x y \<Longrightarrow> floors_from y z \<Longrightarrow> floors_from x z"
  unfolding floors_from_def by metis

interpretation routine_steps: evolution routine
proof unfold_locales
  fix x y z assume "routine x y" "routine y z"
  then show "routine x z"
    unfolding routine_def using log_rows.grows_trans floors_from_trans by blast
qed (auto simp: routine_def floors_from_def)

lemmas routine_refl [simp] = routine_steps.R_refl
lemmas routine_trans [trans] = routine_steps.R_trans

named_theorems routine_rules

lemma routine_same: "hold_t db' = hold_t db \<Longrightarrow> scope_t db' = scope_t db \<Longrightarrow> routine db db'"
  by (auto simp: routine_def floors_from_def)

lemma lockChain_routine [routine_rules]: "lockChain e db chain = Inr db' \<Longrightarrow> routine db db'"
  by (auto dest!: lockChain_Inr intro: routine_same)

lemma ensureScopeRowTx_routine [routine_rules]: "ensureScopeRowTx e db chain sender = Inr db' \<Longrightarrow> routine db db'"
  by (auto dest!: ensureScopeRowTx_Inr simp: routine_def floors_from_def)

lemma insertObservationTx_routine [routine_rules]: "insertObservationTx e db ob = Inr (db', i) \<Longrightarrow> routine db db'"
  by (auto dest!: insertObservationTx_Inr intro: routine_same)

lemma updateScopeFrontierTx_routine [routine_rules]:
  "updateScopeFrontierTx e db chain sender l p i = Inr db' \<Longrightarrow> routine db db'"
  by (fastforce dest!: updateScopeFrontierTx_Inr simp: routine_def floors_from_def update_where_def scope_key_def)

lemma establishHoldTx_routine [routine_rules]: "establishHoldTx e db est = Inr (db', h) \<Longrightarrow> routine db db'"
  by (auto dest!: establishHoldTx_Inr simp: routine_def floors_from_def)

lemma insertBindingTx_routine [routine_rules]: "insertBindingTx e db b = Inr db' \<Longrightarrow> routine db db'"
  by (auto dest!: insertBindingTx_Inr intro: routine_same)

lemma insertBindingEventTx_routine [routine_rules]: "insertBindingEventTx e db ev = Inr (db', c) \<Longrightarrow> routine db db'"
  by (auto simp: insertBindingEventTx_def Let_def rbind_rules split: if_splits intro: routine_same)

lemma advanceBindingStateTx_routine [routine_rules]:
  "advanceBindingStateTx e db i to op from = Inr (db', m) \<Longrightarrow> routine db db'"
  by (auto dest!: advanceBindingStateTx_Inr intro: routine_same)

lemma allocateCommit_routine [routine_rules]:
  "allocateCommit e db req reg auth dec i = Inr (db', res) \<Longrightarrow> routine db db'"
  by (auto simp: allocateCommit_def Let_def rbind_rules split: option.splits if_splits
      dest!: routine_rules intro: routine_trans)

lemma allocateCandidate_routine [routine_rules]:
  "allocateCandidate e db req obs reg auth = Inr (db', res) \<Longrightarrow> routine db db'"
  by (auto simp: allocateCandidate_def Let_def rbind_rules split: option.splits if_splits
      dest!: routine_rules intro: routine_trans)

lemma allocateInTx_routine [routine_rules]:
  assumes run: "allocateInTx e db req obs = Inr (db', res)"
  shows "routine db db'"
proof -
  from run obtain db1 where lock: "lockChain e db (ar_ChainID req) = Inr db1"
    by (auto simp: allocateInTx_def Let_def rbind_rules)
  have "db' = db1 \<or> (\<exists>db2. ensureScopeRowTx e db1 (ar_ChainID req) (ar_Sender req) = Inr db2 \<and>
      (db' = db2 \<or> (\<exists>reg a. allocateCandidate e db2 req obs reg a = Inr (db', res))))"
    using run lock by (auto simp: allocateInTx_def Let_def rbind_rules neq_Nil_conv split: if_splits list.split_asm option.split_asm)
  then show ?thesis
    using lock by (blast dest: lockChain_routine ensureScopeRowTx_routine allocateCandidate_routine intro: routine_trans)
qed

lemma applyObservationTransitionTx_routine [routine_rules]:
  "applyObservationTransitionTx e db b obs = Inr (db', m) \<Longrightarrow> routine db db'"
  by (auto simp: applyObservationTransitionTx_def rbind_rules split: option.splits if_splits
      dest!: routine_rules intro: routine_trans)

lemma applyTransitionsTx_routine [routine_rules]: "applyTransitionsTx e db bs obs = Inr db' \<Longrightarrow> routine db db'"
  by (induction bs arbitrary: db)
    (auto simp: rbind_rules dest!: applyObservationTransitionTx_routine intro: routine_trans)

lemma reconcileFinish_routine [routine_rules]:
  "reconcileFinish e db chain sender obs dec i = Inr db' \<Longrightarrow> routine db db'"
  by (auto simp: reconcileFinish_def rbind_rules split: if_splits dest!: routine_rules intro: routine_trans)

lemma reconcileScopeInTx_routine [routine_rules]: "reconcileScopeInTx e db chain sender obs = Inr db' \<Longrightarrow> routine db db'"
  by (auto simp: reconcileScopeInTx_def Let_def rbind_rules dest!: routine_rules) (meson routine_trans)

lemma Allocate_routine:
  assumes "Allocate gate e db req obs e2 db2 = (db', rep, calls)"
  shows "routine db db'"
  using assms
  by (cases rule: Allocate_reply) (auto simp: committed_def dest!: allocateInTx_routine)

lemma reconcileScope_routine:
  "reconcileScope e db chain sender obs = (db', r) \<Longrightarrow> routine db db'"
  by (auto simp: reconcileScope_def committed_def dest!: reconcileScopeInTx_routine split: option.splits sum.splits if_splits)

section \<open>The transition system\<close>

text \<open>What a step was asked for and answered. An operation carries the observation the operator's process took.\<close>

datatype nonce_event =
    Admission allocation_request alloc_reply
  | Tick int string
  | Operation admin_request "observation option"
  | Elsewhere

inductive nonce_step :: "nonce_db \<Rightarrow> nonce_event \<Rightarrow> nonce_db \<Rightarrow> bool" where
  admission: "Allocate gate e db req obs e2 db2 = (db', rep, calls) \<Longrightarrow> nonce_step db (Admission req rep) db'"
| ticked: "reconcileScope e db chain sender obs = (db', err) \<Longrightarrow> nonce_step db (Tick chain sender) db'"
| operation: "Run e db req obs e2 db2 = (db', res) \<Longrightarrow> nonce_step db (Operation req obs) db'"
| elsewhere: "same_tables db db' \<Longrightarrow> nonce_step db Elsewhere db'"

inductive nonce_trace :: "nonce_db \<Rightarrow> nonce_event list \<Rightarrow> nonce_db \<Rightarrow> bool" where
  trace_nil: "nonce_trace db [] db"
| trace_cons: "nonce_step db ev db1 \<Longrightarrow> nonce_trace db1 evs db2 \<Longrightarrow> nonce_trace db (ev # evs) db2"

inductive_cases admission_stepE: "nonce_step db (Admission req rep) db'"
inductive_simps nonce_trace_simps [simp]: "nonce_trace db [] db'" "nonce_trace db (ev # evs) db'"

lemma nonce_trace_append:
  "nonce_trace db (xs @ ys) db' \<longleftrightarrow> (\<exists>mid. nonce_trace db xs mid \<and> nonce_trace mid ys db')"
  by (induction xs arbitrary: db) auto

lemma nonce_step_keeps:
  assumes "nonce_step db ev db'" "nonce_inv db"
  shows "nonce_inv db' \<and> db_evolves db db'"
  using assms
proof (cases rule: nonce_step.cases)
  case (admission gate e req obs e2 db2 rep calls)
  with Allocate_effect assms(2) show ?thesis by (auto simp: keeps_def)
next
  case (ticked e chain sender obs err)
  with reconcileScope_keeps assms(2) show ?thesis by blast
next
  case (operation e req obs e2 db2 res)
  with Run_keeps assms(2) show ?thesis by blast
next
  case elsewhere
  with assms(2) same_tables_inv same_tables_evolves show ?thesis by blast
qed

interpretation nonce_system: kept_along nonce_step nonce_trace nonce_inv db_evolves "\<lambda>_. True"
  by unfold_locales (auto dest: nonce_step_keeps intro: db_evolves_trans)

lemma nonce_trace_keeps: "nonce_trace db evs db' \<Longrightarrow> nonce_inv db \<Longrightarrow> nonce_inv db' \<and> db_evolves db db'"
  using nonce_system.along by blast

section \<open>Nonces along a trace\<close>

lemma binding_evolves_cases:
  assumes "db_evolves db db'" "b \<in> set (binding_t db)"
  obtains b' where "b' \<in> set (binding_t db')" "binding_identity b' = binding_identity b" "binding_evolves b b'"
  using binding_rows.grows_key [of "binding_t db" "binding_t db'" b] assms by (auto simp: db_evolves_def)

definition issued :: "nonce_event \<Rightarrow> binding \<Rightarrow> bool" where
  "issued ev b \<longleftrightarrow> (\<exists>req rep. ev = Admission req rep \<and> rp_outcome rep = OutcomeAllocated \<and> rp_binding rep = Some b)"

lemma inserted_identity:
  "b_IntentID (inserted_binding e b) = b_IntentID b" "b_ChainID (inserted_binding e b) = b_ChainID b"
  "b_Sender (inserted_binding e b) = b_Sender b" "b_Nonce (inserted_binding e b) = b_Nonce b"
  by (simp_all add: inserted_binding_def)

text \<open>An issued binding is new to its intent, above its scope, and stored.\<close>

lemma issued_step:
  assumes "nonce_step db ev db'" "nonce_inv db" "issued ev b"
  shows "(\<forall>r \<in> set (binding_t db). b_IntentID r \<noteq> b_IntentID b \<and>
        (in_binding_scope (b_ChainID b) (b_Sender b) r \<longrightarrow> the (b_Nonce r) < the (b_Nonce b))) \<and>
    (\<exists>r \<in> set (binding_t db'). b_IntentID r = b_IntentID b \<and> b_ChainID r = b_ChainID b \<and>
        b_Sender r = b_Sender b \<and> b_Nonce r = b_Nonce b) \<and> b_Nonce b \<noteq> None"
proof -
  from assms(3) obtain req rep where ev: "ev = Admission req rep" "rp_outcome rep = OutcomeAllocated" "rp_binding rep = Some b"
    by (auto simp: issued_def)
  from assms(1)[unfolded ev(1)] obtain gate e obs e2 db2 calls where
    "Allocate gate e db req obs e2 db2 = (db', rep, calls)" by (rule admission_stepE)
  from Allocate_effect [OF this assms(2)] ev have "bound_by e req obs db db' b" by auto
  then show ?thesis
    by (auto simp: bound_by_def has_row_iff in_binding_scope_def inserted_identity)
qed

lemma nonce_trace_split:
  assumes "nonce_trace db evs db'" "i < length evs"
  obtains mid mid' where "nonce_trace db (take i evs) mid" "nonce_step mid (evs ! i) mid'"
    "nonce_trace mid' (drop (Suc i) evs) db'"
proof -
  have "nonce_trace db (take i evs @ evs ! i # drop (Suc i) evs) db'" using assms by (simp add: id_take_nth_drop [symmetric])
  then show thesis using that by (auto simp: nonce_trace_append)
qed

lemma issued_above:
  assumes tr: "nonce_trace db evs db'" and inv: "nonce_inv db" and i: "i < length evs" "issued (evs ! i) b"
    and r: "r \<in> set (binding_t db)"
  shows "b_IntentID r \<noteq> b_IntentID b \<and>
    (in_binding_scope (b_ChainID b) (b_Sender b) r \<longrightarrow> the (b_Nonce r) < the (b_Nonce b))"
proof -
  obtain mid mid' where m: "nonce_trace db (take i evs) mid" "nonce_step mid (evs ! i) mid'"
    using nonce_trace_split [OF tr i(1)] .
  note k = nonce_trace_keeps [OF m(1) inv]
  obtain r' where "r' \<in> set (binding_t mid)" "binding_identity r' = binding_identity r"
    using binding_evolves_cases [OF conjunct2 [OF k] r] .
  with issued_step [OF m(2) conjunct1 [OF k] i(2)] show ?thesis
    by (auto simp: binding_identity_def in_binding_scope_def)
qed

text \<open>C1: no nonce is issued twice. Along any interleaving of admissions, reconcile transactions, operator
  operations and changes elsewhere, in any environments, every admission that answers \<open>allocated\<close> is for an
  intent no binding had, with a nonce strictly above every nonce its scope has ever bound (released and consumed ones
  included), whether that was stored at the start or issued earlier in the interleaving.\<close>

theorem nonces_never_reissued:
  assumes "nonce_inv db" "nonce_trace db evs db'"
  shows "(\<forall>i < length evs. \<forall>b r. issued (evs ! i) b \<longrightarrow> r \<in> set (binding_t db) \<longrightarrow>
      b_IntentID r \<noteq> b_IntentID b \<and>
      (in_binding_scope (b_ChainID b) (b_Sender b) r \<longrightarrow> the (b_Nonce r) < the (b_Nonce b))) \<and>
    (\<forall>i j b c. i < j \<longrightarrow> j < length evs \<longrightarrow> issued (evs ! i) b \<longrightarrow> issued (evs ! j) c \<longrightarrow>
      b_IntentID b \<noteq> b_IntentID c \<and>
      (b_ChainID b = b_ChainID c \<longrightarrow> b_Sender b = b_Sender c \<longrightarrow> the (b_Nonce b) < the (b_Nonce c)))"
proof (intro conjI allI impI)
  fix i j b c
  assume ij: "i < j" "j < length evs" and b: "issued (evs ! i) b" and c: "issued (evs ! j) c"
  obtain mid mid' where m: "nonce_trace db (take i evs) mid" "nonce_step mid (evs ! i) mid'"
    "nonce_trace mid' (drop (Suc i) evs) db'"
    using nonce_trace_split [OF assms(2), of i] ij by auto
  have inv: "nonce_inv mid" using nonce_trace_keeps [OF m(1) assms(1)] by blast
  then have inv': "nonce_inv mid'" using nonce_step_keeps [OF m(2)] by blast
  have "issued (drop (Suc i) evs ! (j - Suc i)) c" "j - Suc i < length (drop (Suc i) evs)" using ij c by auto
  note above = issued_above [OF m(3) inv' this(2,1)]
  obtain r where "r \<in> set (binding_t mid')" "b_IntentID r = b_IntentID b" "b_ChainID r = b_ChainID b"
      "b_Sender r = b_Sender b" "b_Nonce r = b_Nonce b"
    using issued_step [OF m(2) inv b] by blast
  with above [of r]
  show "b_IntentID b \<noteq> b_IntentID c" "b_ChainID b = b_ChainID c \<Longrightarrow> b_Sender b = b_Sender c \<Longrightarrow> the (b_Nonce b) < the (b_Nonce c)"
    by (auto simp: in_binding_scope_def)
qed (use issued_above [OF assms(2,1)] in blast)+

text \<open>An admission on the bound database for a second intent.\<close>

definition demo_second :: allocation_request where
  "demo_second = demo_req\<lparr>ar_IntentID := ''wd-2''\<rparr>"

lemma demo_second_issued:
  obtains db' rep b where "nonce_step demo_bound_db (Admission demo_second rep) db'" "issued (Admission demo_second rep) b"
    "b_ChainID b = 1" "b_Sender b = demo_sender"
proof -
  obtain db' rep calls where
    run: "Allocate demo_gate demo_env demo_bound_db demo_second (demo_obs 0 0) demo_env demo_bound_db = (db', rep, calls)"
    by (metis prod.collapse)
  have "allocate_spec demo_env demo_bound_db demo_second (demo_obs 0 0) = OutcomeAllocated" by code_simp
  moreover have "AllocationRequest_Validate demo_second = Inr ()" by code_simp
  ultimately have out: "rp_outcome rep = OutcomeAllocated"
    using Allocate_healthy [OF run demo_bound_inv demo_bound_healthy _ demo_gate_open] demo_sampled [of 0 0]
    by (simp add: demo_second_def demo_req_def)
  with Allocate_effect [OF run demo_bound_inv] obtain b where
    "rp_binding rep = Some b" "bound_by demo_env demo_second (demo_obs 0 0) demo_bound_db db' b" by blast
  with out nonce_step.admission [OF run] that [of rep db' b] show thesis
    by (auto simp: issued_def bound_by_def demo_second_def demo_req_def)
qed

theorem nonces_never_reissued_witness:
  "\<exists>db' rep b. nonce_trace demo_bound_db [Admission demo_second rep, Elsewhere] db' \<and>
     issued (Admission demo_second rep) b \<and> the (b_Nonce demo_binding) < the (b_Nonce b)"
proof -
  obtain db' rep b where s: "nonce_step demo_bound_db (Admission demo_second rep) db'" "issued (Admission demo_second rep) b"
    "b_ChainID b = 1" "b_Sender b = demo_sender"
    by (rule demo_second_issued)
  moreover have "nonce_step db' Elsewhere db'" by (rule nonce_step.elsewhere) (simp add: same_tables_def)
  ultimately have tr: "nonce_trace demo_bound_db [Admission demo_second rep, Elsewhere] db'" by auto
  have "the (b_Nonce demo_binding) < the (b_Nonce b)"
    using nonces_never_reissued [OF demo_bound_inv tr, THEN conjunct1, rule_format, of 0 b demo_binding] s
    by (simp add: demo_bound_tables)
  with tr s(2) show ?thesis by blast
qed

text \<open>C18: bindings are permanent. Along any interleaving a stored binding keeps its identity (id, intent,
  scope, nonce, authorization and registry version, creation), its state only moves along the legal edges, and a
  terminal binding stays exactly as it is; its log and all audit rows are kept.\<close>

theorem bindings_are_permanent:
  assumes "nonce_inv db" "nonce_trace db evs db'" "b \<in> set (binding_t db)"
  shows "(\<exists>b' \<in> set (binding_t db'). binding_identity b' = binding_identity b \<and> reached (b_State b) (b_State b') \<and>
      (IsTerminal (b_State b) \<longrightarrow> b' = b)) \<and>
    set (event_t db) \<subseteq> set (event_t db') \<and> set (audit_t db) \<subseteq> set (audit_t db')"
proof -
  have ev: "db_evolves db db'" using nonce_trace_keeps assms by blast
  obtain b' where b': "b' \<in> set (binding_t db')" "binding_identity b' = binding_identity b" "binding_evolves b b'"
    using binding_evolves_cases [OF ev assms(3)] .
  have "set (event_t db) \<subseteq> set (event_t db')" "set (audit_t db) \<subseteq> set (audit_t db')"
    using ev log_rows.grows_row by (auto simp: db_evolves_def)
  with b' show ?thesis
    by (auto simp: binding_evolves_def reached_def IsTerminal_def CanTransition_cases)
qed

theorem bindings_are_permanent_witness:
  "\<exists>rep db'. nonce_trace demo_bound_db [Admission demo_second rep] db' \<and>
     (\<exists>b' \<in> set (binding_t db'). b_Nonce b' = Some 0 \<and> b_IntentID b' = ''wd-1'')"
proof -
  obtain db' rep b where "nonce_step demo_bound_db (Admission demo_second rep) db'" by (rule demo_second_issued)
  then have tr: "nonce_trace demo_bound_db [Admission demo_second rep] db'" by simp
  have "demo_binding \<in> set (binding_t demo_bound_db)" by (simp add: demo_bound_tables)
  from bindings_are_permanent [OF demo_bound_inv tr this] obtain b' where
    "b' \<in> set (binding_t db')" "binding_identity b' = binding_identity demo_binding" by blast
  then have "\<exists>b' \<in> set (binding_t db'). b_Nonce b' = Some 0 \<and> b_IntentID b' = ''wd-1''"
    by (auto simp: binding_identity_def demo_binding_def)
  with tr show ?thesis by blast
qed

section \<open>Holds along a trace\<close>

text \<open>Only a release with its evidence ends a hold.\<close>

definition releases :: "nonce_db \<Rightarrow> nonce_event \<Rightarrow> scope_hold \<Rightarrow> bool" where
  "releases db ev h \<longleftrightarrow> (\<exists>req obs. ev = Operation req (Some obs) \<and> q_Action req = AdminActionHoldRelease \<and>
     q_HoldID req = h_HoldID h \<and> q_ChainID req = h_ChainID h \<and> q_Sender req = h_Sender h \<and> hold_release_evidence db req obs)"

lemma routine_hold: "routine db db' \<Longrightarrow> h \<in> set (hold_t db) \<Longrightarrow> h \<in> set (hold_t db')"
  using log_rows.grows_row by (auto simp: routine_def)

lemma Run_observed:
  assumes "Run e db req obs e2 db2 = (db', res)" "q_Action req = AdminActionHoldRelease" "obs = None"
  shows "db' = db"
  using assms by (auto simp: Run_def split: sum.splits)

lemma hold_step:
  assumes step: "nonce_step db ev db'" and inv: "nonce_inv db" and h: "h \<in> set (hold_t db)"
  shows "h \<in> set (hold_t db') \<or> releases db ev h"
  using step
proof (cases rule: nonce_step.cases)
  case (admission gate e req obs e2 db2 rep calls)
  then show ?thesis using Allocate_routine routine_hold h by blast
next
  case (ticked e chain sender obs err)
  then show ?thesis using reconcileScope_routine routine_hold h by blast
next
  case (operation e req obs e2 db2 res)
  note op = operation
  from op(2) inv show ?thesis
  proof (cases rule: Run_durable)
    case unchanged
    then show ?thesis using h by simp
  next
    case (durable db1 out)
    have same: "h \<in> set (hold_t db')" if "hold_t db1 = hold_t db" using that durable(3) h by simp
    show ?thesis
    proof (cases "ot_Outcome out = AdminApplied \<and> q_Action req = AdminActionHoldRelease")
      case True
      with durable(5) have rel: "hold_release_evidence db req (the obs)" "hold_released e db req (the obs) db1"
        by (auto simp: admin_applied_def)
      have "db' \<noteq> db" using arg_cong [OF durable(3), of audit_t] by auto
      then have some: "obs \<noteq> None" using Run_observed [OF op(2)] True by auto
      obtain ev i where t: "hold_t db1 = map (\<lambda>h. if h_HoldID h = q_HoldID req then released_hold e req ev i h else h) (hold_t db)"
        using rel(2) by (auto simp: hold_released_def)
      show ?thesis
      proof (cases "h_HoldID h = q_HoldID req")
        case True
        obtain h' where "h' \<in> set (hold_t db)" "h_HoldID h' = q_HoldID req" "h_ChainID h' = q_ChainID req" "h_Sender h' = q_Sender req"
          using rel(1) by (auto simp: hold_release_evidence_def)
        moreover from this have "h' = h" using hold_unique [OF inv _ h] True by simp
        ultimately show ?thesis
          using op some rel(1) \<open>ot_Outcome out = AdminApplied \<and> q_Action req = AdminActionHoldRelease\<close>
          by (auto simp: releases_def)
      next
        case False
        then show ?thesis using t h durable(3) by force
      qed
    next
      case False
      then have "hold_t db1 = hold_t db"
        using durable(5)
        by (auto simp: same_tables_def admin_applied_def binding_released_def registry_changed_def split: admin_action.splits)
      then show ?thesis using same by blast
    qed
  qed
next
  case elsewhere
  then show ?thesis using h by (simp add: same_tables_def)
qed

lemma held_refuses:
  assumes "h \<in> set (hold_t db)" "active_hold h" "ar_ChainID req = h_ChainID h" "ar_Sender req = h_Sender h"
  shows "allocate_spec e db req obs \<noteq> OutcomeAllocated"
proof -
  have "has_row (hold_active_in (ar_ChainID req) (ar_Sender req)) (hold_t db)"
    using assms by (auto simp: has_row_iff hold_active_in_def active_hold_def)
  then have "admission_refusal e db req \<noteq> OutcomeNone" by (simp add: admission_refusal_def Let_def)
  then show ?thesis using admission_refusals [of e db req] by (auto simp: allocate_spec_def)
qed

lemma held_issues_nothing:
  assumes step: "nonce_step db ev db'" and inv: "nonce_inv db" and h: "h \<in> set (hold_t db)" "active_hold h"
    and b: "issued ev b"
  shows "\<not> in_binding_scope (h_ChainID h) (h_Sender h) b"
proof
  assume s: "in_binding_scope (h_ChainID h) (h_Sender h) b"
  from b obtain req rep where ev: "ev = Admission req rep" "rp_outcome rep = OutcomeAllocated" "rp_binding rep = Some b"
    by (auto simp: issued_def)
  from step[unfolded ev(1)] obtain gate e obs e2 db2 calls where
    run: "Allocate gate e db req obs e2 db2 = (db', rep, calls)" by (rule admission_stepE)
  from Allocate_effect [OF this inv] ev have "allocate_spec e db req obs = OutcomeAllocated" "bound_by e req obs db db' b"
    by auto
  with held_refuses [OF h] s show False by (auto simp: bound_by_def in_binding_scope_def)
qed

definition not_release_of :: "scope_hold \<Rightarrow> nonce_event \<Rightarrow> bool" where
  "not_release_of h ev \<longleftrightarrow>
     (\<forall>req obs. ev = Operation req obs \<longrightarrow> \<not> (q_Action req = AdminActionHoldRelease \<and> q_HoldID req = h_HoldID h))"

interpretation held_scope: kept_along nonce_step nonce_trace "\<lambda>db. nonce_inv db \<and> h \<in> set (hold_t db)" "\<lambda>_ _. True" "not_release_of h"
  for h
proof unfold_locales
  fix db ev db' assume a: "nonce_inv db \<and> h \<in> set (hold_t db)" "nonce_step db ev db'" "not_release_of h ev"
  then have "\<not> releases db ev h" by (auto simp: releases_def not_release_of_def)
  with a show "nonce_inv db' \<and> h \<in> set (hold_t db')" using nonce_step_keeps hold_step by blast
qed auto

text \<open>C6: a hold stops its scope. While an active hold has not been the subject of a release operation, along any
  interleaving in any environments, it stays active and its scope issues no nonce.\<close>

theorem hold_stops_scope:
  assumes inv: "nonce_inv db" and tr: "nonce_trace db evs db'" and h: "h \<in> set (hold_t db)" "active_hold h"
    and nr: "\<forall>ev \<in> set evs. not_release_of h ev"
  shows "h \<in> set (hold_t db') \<and>
    (\<forall>ev \<in> set evs. \<forall>b. issued ev b \<longrightarrow> \<not> in_binding_scope (h_ChainID h) (h_Sender h) b)"
proof (intro conjI ballI allI impI)
  show "h \<in> set (hold_t db')" using held_scope.along [OF tr _ nr] inv h by blast
  fix ev b assume "ev \<in> set evs" "issued ev b"
  then obtain i where i: "i < length evs" "evs ! i = ev" by (auto simp: in_set_conv_nth)
  obtain mid mid' where m: "nonce_trace db (take i evs) mid" "nonce_step mid ev mid'"
    using nonce_trace_split [OF tr i(1)] i(2) by blast
  have "\<forall>ev \<in> set (take i evs). not_release_of h ev" using nr by (meson in_set_takeD)
  then have "nonce_inv mid \<and> h \<in> set (hold_t mid)" using held_scope.along [OF m(1)] inv h by blast
  then show "\<not> in_binding_scope (h_ChainID h) (h_Sender h) b"
    using held_issues_nothing [OF m(2)] h(2) \<open>issued ev b\<close> by blast
qed

lemma demo_held_step:
  obtains rep db' where "nonce_step demo_held_db (Admission demo_second rep) db'"
  using nonce_step.admission by (metis prod.collapse)

lemma demo_held_row: "demo_hold \<in> set (hold_t demo_held_db)" "active_hold demo_hold"
  by (simp_all add: demo_held_db_def demo_hold_def active_hold_def)

theorem hold_stops_scope_witness:
  "\<exists>rep db'. nonce_trace demo_held_db [Admission demo_second rep] db' \<and> demo_hold \<in> set (hold_t db') \<and>
     (\<forall>b. issued (Admission demo_second rep) b \<longrightarrow> \<not> in_binding_scope 1 demo_sender b)"
proof -
  obtain rep db' where "nonce_step demo_held_db (Admission demo_second rep) db'" by (rule demo_held_step)
  then have tr: "nonce_trace demo_held_db [Admission demo_second rep] db'" by simp
  from hold_stops_scope [OF demo_held_inv tr demo_held_row]
  have "demo_hold \<in> set (hold_t db') \<and> (\<forall>b. issued (Admission demo_second rep) b \<longrightarrow> \<not> in_binding_scope 1 demo_sender b)"
    by (simp add: not_release_of_def demo_hold_def)
  with tr show ?thesis by blast
qed

section \<open>The reconciled floor\<close>

text \<open>The next nonce of a scope as its bindings alone give it.\<close>

definition scope_base :: "nonce_db \<Rightarrow> int \<Rightarrow> string \<Rightarrow> int" where
  "scope_base db chain sender =
     (case MaxBoundNonce (scope_bindings db chain sender) of None \<Rightarrow> 0 | Some m \<Rightarrow> m + 1)"

definition floors_inert :: "nonce_db \<Rightarrow> bool" where
  "floors_inert db \<longleftrightarrow>
     (\<forall>s \<in> set (scope_t db). \<forall>f. s_ReconciledFloor s = Some f \<longrightarrow> f \<le> scope_base db (s_ChainID s) (s_Sender s))"

lemma scope_binding_nonce:
  assumes "nonce_inv db" "b \<in> set (scope_bindings db chain sender)"
  obtains n where "b_Nonce b = Some n" "in_nonce_range n"
  using assms nonce_inv_row [OF assms(1), of b]
  by (auto simp: set_scope_bindings binding_row_ok_iff nonce_col_ok_def split: option.splits)

lemma MaxBound_Some:
  assumes "nonce_inv db" "scope_bindings db chain sender \<noteq> []"
  obtains m where "MaxBoundNonce (scope_bindings db chain sender) = Some m"
proof (cases "MaxBoundNonce (scope_bindings db chain sender)")
  case None
  obtain b where "b \<in> set (scope_bindings db chain sender)" using assms(2) by fastforce
  with None show thesis using scope_binding_nonce [OF assms(1)] by (metis MaxBoundNonce_None option.distinct(1))
qed (use that in blast)

lemma scope_base_nonneg:
  assumes "nonce_inv db"
  shows "0 \<le> scope_base db chain sender"
proof (cases "MaxBoundNonce (scope_bindings db chain sender)")
  case (Some m)
  then obtain b where "b \<in> set (scope_bindings db chain sender)" "b_Nonce b = Some m" using MaxBoundNonce_mem by blast
  then have "in_nonce_range m" using scope_binding_nonce [OF assms] by (metis option.inject)
  with Some show ?thesis by (simp add: scope_base_def in_nonce_range_def)
qed (simp add: scope_base_def)

lemma scope_base_mono:
  assumes ev: "db_evolves db db'" and inv: "nonce_inv db'"
  shows "scope_base db chain sender \<le> scope_base db' chain sender"
proof (cases "MaxBoundNonce (scope_bindings db chain sender)")
  case None
  with scope_base_nonneg [OF inv] show ?thesis by (simp add: scope_base_def)
next
  case (Some m)
  then obtain b where b: "b \<in> set (binding_t db)" "in_binding_scope chain sender b" "b_Nonce b = Some m"
    using MaxBoundNonce_mem [of "scope_bindings db chain sender" m] by (auto simp: set_scope_bindings)
  obtain b' where b': "b' \<in> set (binding_t db')" "binding_identity b' = binding_identity b"
    using binding_evolves_cases [OF ev b(1)] .
  then have mem: "b' \<in> set (scope_bindings db' chain sender)" "b_Nonce b' = Some m"
    using b by (auto simp: set_scope_bindings binding_identity_def in_binding_scope_def)
  then obtain m' where m': "MaxBoundNonce (scope_bindings db' chain sender) = Some m'"
    using MaxBound_Some [OF inv] by (metis empty_iff list.set(1))
  then show ?thesis using MaxBoundNonce_upper [OF m' mem] Some by (simp add: scope_base_def)
qed

text \<open>Where floors are inert the matrix calls a view consistent only up to the next nonce of the bindings, and its
  candidate is that nonce.\<close>

lemma inert_floor:
  assumes "floors_inert db" "List.find (in_scope chain sender) (scope_t db) = Some s" "s_ReconciledFloor s = Some f"
  shows "f \<le> scope_base db chain sender"
  using assms find_Some_set [OF assms(2)] by (auto simp: floors_inert_def in_scope_def)

lemma Classify_consistent_base:
  assumes "d_Classification (Classify i) = ClassificationConsistent" "ci_Pending i = Some p"
  shows "\<not> ci_HasBindings i \<and> ci_ReconciledFloor i = None \<and> p = 0 \<or>
    (ci_HasBindings i \<or> ci_ReconciledFloor i \<noteq> None) \<and> (\<exists>base. classifyFrontierBase i = Inr base \<and> p \<le> base)"
  using assms
  by (auto simp: Classify_def Let_def refused_as_def admitted_at_def split: bool.splits option.splits sum.splits if_splits)

lemma consistent_below:
  assumes inv: "nonce_inv db" and fl: "floors_inert db" and p: "o_PendingCount obs = Some p"
    and con: "d_Classification (scope_decision db chain sender obs) = ClassificationConsistent"
  shows "p \<le> scope_base db chain sender"
proof -
  let ?bs = "scope_bindings db chain sender" and ?s = "List.find (in_scope chain sender) (scope_t db)"
  note c = Classify_consistent_base [OF con [unfolded scope_decision_def scope_classify_def], of p]
  show ?thesis
  proof (cases "?bs = []")
    case True
    then have zero: "scope_base db chain sender = 0" by (simp add: scope_base_def MaxBoundNonce_def)
    show ?thesis
    proof (cases "scopeFloor ?s")
      case None
      with c p True zero show ?thesis by simp
    next
      case (Some f)
      then obtain s where "?s = Some s" "s_ReconciledFloor s = Some f" by (auto simp: scopeFloor_def split: option.splits)
      then have "f \<le> 0" using inert_floor [OF fl] zero by metis
      moreover have "p \<le> f" using c p True Some by (auto simp: classifyFrontierBase_def rbind_rules)
      ultimately show ?thesis using zero by simp
    qed
  next
    case False
    then obtain m where m: "MaxBoundNonce ?bs = Some m" using MaxBound_Some [OF inv] by blast
    with c p False show ?thesis by (auto simp: scope_base_def classifyFrontierBase_def NextNonce_def rbind_rules split: if_splits)
  qed
qed

lemma floors_inert_routine:
  assumes "routine db db'" "db_evolves db db'" "nonce_inv db'" "floors_inert db"
  shows "floors_inert db'"
  unfolding floors_inert_def
proof (intro ballI allI impI)
  fix s' f assume "s' \<in> set (scope_t db')" "s_ReconciledFloor s' = Some f"
  then obtain s where s: "s \<in> set (scope_t db)" "scope_key s = scope_key s'" "s_ReconciledFloor s = Some f"
    using assms(1) by (auto simp: routine_def floors_from_def)
  then have "f \<le> scope_base db (s_ChainID s') (s_Sender s')" using assms(4) by (auto simp: floors_inert_def scope_key_def)
  then show "f \<le> scope_base db' (s_ChainID s') (s_Sender s')" using scope_base_mono [OF assms(2,3)] order_trans by blast
qed

lemma scope_bindings_same: "binding_t db' = binding_t db \<Longrightarrow> scope_base db' = scope_base db"
  by (simp add: scope_base_def scope_bindings_def fun_eq_iff)

lemma floors_inert_release:
  assumes inv: "nonce_inv db" and fl: "floors_inert db" and ev: "hold_release_evidence db req obs" and rel: "hold_released e db req obs db'"
  shows "floors_inert db'"
proof -
  obtain p where p: "o_PendingCount obs = Some p"
    "scope_t db' = update_where (floor_under (q_ChainID req) (q_Sender req) p) (raise_floor e p) (scope_t db)"
    using rel by (auto simp: hold_released_def)
  have base: "scope_base db' = scope_base db" using rel by (intro scope_bindings_same) (simp add: hold_released_def)
  have "p \<le> scope_base db (q_ChainID req) (q_Sender req)"
    using consistent_below [OF inv fl p(1)] ev by (simp add: hold_release_evidence_def)
  moreover have "0 \<le> scope_base db (q_ChainID req) (q_Sender req)" using inv by (rule scope_base_nonneg)
  ultimately show ?thesis
    using fl unfolding floors_inert_def base p(2)
    by (auto simp: update_where_def raise_floor_def floor_under_def in_scope_def split: option.splits)
qed

lemma floors_inert_step:
  assumes step: "nonce_step db ev db'" and inv: "nonce_inv db" and fl: "floors_inert db"
  shows "floors_inert db'"
  using step
proof (cases rule: nonce_step.cases)
  case (admission gate e req obs e2 db2 rep calls)
  then show ?thesis using Allocate_routine floors_inert_routine nonce_step_keeps [OF step inv] fl by blast
next
  case (ticked e chain sender obs err)
  then show ?thesis using reconcileScope_routine floors_inert_routine nonce_step_keeps [OF step inv] fl by blast
next
  case (operation e req obs e2 db2 res)
  from operation(2) inv show ?thesis
  proof (cases rule: Run_durable)
    case unchanged
    then show ?thesis using fl by simp
  next
    case (durable db1 out)
    have audit: "floors_inert db' = floors_inert db1"
      using durable(3) scope_bindings_same [of db' db1] by (simp add: floors_inert_def)
    show ?thesis
    proof (cases "hold_release_evidence db req (the obs) \<and> hold_released e db req (the obs) db1")
      case True
      then show ?thesis using audit floors_inert_release [OF inv fl] by blast
    next
      case False
      then have "hold_t db1 = hold_t db" "scope_t db1 = scope_t db"
        using durable(5)
        by (auto simp: same_tables_def admin_applied_def binding_released_def registry_changed_def split: admin_action.splits)
      then have "routine db db1" by (rule routine_same)
      then show ?thesis
        using audit floors_inert_routine durable(1) inv fl by (auto simp: keeps_def)
    qed
  qed
next
  case elsewhere
  then have "scope_base db' = scope_base db" by (intro scope_bindings_same) (simp add: same_tables_def)
  then show ?thesis using elsewhere fl by (simp add: floors_inert_def same_tables_def)
qed

interpretation inert_floors: kept_along nonce_step nonce_trace "\<lambda>db. nonce_inv db \<and> floors_inert db" "\<lambda>_ _. True" "\<lambda>_. True"
  by unfold_locales (auto dest: nonce_step_keeps floors_inert_step)

text \<open>The tables as the migrations leave them.\<close>

definition nonce_tables_empty :: "nonce_db \<Rightarrow> bool" where
  "nonce_tables_empty db \<longleftrightarrow> registry_t db = [] \<and> scope_t db = [] \<and> binding_t db = [] \<and> event_t db = [] \<and>
     observation_t db = [] \<and> hold_t db = [] \<and> audit_t db = []"

lemma empty_tables_inv: "nonce_tables_empty db \<Longrightarrow> nonce_inv db \<and> floors_inert db"
  by (simp add: nonce_tables_empty_def nonce_inv_def table_inv_defs floors_inert_def)

lemma Classify_base:
  assumes "d_Candidate (Classify i) = Some c" "ci_HasBindings i" "ci_MaxBindingNonce i = Some m"
    and "\<And>f. ci_ReconciledFloor i = Some f \<Longrightarrow> f \<le> m + 1"
  shows "c = m + 1"
  using assms
  by (elim Classify_candidate)
    (auto simp: classifyFrontierBase_def NextNonce_def rbind_rules MaxBig_def split: if_splits option.splits)

lemma inert_candidate:
  assumes inv: "nonce_inv db" and fl: "floors_inert db" and bs: "scope_bindings db chain sender \<noteq> []"
    and cand: "d_Candidate (scope_decision db chain sender obs) = Some c"
  shows "c = scope_base db chain sender"
proof -
  let ?s = "List.find (in_scope chain sender) (scope_t db)"
  obtain m where m: "MaxBoundNonce (scope_bindings db chain sender) = Some m" using MaxBound_Some [OF inv bs] .
  then have base: "scope_base db chain sender = m + 1" by (simp add: scope_base_def)
  have "f \<le> m + 1" if "scopeFloor ?s = Some f" for f
    using that inert_floor [OF fl, of chain sender] base by (auto simp: scopeFloor_def split: option.splits)
  then show ?thesis
    using Classify_base [OF cand [unfolded scope_decision_def scope_classify_def], of m] bs m base by simp
qed

section \<open>No gaps\<close>

definition bound_nonces :: "nonce_db \<Rightarrow> int \<Rightarrow> string \<Rightarrow> int set" where
  "bound_nonces db chain sender = {n. \<exists>b \<in> set (binding_t db). in_binding_scope chain sender b \<and> b_Nonce b = Some n}"

definition dense :: "nonce_db \<Rightarrow> bool" where
  "dense db \<longleftrightarrow> (\<forall>chain sender. \<forall>x \<in> bound_nonces db chain sender. \<forall>y \<in> bound_nonces db chain sender.
     {x..y} \<subseteq> bound_nonces db chain sender)"

lemma bound_nonces_identity:
  assumes "map binding_identity (binding_t db') = map binding_identity (binding_t db)"
  shows "bound_nonces db' = bound_nonces db"
proof -
  have "bound_nonces db chain sender =
      {n. \<exists>i a. ((i, a, chain, sender), Some n) \<in> (\<lambda>x. (fst x, fst (snd x))) ` binding_identity ` set (binding_t db)}" for db chain sender
    by (force simp: bound_nonces_def binding_identity_def in_binding_scope_def image_iff)
  moreover have "binding_identity ` set (binding_t db') = binding_identity ` set (binding_t db)"
    using assms by (metis list.set_map)
  ultimately show ?thesis by (simp add: fun_eq_iff)
qed

lemma bound_nonces_base:
  assumes "nonce_inv db" "scope_bindings db chain sender \<noteq> []"
  shows "scope_base db chain sender - 1 \<in> bound_nonces db chain sender"
    and "n \<in> bound_nonces db chain sender \<Longrightarrow> n < scope_base db chain sender"
proof -
  obtain m where m: "MaxBoundNonce (scope_bindings db chain sender) = Some m" using MaxBound_Some [OF assms] .
  then show "scope_base db chain sender - 1 \<in> bound_nonces db chain sender"
    using MaxBoundNonce_mem [OF m] by (auto simp: scope_base_def bound_nonces_def set_scope_bindings)
  show "n < scope_base db chain sender" if "n \<in> bound_nonces db chain sender"
    using that m MaxBoundNonce_upper [OF m] by (fastforce simp: scope_base_def bound_nonces_def set_scope_bindings)
qed

lemma bound_nonces_Nil:
  assumes "nonce_inv db"
  shows "bound_nonces db chain sender = {} \<longleftrightarrow> scope_bindings db chain sender = []"
proof
  assume "bound_nonces db chain sender = {}"
  then show "scope_bindings db chain sender = []" using bound_nonces_base(1) [OF assms] by blast
next
  assume "scope_bindings db chain sender = []"
  then have "set (scope_bindings db chain sender) = {}" by simp
  then show "bound_nonces db chain sender = {}" by (auto simp: bound_nonces_def set_scope_bindings)
qed

text \<open>A step leaves every binding's identity alone or is an admission that adds one binding.\<close>

lemma step_bindings:
  assumes step: "nonce_step db ev db'" and inv: "nonce_inv db"
  shows "map binding_identity (binding_t db') = map binding_identity (binding_t db) \<or>
    (\<exists>e req obs b. allocate_spec e db req obs = OutcomeAllocated \<and> bound_by e req obs db db' b)"
  using step
proof (cases rule: nonce_step.cases)
  case (admission gate e req obs e2 db2 rep calls)
  from admission(2) show ?thesis
  proof (cases rule: Allocate_reply)
    case (ended dbt res)
    then show ?thesis using allocateInTx_bindings [OF ended(3) inv] by (auto simp: committed_def split: option.splits)
  qed auto
next
  case (ticked e chain sender obs err)
  have "db' = db \<or> reconcileScopeInTx e db chain sender obs = Inr db'"
    using ticked(2) by (auto simp: reconcileScope_def committed_def split: option.splits sum.splits if_splits)
  then show ?thesis
    using reconcileScopeInTx_Inr [OF _ inv] by (auto simp: reconcile_effect_def reconciled_identity)
next
  case (operation e req obs e2 db2 res)
  from operation(2) inv show ?thesis
  proof (cases rule: Run_durable)
    case (durable db1 out)
    then have "map binding_identity (binding_t db1) = map binding_identity (binding_t db)"
      by (auto simp: same_tables_def admin_applied_def hold_released_def binding_released_def registry_changed_def
          advanced_binding_row split: admin_action.splits)
    then show ?thesis using durable(3) by simp
  qed simp
next
  case elsewhere
  then show ?thesis by (simp add: same_tables_def)
qed

lemma unbroken_snoc:
  fixes c :: int
  assumes N: "\<And>x y. x \<in> N \<Longrightarrow> y \<in> N \<Longrightarrow> {x..y} \<subseteq> N" and top: "c - 1 \<in> N" "\<And>n. n \<in> N \<Longrightarrow> n < c"
    and xy: "x \<in> insert c N" "y \<in> insert c N"
  shows "{x..y} \<subseteq> insert c N"
proof
  fix n assume n: "n \<in> {x..y}"
  have "y \<le> c" using xy(2) top(2) [of y] by auto
  show "n \<in> insert c N"
  proof (cases "x = c \<or> n = c")
    case True
    then show ?thesis using n \<open>y \<le> c\<close> by auto
  next
    case False
    then have "x \<in> N" "n \<in> {x..c - 1}" using xy(1) n \<open>y \<le> c\<close> by auto
    then show ?thesis using N top(1) by blast
  qed
qed

lemma dense_step:
  assumes step: "nonce_step db ev db'" and inv: "nonce_inv db" and fl: "floors_inert db" and d: "dense db"
  shows "dense db'"
  using step_bindings [OF step inv]
proof (elim disjE exE conjE)
  assume "map binding_identity (binding_t db') = map binding_identity (binding_t db)"
  from bound_nonces_identity [OF this] show ?thesis using d by (simp only: dense_def)
next
  fix e req obs b assume bb: "bound_by e req obs db db' b"
  let ?c = "ar_ChainID req" and ?s = "ar_Sender req"
  let ?N = "bound_nonces db ?c ?s"
  obtain c where c: "b_Nonce b = Some c" "d_Candidate (scope_decision db ?c ?s obs) = Some c"
    using bb by (auto simp: bound_by_def)
  have new: "bound_nonces db' chain sender = (if chain = ?c \<and> sender = ?s then insert c (bound_nonces db chain sender)
      else bound_nonces db chain sender)" for chain sender
    using bb c(1) by (auto simp: bound_by_def bound_nonces_def in_binding_scope_def inserted_identity)
  have N: "{x..y} \<subseteq> ?N" if "x \<in> ?N" "y \<in> ?N" for x y using d that by (simp add: dense_def)
  have "{x..y} \<subseteq> insert c ?N" if xy: "x \<in> insert c ?N" "y \<in> insert c ?N" for x y
  proof (cases "scope_bindings db ?c ?s = []")
    case True
    then have "?N = {}" using bound_nonces_Nil [OF inv] by blast
    then show ?thesis using xy by auto
  next
    case False
    have "c = scope_base db ?c ?s" using inert_candidate [OF inv fl False c(2)] .
    with unbroken_snoc [OF N _ _ xy] bound_nonces_base [OF inv False] show ?thesis by blast
  qed
  with d show ?thesis unfolding dense_def new by auto
qed

interpretation gap_free: kept_along nonce_step nonce_trace "\<lambda>db. nonce_inv db \<and> floors_inert db \<and> dense db" "\<lambda>_ _. True" "\<lambda>_. True"
  by unfold_locales (auto dest: nonce_step_keeps floors_inert_step dense_step)

text \<open>C2: the manager leaves no gaps. In every state reached from the empty tables by any interleaving, in any
  environments, the nonces ever bound in a scope form an unbroken interval, and once a scope has bindings the only
  nonce the matrix can offer it is the one right after them.\<close>

theorem reachable_nonces_gap_free:
  assumes "nonce_tables_empty db" "nonce_trace db evs db'"
  shows "dense db' \<and> (\<forall>chain sender obs c. bound_nonces db' chain sender \<noteq> {} \<longrightarrow>
    d_Candidate (scope_decision db' chain sender obs) = Some c \<longrightarrow> (\<exists>lo. bound_nonces db' chain sender = {lo..<c}))"
proof -
  have "dense db" using assms(1) by (simp add: dense_def bound_nonces_def nonce_tables_empty_def)
  then have inv: "nonce_inv db'" "floors_inert db'" "dense db'"
    using gap_free.along [OF assms(2)] empty_tables_inv [OF assms(1)] by auto
  have "\<exists>lo. bound_nonces db' chain sender = {lo..<c}"
    if ne: "bound_nonces db' chain sender \<noteq> {}" and c: "d_Candidate (scope_decision db' chain sender obs) = Some c" for chain sender obs c
  proof -
    let ?N = "bound_nonces db' chain sender"
    have bs: "scope_bindings db' chain sender \<noteq> []" using ne bound_nonces_Nil [OF inv(1)] by blast
    note b = bound_nonces_base [OF inv(1) bs] and cb = inert_candidate [OF inv(1,2) bs c]
    have fin: "finite ?N" by (rule finite_subset [of _ "(\<lambda>b. the (b_Nonce b)) ` set (binding_t db')"])
      (force simp: bound_nonces_def)+
    have "{Min ?N..c - 1} \<subseteq> ?N"
      using inv(3) b(1) Min_in [OF fin ne] unfolding dense_def cb by blast
    moreover have "?N \<subseteq> {Min ?N..<c}" using fin b(2) cb by auto
    moreover have "{Min ?N..c - 1} = {Min ?N..<c}" by auto
    ultimately show ?thesis by blast
  qed
  with inv(3) show ?thesis by blast
qed

text \<open>A fresh installation: the operator registers the sender, the authorization arrives, the first withdrawal is
  admitted.\<close>

definition demo_start :: nonce_db where
  "demo_start = demo_db\<lparr>registry_t := []\<rparr>"

definition demo_ready :: "admin_audit list \<Rightarrow> nonce_db" where
  "demo_ready audits = demo_db\<lparr>registry_t := [\<lparr>r_ChainID = 1, r_Sender = demo_sender, r_State = RegistryActive,
     r_RegistrySeq = 1, r_CreatedAt = 7, r_UpdatedAt = 7\<rparr>], audit_t := audits\<rparr>"

lemma demo_start_empty: "nonce_tables_empty demo_start"
  by (simp add: nonce_tables_empty_def demo_start_def demo_db_def)

lemma demo_register:
  obtains db' where "nonce_step demo_start (Operation (demo_admin AdminActionRegistryRegister) (Some (demo_obs 0 0))) db'"
    "same_tables db' (demo_ready (audit_t db'))"
proof -
  let ?req = "demo_admin AdminActionRegistryRegister"
  have inv: "nonce_inv demo_start" using empty_tables_inv [OF demo_start_empty] by blast
  have "AdminRequest_Validate ?req = Inr ()" by code_simp
  then have ready: "admin_ready demo_env demo_start ?req (demo_obs 0 0)"
    using inv demo_sampled [of 0 0]
    by (simp add: admin_ready_def healthy_def fresh_mint_def demo_start_def demo_db_def demo_env_def demo_admin_def)
  have new: "\<not> has_row (\<lambda>a. au_OperationID a = q_OperationID ?req) (audit_t demo_start)"
    by (simp add: demo_start_def demo_db_def has_row_def)
  have spec: "admin_spec demo_start ?req (demo_obs 0 0) = AdminApplied"
    by (simp add: admin_spec_def registry_spec_def demo_admin_def demo_start_def has_row_def)
  obtain db' r where run: "Run demo_env demo_start ?req (Some (demo_obs 0 0)) demo_env demo_start = (db', Inr r)"
    "ad_Outcome r = AdminApplied" "map au_Outcome (audit_t db') = [AdminApplied]"
    using Run_total [OF ready new, of demo_env demo_start] spec by (auto simp: demo_start_def demo_db_def)
  from run(1) inv have "same_tables db' (demo_ready (audit_t db'))"
  proof (cases rule: Run_durable)
    case unchanged
    then show ?thesis using run(3) by (simp add: demo_start_def demo_db_def)
  next
    case (durable db1 out)
    then have "ot_Outcome out = AdminApplied" using run by (auto simp: demo_env_def)
    with durable(5) have "registry_changed demo_env demo_start ?req db1"
      by (simp add: admin_applied_def demo_admin_def)
    with durable(3) show ?thesis
      by (simp add: registry_changed_def same_tables_def demo_ready_def demo_start_def demo_db_def registered_def has_row_def
          demo_admin_def demo_env_def)
  qed
  with nonce_step.operation [OF run(1)] that show thesis by blast
qed

lemma demo_ready_spec: "allocate_spec demo_env (demo_ready audits) demo_req (demo_obs 0 0) = OutcomeAllocated"
  by (simp add: allocate_spec_def admission_refusal_def demo_ready_def demo_db_def demo_req_def demo_env_def gate_of_def
      GateState_Any_def AdmissionRefusal_def has_row_def grant_valid_def scope_decision_def scope_classify_def
      scope_bindings_def demo_obs_def Classify_cases MaxBoundNonce_def scopeLastPending_def scopeFloor_def)

lemma demo_first_issued:
  obtains evs db' where "nonce_trace demo_start evs db'" "bound_nonces db' 1 demo_sender \<noteq> {}"
proof -
  obtain db1 where reg: "nonce_step demo_start (Operation (demo_admin AdminActionRegistryRegister) (Some (demo_obs 0 0))) db1"
    "same_tables db1 (demo_ready (audit_t db1))" by (rule demo_register)
  let ?db = "demo_ready (audit_t db1)"
  have inv: "nonce_inv ?db"
    using nonce_step_keeps [OF reg(1)] empty_tables_inv [OF demo_start_empty] same_tables_inv [OF reg(2)] by blast
  obtain db' rep calls where run: "Allocate demo_gate demo_env ?db demo_req (demo_obs 0 0) demo_env ?db = (db', rep, calls)"
    by (metis prod.collapse)
  have "healthy demo_env ?db" by (simp add: healthy_def fresh_mint_def demo_env_def demo_ready_def demo_db_def)
  then have out: "rp_outcome rep = OutcomeAllocated"
    using Allocate_healthy [OF run inv _ demo_valid demo_gate_open] demo_sampled [of 0 0] demo_ready_spec
    by (simp add: demo_req_def)
  with Allocate_effect [OF run inv] obtain b where b: "rp_binding rep = Some b" "bound_by demo_env demo_req (demo_obs 0 0) ?db db' b"
    by blast
  have "nonce_trace demo_start [Operation (demo_admin AdminActionRegistryRegister) (Some (demo_obs 0 0)), Elsewhere,
      Admission demo_req rep] db'"
    using reg nonce_step.elsewhere [OF reg(2)] nonce_step.admission [OF run] by auto
  moreover have "bound_nonces db' 1 demo_sender \<noteq> {}"
    using b(2) by (auto simp: bound_by_def bound_nonces_def in_binding_scope_def inserted_identity demo_req_def)
  ultimately show thesis by (rule that)
qed

theorem reachable_nonces_gap_free_witness:
  "\<exists>evs db'. nonce_trace demo_start evs db' \<and> bound_nonces db' 1 demo_sender \<noteq> {} \<and> dense db'"
  using demo_first_issued reachable_nonces_gap_free [OF demo_start_empty] by metis

section \<open>Holds nobody can release\<close>

lemma held_bindings:
  assumes step: "nonce_step db ev db'" and inv: "nonce_inv db" and h: "h \<in> set (hold_t db)" "active_hold h"
  shows "bound_nonces db' (h_ChainID h) (h_Sender h) = bound_nonces db (h_ChainID h) (h_Sender h)"
  using step_bindings [OF step inv]
proof (elim disjE exE conjE)
  assume "map binding_identity (binding_t db') = map binding_identity (binding_t db)"
  from bound_nonces_identity [OF this] show ?thesis by simp
next
  fix e req obs b assume bb: "bound_by e req obs db db' b" "allocate_spec e db req obs = OutcomeAllocated"
  with held_refuses [OF h] have "\<not> in_binding_scope (h_ChainID h) (h_Sender h) (inserted_binding e b)"
    by (auto simp: bound_by_def in_binding_scope_def inserted_identity)
  with bb(1) show ?thesis by (auto simp: bound_by_def bound_nonces_def)
qed

lemma scope_base_bound:
  assumes inv: "nonce_inv db" "nonce_inv db'" and same: "bound_nonces db' chain sender = bound_nonces db chain sender"
  shows "scope_base db' chain sender = scope_base db chain sender"
proof (cases "bound_nonces db chain sender = {}")
  case True
  then have "scope_bindings db chain sender = []" "scope_bindings db' chain sender = []"
    using bound_nonces_Nil inv same by metis+
  then show ?thesis by (simp add: scope_base_def MaxBoundNonce_def)
next
  case False
  then have bs: "scope_bindings db chain sender \<noteq> []" "scope_bindings db' chain sender \<noteq> []"
    using bound_nonces_Nil inv same by metis+
  note b = bound_nonces_base [OF inv(1) bs(1)] and b' = bound_nonces_base [OF inv(2) bs(2)]
  have "scope_base db' chain sender - 1 < scope_base db chain sender" using b(2) b'(1) same by simp
  moreover have "scope_base db chain sender - 1 < scope_base db' chain sender" using b'(2) b(1) same by simp
  ultimately show ?thesis by simp
qed

text \<open>Every attempt to release the hold sees a pending count above a bound.\<close>

definition release_sees_above :: "scope_hold \<Rightarrow> int \<Rightarrow> nonce_event \<Rightarrow> bool" where
  "release_sees_above h B ev \<longleftrightarrow>
     (\<forall>req obs p. ev = Operation req (Some obs) \<longrightarrow> q_Action req = AdminActionHoldRelease \<longrightarrow> q_HoldID req = h_HoldID h \<longrightarrow>
        o_PendingCount obs = Some p \<longrightarrow> B < p)"

lemma release_pending:
  assumes "releases db ev h" "nonce_step db ev db'" "nonce_inv db" "floors_inert db" "release_sees_above h (scope_base db (h_ChainID h) (h_Sender h)) ev"
  shows False
proof -
  from assms(1) obtain req obs where r: "ev = Operation req (Some obs)" "q_Action req = AdminActionHoldRelease"
    "q_HoldID req = h_HoldID h" "q_ChainID req = h_ChainID h" "q_Sender req = h_Sender h"
    and con: "d_Classification (scope_decision db (h_ChainID h) (h_Sender h) obs) = ClassificationConsistent"
    by (auto simp: releases_def hold_release_evidence_def)
  obtain p where p: "o_PendingCount obs = Some p"
    using con by (cases "o_PendingCount obs")
      (auto simp: scope_decision_def scope_classify_def Classify_def refused_as_def split: bool.splits option.splits)
  with consistent_below [OF assms(3,4) p con] assms(5) r show False by (force simp: release_sees_above_def)
qed

interpretation stuck_scope: kept_along nonce_step nonce_trace
  "\<lambda>db. nonce_inv db \<and> floors_inert db \<and> h \<in> set (hold_t db) \<and> active_hold h \<and> scope_base db (h_ChainID h) (h_Sender h) = B"
  "\<lambda>_ _. True" "release_sees_above h B" for h B
proof unfold_locales
  fix db ev db'
  assume I: "nonce_inv db \<and> floors_inert db \<and> h \<in> set (hold_t db) \<and> active_hold h \<and> scope_base db (h_ChainID h) (h_Sender h) = B"
    and step: "nonce_step db ev db'" and ok: "release_sees_above h B ev"
  have inv': "nonce_inv db'" using nonce_step_keeps [OF step] I by blast
  have "h \<in> set (hold_t db')" using hold_step [OF step] release_pending [OF _ step] I ok by blast
  moreover have "scope_base db' (h_ChainID h) (h_Sender h) = B"
    using scope_base_bound [OF _ inv' held_bindings [OF step]] I by blast
  ultimately show "nonce_inv db' \<and> floors_inert db' \<and> h \<in> set (hold_t db') \<and> active_hold h \<and> scope_base db' (h_ChainID h) (h_Sender h) = B"
    using inv' floors_inert_step [OF step] I by blast
qed auto

text \<open>C29: a scope whose nonces were consumed outside stays held for good. Let a state be reached from the empty tables
  and let a scope carry an active hold. As long as every chain view an operator's release takes shows a pending
  count above the next nonce of the bindings, which is what consumption outside the manager leaves on the chain for ever,
  no release takes effect, whatever evidence it names: the hold stays active and the scope's next nonce stays where it
  was. The reconciled floor cannot lift it, because it never rises above that nonce.\<close>

theorem consumed_scope_stays_held:
  assumes start: "nonce_tables_empty db0" "nonce_trace db0 evs0 db" and h: "h \<in> set (hold_t db)" "active_hold h"
    and tr: "nonce_trace db evs db'" and above: "\<forall>ev \<in> set evs. release_sees_above h (scope_base db (h_ChainID h) (h_Sender h)) ev"
  shows "h \<in> set (hold_t db') \<and> scope_base db' (h_ChainID h) (h_Sender h) = scope_base db (h_ChainID h) (h_Sender h) \<and>
    (\<forall>s \<in> set (scope_t db'). \<forall>f. s_ReconciledFloor s = Some f \<longrightarrow> f \<le> scope_base db' (s_ChainID s) (s_Sender s))"
proof -
  have "nonce_inv db \<and> floors_inert db" using inert_floors.along [OF start(2)] empty_tables_inv [OF start(1)] by blast
  then have "nonce_inv db' \<and> floors_inert db' \<and> h \<in> set (hold_t db') \<and> active_hold h \<and>
      scope_base db' (h_ChainID h) (h_Sender h) = scope_base db (h_ChainID h) (h_Sender h)"
    using stuck_scope.along [OF tr _ above] h by blast
  then show ?thesis unfolding floors_inert_def by blast
qed

lemma demo_diverged:
  obtains evs db h where "nonce_trace demo_start evs db" "h \<in> set (hold_t db)" "active_hold h" "scope_base db (h_ChainID h) (h_Sender h) = 0"
proof -
  obtain db1 where reg: "nonce_step demo_start (Operation (demo_admin AdminActionRegistryRegister) (Some (demo_obs 0 0))) db1"
    "same_tables db1 (demo_ready (audit_t db1))" by (rule demo_register)
  let ?db = "demo_ready (audit_t db1)"
  have inv: "nonce_inv ?db"
    using nonce_step_keeps [OF reg(1)] empty_tables_inv [OF demo_start_empty] same_tables_inv [OF reg(2)] by blast
  have "healthy demo_env ?db" by (simp add: healthy_def fresh_mint_def demo_env_def demo_ready_def demo_db_def)
  moreover have "registered ?db 1 demo_sender" by (simp add: registered_def demo_ready_def has_row_def)
  ultimately obtain db' where tx: "reconcileScopeInTx demo_env ?db 1 demo_sender (demo_obs 5 3) = Inr db'"
    using reconcileScopeInTx_total [OF _ inv] demo_sampled [of 5 3] by force
  then have run: "reconcileScope demo_env ?db 1 demo_sender (demo_obs 5 3) = (db', None)"
    by (simp add: reconcileScope_success demo_env_def)
  have dec: "d_HoldCause (scope_decision ?db 1 demo_sender (demo_obs 5 3)) = CauseChainViewDivergence"
    by (simp add: scope_decision_def scope_classify_def Classify_def demo_obs_def refused_as_def)
  note eff = reconcileScopeInTx_Inr [OF tx inv]
  with dec have "hold_present db' 1 demo_sender CauseChainViewDivergence" by (simp add: reconcile_effect_def)
  then obtain h where h: "h \<in> set (hold_t db')" "active_hold h" "h_ChainID h = 1" "h_Sender h = demo_sender"
    by (auto simp: hold_present_def has_row_iff hold_slot_def)
  have "binding_t db' = []" using eff by (simp add: reconcile_effect_def demo_ready_def demo_db_def)
  then have "scope_base db' 1 demo_sender = 0" by (simp add: scope_base_def scope_bindings_def MaxBoundNonce_def)
  moreover have "nonce_trace demo_start [Operation (demo_admin AdminActionRegistryRegister) (Some (demo_obs 0 0)), Elsewhere,
      Tick 1 demo_sender] db'"
    using reg nonce_step.elsewhere [OF reg(2)] nonce_step.ticked [OF run] by auto
  ultimately show thesis using that h by metis
qed

theorem consumed_scope_stays_held_witness:
  "\<exists>evs db h req db'. nonce_trace demo_start evs db \<and> active_hold h \<and> q_HoldID req = h_HoldID h \<and> q_Action req = AdminActionHoldRelease \<and>
     nonce_trace db [Operation req (Some (demo_obs 9 9))] db' \<and> h \<in> set (hold_t db')"
proof -
  obtain evs db h where d: "nonce_trace demo_start evs db" "h \<in> set (hold_t db)" "active_hold h"
    "scope_base db (h_ChainID h) (h_Sender h) = 0" by (rule demo_diverged)
  let ?req = "(demo_admin AdminActionHoldRelease)\<lparr>q_HoldID := h_HoldID h\<rparr>"
  obtain db' res where "Run demo_env db ?req (Some (demo_obs 9 9)) demo_env db = (db', res)" by (rule prod.exhaust)
  then have tr: "nonce_trace db [Operation ?req (Some (demo_obs 9 9))] db'" by (auto intro: nonce_step.operation)
  have "h \<in> set (hold_t db')"
    using consumed_scope_stays_held [OF demo_start_empty d(1-3) tr] d(4) by (simp add: release_sees_above_def demo_obs_def)
  with d tr show ?thesis by (intro exI [of _ evs] exI [of _ db] exI [of _ h] exI [of _ ?req] exI [of _ db']) (auto simp: demo_admin_def)
qed

end
