(* ===== verification/GoStrings.thy ===== *)
theory GoStrings
  imports NonceNumeric "HOL-Library.List_Lexorder" "HOL-Library.Char_ord"
begin

text \<open>
  The functions of Go's \<^verbatim>\<open>strings\<close>, \<^verbatim>\<open>strconv\<close> and \<^verbatim>\<open>sort\<close> packages that the configuration and
  withdrawal code calls, on byte strings, with the round trips their clients rely on: splitting
  inverts joining, cutting inverts concatenation at the first separator, and the canonical decimal
  text of a number is the only digit string without a leading zero that has its value.
\<close>

section \<open>strings\<close>

text \<open>\<^verbatim>\<open>strings.TrimSpace\<close> removes the Unicode white space: the six ASCII characters and the UTF-8
  encodings of U+0085, U+00A0, U+1680, U+2000 to U+200A, U+2028, U+2029, U+202F, U+205F and U+3000.
  A byte that starts no such encoding is kept.\<close>

definition space_runes :: "string list" where
  "space_runes = map (map char_of) ([[9], [10], [11], [12], [13], [32], [0xC2, 0x85], [0xC2, 0xA0],
     [0xE1, 0x9A, 0x80], [0xE2, 0x80, 0x80], [0xE2, 0x80, 0x81], [0xE2, 0x80, 0x82],
     [0xE2, 0x80, 0x83], [0xE2, 0x80, 0x84], [0xE2, 0x80, 0x85], [0xE2, 0x80, 0x86],
     [0xE2, 0x80, 0x87], [0xE2, 0x80, 0x88], [0xE2, 0x80, 0x89], [0xE2, 0x80, 0x8A],
     [0xE2, 0x80, 0xA8], [0xE2, 0x80, 0xA9], [0xE2, 0x80, 0xAF], [0xE2, 0x81, 0x9F],
     [0xE3, 0x80, 0x80]] :: nat list list)"

lemma drop_prefix_shorter: "p \<noteq> [] \<Longrightarrow> has_prefix s p \<Longrightarrow> length (drop (length p) s) < length s"
  by (cases s) (auto simp: has_prefix_def)

function trim_prefixes :: "string list \<Rightarrow> string \<Rightarrow> string" where
  "trim_prefixes ps s = (case find (\<lambda>p. p \<noteq> [] \<and> has_prefix s p) ps of
     None \<Rightarrow> s | Some p \<Rightarrow> trim_prefixes ps (drop (length p) s))"
  by pat_completeness auto
termination
  by (relation "measure (\<lambda>(ps, s). length s)")
     (simp_all add: find_Some_iff, metis drop_prefix_shorter length_drop)

declare trim_prefixes.simps [simp del]

definition TrimSpace :: "string \<Rightarrow> string" where
  "TrimSpace s = rev (trim_prefixes (map rev space_runes) (rev (trim_prefixes space_runes s)))"

text \<open>\<^verbatim>\<open>strings.Split\<close> and \<^verbatim>\<open>strings.Cut\<close> with a one-byte separator, \<^verbatim>\<open>strings.Join\<close>.\<close>

fun Split :: "char \<Rightarrow> string \<Rightarrow> string list" where
  "Split c [] = [[]]"
| "Split c (x # xs) = (if x = c then [] # Split c xs
     else case Split c xs of [] \<Rightarrow> [[x]] | w # ws \<Rightarrow> (x # w) # ws)"

definition Cut :: "char \<Rightarrow> string \<Rightarrow> string \<times> string \<times> bool" where
  "Cut c s = (takeWhile (\<lambda>x. x \<noteq> c) s, tl (dropWhile (\<lambda>x. x \<noteq> c) s), c \<in> set s)"

fun Join :: "char \<Rightarrow> string list \<Rightarrow> string" where
  "Join c [] = []"
| "Join c [x] = x"
| "Join c (x # y # ys) = x @ c # Join c (y # ys)"

text \<open>\<^verbatim>\<open>strings.ToLower\<close> on ASCII text. Its callers pass strings that matched a hex pattern.\<close>

definition to_lower :: "char \<Rightarrow> char" where
  "to_lower c = (if 65 \<le> byte c \<and> byte c \<le> 90 then char_of (byte c + 32) else c)"

definition ToLower :: "string \<Rightarrow> string" where
  "ToLower s = map to_lower s"

text \<open>\<^verbatim>\<open>strconv.ParseUint(s, 10, bits)\<close>: one or more digits, no sign and no underscore, in range.\<close>

definition parse_uint :: "nat \<Rightarrow> string \<Rightarrow> nat option" where
  "parse_uint bits s =
     (if s \<noteq> [] \<and> list_all is_dec s \<and> num_val 10 s < 2 ^ bits then Some (num_val 10 s) else None)"

section \<open>Splitting and joining\<close>

lemma Split_nonempty [simp]: "Split c s \<noteq> []"
  by (cases s) (simp_all split: list.split)

lemma Split_no_sep: "c \<notin> set s \<Longrightarrow> Split c s = [s]"
  by (induction s) auto

lemma Split_append_sep: "c \<notin> set x \<Longrightarrow> Split c (x @ c # s) = x # Split c s"
  by (induction x) auto

lemma Split_Join:
  "xs \<noteq> [] \<Longrightarrow> \<forall>x \<in> set xs. c \<notin> set x \<Longrightarrow> Split c (Join c xs) = xs"
  by (induction c xs rule: Join.induct) (auto simp: Split_no_sep Split_append_sep)

lemma Join_Split: "Join c (Split c s) = s"
proof (induction s)
  case (Cons x xs)
  obtain y ys where "Split c xs = y # ys" by (cases "Split c xs") auto
  with Cons show ?case by (cases ys) auto
qed simp

lemma set_Join: "set (Join c xs) \<subseteq> insert c (\<Union> (set ` set xs))"
  by (induction c xs rule: Join.induct) auto

lemma set_subset_Join: "x \<in> set xs \<Longrightarrow> set x \<subseteq> set (Join c xs)"
  by (induction c xs rule: Join.induct) auto

lemma Cut_at: "c \<notin> set x \<Longrightarrow> Cut c (x @ c # y) = (x, y, True)"
  by (auto simp: Cut_def takeWhile_append2 dropWhile_append)

section \<open>Case\<close>

lemma byte_to_lower: "byte (to_lower c) = (if 65 \<le> byte c \<and> byte c \<le> 90 then byte c + 32 else byte c)"
  by (simp add: to_lower_def)

lemma to_lower_idem [simp]: "to_lower (to_lower c) = to_lower c"
  by (simp add: to_lower_def)

lemma ToLower_idem [simp]: "ToLower (ToLower s) = ToLower s"
  by (simp add: ToLower_def)

lemma length_ToLower [simp]: "length (ToLower s) = length s"
  by (simp add: ToLower_def)

lemma ToLower_append [simp]: "ToLower (s @ t) = ToLower s @ ToLower t"
  by (simp add: ToLower_def)

lemma ToLower_Nil [simp]: "ToLower [] = []"
  by (simp add: ToLower_def)

lemma ToLower_Cons: "ToLower (c # s) = to_lower c # ToLower s"
  by (simp add: ToLower_def)

lemma drop_ToLower: "drop n (ToLower s) = ToLower (drop n s)"
  by (simp add: ToLower_def drop_map)

lemma to_lower_hex: "is_hex c \<Longrightarrow> is_lower_hex (to_lower c)"
  by (auto simp: is_hex_def is_lower_hex_def is_dec_def byte_to_lower)

lemma ToLower_hex: "list_all is_hex s \<Longrightarrow> list_all is_lower_hex (ToLower s)"
  by (auto simp: list_all_iff ToLower_def to_lower_hex)

lemma is_lower_hex_hex: "is_lower_hex c \<Longrightarrow> is_hex c"
  by (auto simp: is_hex_def is_lower_hex_def)

lemma to_lower_lower_hex: "is_lower_hex c \<Longrightarrow> to_lower c = c"
  by (auto simp: is_lower_hex_def is_dec_def to_lower_def)

lemma ToLower_lower_hex: "list_all is_lower_hex s \<Longrightarrow> ToLower s = s"
  by (induction s) (auto simp: ToLower_Cons to_lower_lower_hex)

section \<open>Decimal text\<close>

text \<open>The digits of a base-ten text without a leading zero are determined by its value.\<close>

lemma digit_char_val: "is_dec c \<Longrightarrow> digit_char (digit_val c) = c"
  by (auto simp: is_dec_def digit_char_def digit_val_def)

lemma digit_val_dec: "is_dec c \<Longrightarrow> digit_val c < 10"
  by (auto simp: is_dec_def digit_val_def)

lemma digit_val_zero: "is_dec c \<Longrightarrow> digit_val c = 0 \<longleftrightarrow> c = CHR ''0''"
proof
  assume "is_dec c" "digit_val c = 0"
  then have "byte c = byte (CHR ''0'')" by (simp add: digit_val_def is_dec_def)
  then show "c = CHR ''0''" by (simp only: of_char_eq_iff)
qed (simp add: digit_val_def is_dec_def)

lemma num_val_pos:
  "s \<noteq> [] \<Longrightarrow> list_all is_dec s \<Longrightarrow> hd s \<noteq> CHR ''0'' \<Longrightarrow> 0 < num_val 10 s"
proof (induction s rule: rev_induct)
  case (snoc c s)
  show ?case
  proof (cases "s = []")
    case True
    with snoc.prems have "digit_val c \<noteq> 0" by (simp add: digit_val_zero)
    with True show ?thesis by (simp add: num_val_def)
  next
    case False
    with snoc show ?thesis by (simp add: num_val_snoc)
  qed
qed simp

lemma num_text_val:
  "s \<noteq> [] \<Longrightarrow> list_all is_dec s \<Longrightarrow> hd s \<noteq> CHR ''0'' \<Longrightarrow> num_text 10 (num_val 10 s) = s"
proof (induction s rule: rev_induct)
  case (snoc c s)
  have c: "digit_val c < 10" using snoc.prems by (simp add: digit_val_dec)
  show ?case
  proof (cases "s = []")
    case True
    with snoc.prems c show ?thesis
      by (subst num_text.simps) (simp add: num_val_def digit_char_val)
  next
    case False
    with snoc.prems have "0 < num_val 10 s" by (intro num_val_pos) auto
    moreover from False snoc have "num_text 10 (num_val 10 s) = s" by simp
    moreover have "(num_val 10 s * 10 + digit_val c) div 10 = num_val 10 s"
      and "(num_val 10 s * 10 + digit_val c) mod 10 = digit_val c"
      using c by simp_all
    ultimately have "num_text 10 (num_val 10 s * 10 + digit_val c) = s @ [digit_char (digit_val c)]"
      by (subst num_text.simps) simp
    with snoc.prems show ?thesis by (simp add: num_val_snoc digit_char_val)
  qed
qed simp

lemma digit_char_zero: "d < 10 \<Longrightarrow> digit_char d = CHR ''0'' \<longleftrightarrow> d = 0"
  using digit_val_char [of d] digit_val_zero [OF digit_char_is_dec, of d] by auto

lemma hd_num_text: "0 < n \<Longrightarrow> hd (num_text 10 n) \<noteq> CHR ''0''"
proof (induction n rule: less_induct)
  case (less n)
  show ?case
  proof (cases "n < 10")
    case True
    with less.prems show ?thesis by (subst num_text.simps) (simp add: digit_char_zero)
  next
    case False
    then have "hd (num_text 10 (n div 10)) \<noteq> CHR ''0''" by (intro less.IH) auto
    with False show ?thesis by (subst num_text.simps) simp
  qed
qed

lemma parse_uint_text: "n < 2 ^ bits \<Longrightarrow> parse_uint bits (num_text 10 n) = Some n"
  by (simp add: parse_uint_def num_text_dec num_val_text)

lemma parse_uint_bound: "parse_uint bits s = Some n \<Longrightarrow> n < 2 ^ bits"
  by (simp add: parse_uint_def split: if_splits)

lemma num_text_inj: "num_text 10 m = num_text 10 n \<longleftrightarrow> m = n"
proof
  assume "num_text 10 m = num_text 10 n"
  then have "num_val 10 (num_text 10 m) = num_val 10 (num_text 10 n)" by simp
  then show "m = n" by (simp add: num_val_text)
qed simp

end
