(* ===== verification/WithdrawalValidate.thy ===== *)
theory WithdrawalValidate
  imports GoStrings
begin

text \<open>
  Model of the request validators of \<^verbatim>\<open>internal/withdrawal\<close> (\<^verbatim>\<open>errors.go\<close>, \<^verbatim>\<open>validate.go\<close>,
  \<^verbatim>\<open>allowlist.go\<close>) and of the deposit policy encoding of \<^verbatim>\<open>internal/config/config.go\<close> that feeds the
  asset whitelist: \<^verbatim>\<open>parseDepositEntries\<close>, \<^verbatim>\<open>DepositSnapshot\<close> and \<^verbatim>\<open>NormalizeWhitelist\<close>. The lemmas
  give the exact domain of every validator, that the canonical forms are canonical, and that the
  whitelist read back from a stored policy snapshot is the configured one.

  The address functions of \<^verbatim>\<open>go-ethereum/common\<close> are parameters; \<open>geth_documented\<close> is what their
  documentation says of them.
\<close>

section \<open>errors.go\<close>

datatype wd_code = CodeMalformedRequest | CodeValidationFailed | CodeUnauthenticated
  | CodeUnauthorized | CodeAuthorizationInvalid | CodeIdempotencyConflict | CodeNotFound
  | CodeTemporarilyUnavailable | CodeOperationConflict

definition code_text :: "wd_code \<Rightarrow> string" where
  "code_text c = (case c of
     CodeMalformedRequest \<Rightarrow> ''malformed_request'' | CodeValidationFailed \<Rightarrow> ''validation_failed''
   | CodeUnauthenticated \<Rightarrow> ''unauthenticated'' | CodeUnauthorized \<Rightarrow> ''unauthorized''
   | CodeAuthorizationInvalid \<Rightarrow> ''authorization_invalid''
   | CodeIdempotencyConflict \<Rightarrow> ''idempotency_conflict'' | CodeNotFound \<Rightarrow> ''not_found''
   | CodeTemporarilyUnavailable \<Rightarrow> ''temporarily_unavailable''
   | CodeOperationConflict \<Rightarrow> ''operation_conflict'')"

text \<open>The wrapped cause is only ever inspected by \<^verbatim>\<open>errors.Is\<close> for logging; it is not kept.\<close>

record wd_error =
  we_Code :: wd_code
  we_Field :: string
  we_msg :: string

definition wd_New :: "wd_code \<Rightarrow> string \<Rightarrow> wd_error" where
  "wd_New code msg = \<lparr>we_Code = code, we_Field = [], we_msg = msg\<rparr>"

definition WithField :: "string \<Rightarrow> wd_error \<Rightarrow> wd_error" where
  "WithField field e = e\<lparr>we_Field := field\<rparr>"

definition wd_Error :: "wd_error \<Rightarrow> string" where
  "wd_Error e = ''['' @ code_text (we_Code e) @ ''] '' @ we_msg e @
     (if we_Field e \<noteq> [] then '' field='' @ we_Field e else [])"

section \<open>go-ethereum/common\<close>

text \<open>\<^verbatim>\<open>common.IsHexAddress(s)\<close> and \<^verbatim>\<open>common.HexToAddress(s).Hex()\<close>.\<close>

record geth =
  g_IsHexAddress :: "string \<Rightarrow> bool"
  g_Hex :: "string \<Rightarrow> string"

definition without_0x :: "string \<Rightarrow> string" where
  "without_0x s = (if take 2 s = ''0x'' \<or> take 2 s = ''0X'' then drop 2 s else s)"

definition hex_address :: "string \<Rightarrow> bool" where
  "hex_address s \<longleftrightarrow> length (without_0x s) = 40 \<and> list_all is_hex (without_0x s)"

text \<open>An optionally \<^verbatim>\<open>0x\<close>-prefixed string of forty hex digits is a hex address, and \<^verbatim>\<open>Hex\<close> spells the
  same twenty bytes with the prefix, in the letter case of its checksum.\<close>

definition geth_documented :: "geth \<Rightarrow> bool" where
  "geth_documented g \<longleftrightarrow>
     (\<forall>s. g_IsHexAddress g s \<longleftrightarrow> hex_address s) \<and>
     (\<forall>s. hex_address s \<longrightarrow> ToLower (g_Hex g s) = ''0x'' @ ToLower (without_0x s))"

section \<open>validate.go\<close>

definition maxUint256Dec :: string where
  "maxUint256Dec =
     ''115792089237316195423570985008687907853269984665640564039457584007913129639935''"

definition maxUint256 :: int where
  "maxUint256 = push_bit 256 1 - 1"

definition amountShape :: "string \<Rightarrow> bool" where
  "amountShape s \<longleftrightarrow> (case s of [] \<Rightarrow> False
     | c # cs \<Rightarrow> 49 \<le> byte c \<and> byte c \<le> 57 \<and> list_all is_dec cs)"

definition addressShape :: "string \<Rightarrow> bool" where
  "addressShape s \<longleftrightarrow> take 2 s = ''0x'' \<and> length s = 42 \<and> list_all is_hex (drop 2 s)"

definition ValidateChainID :: "int \<Rightarrow> int \<Rightarrow> wd_error + unit" where
  "ValidateChainID chainID expected =
     (if chainID \<le> 0 \<or> chainID \<noteq> expected then
        Inl (WithField ''chain_id'' (wd_New CodeValidationFailed
          (''chain_id '' @ int_text 10 chainID @ '' does not match this deployment's chain'')))
      else Inr ())"

definition ValidateAssetWhitelisted :: "string \<Rightarrow> string list \<Rightarrow> wd_error + unit" where
  "ValidateAssetWhitelisted asset allowlist =
     (if list_ex (\<lambda>a. a = asset) allowlist then Inr ()
      else Inl (WithField ''asset''
        (wd_New CodeValidationFailed ''asset is not in the configured whitelist'')))"

definition ValidateAmount :: "string \<Rightarrow> wd_error + int" where
  "ValidateAmount raw =
     (if \<not> amountShape raw then
        Inl (WithField ''amount'' (wd_New CodeValidationFailed
          ''amount must be a decimal string of the form [1-9][0-9]*''))
      else case big_set_string 10 raw of
        None \<Rightarrow> Inl (WithField ''amount''
          (wd_New CodeValidationFailed ''amount is not a base-10 integer''))
      | Some v \<Rightarrow>
          if v > maxUint256 then Inl (WithField ''amount''
            (wd_New CodeValidationFailed ''amount exceeds the uint256 maximum (2^256-1)''))
          else Inr v)"

definition CanonicalAddress :: "geth \<Rightarrow> string \<Rightarrow> wd_error + string" where
  "CanonicalAddress g raw =
     (if \<not> addressShape raw then
        Inl (WithField ''recipient'' (wd_New CodeValidationFailed
          ''address must be 0x followed by 40 hexadecimal characters''))
      else let hexPart = drop 2 raw;
               hasLower = list_ex (\<lambda>c. 97 \<le> byte c \<and> byte c \<le> 102) hexPart;
               hasUpper = list_ex (\<lambda>c. 65 \<le> byte c \<and> byte c \<le> 70) hexPart
        in if hasLower \<and> hasUpper \<and> raw \<noteq> g_Hex g raw then
             Inl (WithField ''recipient'' (wd_New CodeValidationFailed
               ''mixed-case address fails the EIP-55 checksum''))
           else Inr (ToLower raw))"

definition ValidateIdempotencyKey :: "string \<Rightarrow> wd_error + unit" where
  "ValidateIdempotencyKey raw =
     (if length raw < 1 \<or> length raw > 128 then
        Inl (WithField ''idempotency_key'' (wd_New CodeValidationFailed
          ''idempotency_key must be 1-128 bytes''))
      else if list_ex (\<lambda>c. byte c < 33 \<or> byte c > 126) raw then
        Inl (WithField ''idempotency_key'' (wd_New CodeValidationFailed
          ''idempotency_key must contain only visible ASCII (0x21-0x7E)''))
      else Inr ())"

text \<open>The errors of the policy source; each constructor carries what its message prints.\<close>

datatype policy_err = NoDepositConfig int | ReadDepositConfig int
  | BlankSnapshot | NotAddressEffective string

fun assetLines :: "geth \<Rightarrow> string list \<Rightarrow> string list \<Rightarrow> policy_err + string list" where
  "assetLines g [] out = Inr out"
| "assetLines g (ln # lns) out =
     (case Cut (CHR '':'') ln of (addr, _, ok) \<Rightarrow>
        if \<not> ok \<or> \<not> g_IsHexAddress g addr then Inl (NotAddressEffective ln)
        else let norm = ToLower addr in
          if norm \<in> set out then assetLines g lns out else assetLines g lns (out @ [norm]))"

definition parseAssetAllowlist :: "geth \<Rightarrow> string \<Rightarrow> policy_err + string list" where
  "parseAssetAllowlist g snapshot =
     (if TrimSpace snapshot = [] then Inl BlankSnapshot
      else rbind (assetLines g (Split (CHR 0x0A) snapshot) []) (\<lambda>out. Inr (sort out)))"

text \<open>The columns of \<^verbatim>\<open>deposit_config_history\<close> the query reads; the row with the greatest
  \<^verbatim>\<open>version_seq\<close> of the chain is the policy in force. \<open>reads\<close> tells whether the query succeeds.\<close>

record deposit_policy =
  dp_ChainID :: int
  dp_VersionSeq :: int
  dp_Assets :: string

fun newest_policy :: "int \<Rightarrow> deposit_policy list \<Rightarrow> deposit_policy option" where
  "newest_policy chainID [] = None"
| "newest_policy chainID (r # rs) =
     (if dp_ChainID r \<noteq> chainID then newest_policy chainID rs
      else case newest_policy chainID rs of
        None \<Rightarrow> Some r
      | Some r' \<Rightarrow> if dp_VersionSeq r' > dp_VersionSeq r then Some r' else Some r)"

definition ResolveAssetAllowlist ::
  "geth \<Rightarrow> bool \<Rightarrow> deposit_policy list \<Rightarrow> int \<Rightarrow> policy_err + string list" where
  "ResolveAssetAllowlist g reads history chainID =
     (if \<not> reads then Inl (ReadDepositConfig chainID)
      else case newest_policy chainID history of
        None \<Rightarrow> Inl (NoDepositConfig chainID)
      | Some r \<Rightarrow> parseAssetAllowlist g (dp_Assets r))"

section \<open>allowlist.go\<close>

definition EnvIssuerCallers :: string where
  "EnvIssuerCallers = ''TXHARBOR_AUTHZ_ISSUER_CALLERS''"

datatype issuer_err = NoEnvironmentGetter | NotCallerID string

text \<open>The mapping is the list of the permitted caller ids; the getter returns the value and whether the
  variable is set.\<close>

fun issuerEntries :: "string list \<Rightarrow> int list \<Rightarrow> issuer_err + int list" where
  "issuerEntries [] callers = Inr callers"
| "issuerEntries (e # es) callers =
     (let entry = TrimSpace e in
      if entry = [] then issuerEntries es callers
      else case parse_uint 63 entry of
        None \<Rightarrow> Inl (NotCallerID entry)
      | Some n \<Rightarrow> if n = 0 then Inl (NotCallerID entry) else issuerEntries es (List.insert (int n) callers))"

definition LoadIssuerAllowlist ::
  "(string \<Rightarrow> string \<times> bool) option \<Rightarrow> issuer_err + int list" where
  "LoadIssuerAllowlist getenv = (case getenv of
     None \<Rightarrow> Inl NoEnvironmentGetter
   | Some f \<Rightarrow> issuerEntries (Split (CHR '','') (fst (f EnvIssuerCallers))) [])"

definition PermitIssue :: "int list option \<Rightarrow> int \<Rightarrow> bool" where
  "PermitIssue a callerID = (case a of None \<Rightarrow> False | Some callers \<Rightarrow> callerID \<in> set callers)"

section \<open>config.go: address collections\<close>

datatype config_err = BlankAddressEntry | NotEvmAddress string | BadEffective string
  | EmptyAddressList

record deposit_entry =
  de_Address :: string
  de_Effective :: "64 word"

definition de_String :: "deposit_entry \<Rightarrow> string" where
  "de_String e = de_Address e @ CHR '':'' # num_text 10 (unat (de_Effective e))"

fun depositItems ::
  "geth \<Rightarrow> 64 word \<Rightarrow> string list \<Rightarrow> deposit_entry list \<Rightarrow> config_err + deposit_entry list" where
  "depositItems g defaultEffective [] out = Inr out"
| "depositItems g defaultEffective (part # ps) out =
     (let p = TrimSpace part in
      if p = [] then Inl BlankAddressEntry
      else case Cut (CHR '':'') p of (addr, effRaw, hasEff) \<Rightarrow>
        if \<not> g_IsHexAddress g addr then Inl (NotEvmAddress addr)
        else case (if hasEff then map_option word_of_nat (parse_uint 64 effRaw)
                   else Some defaultEffective) of
          None \<Rightarrow> Inl (BadEffective effRaw)
        | Some h \<Rightarrow>
            let e = \<lparr>de_Address = ToLower (g_Hex g addr), de_Effective = h\<rparr> in
            if de_String e \<in> de_String ` set out then depositItems g defaultEffective ps out
            else depositItems g defaultEffective ps (out @ [e]))"

definition parseDepositEntries ::
  "geth \<Rightarrow> string \<Rightarrow> 64 word \<Rightarrow> config_err + deposit_entry list" where
  "parseDepositEntries g raw defaultEffective =
     rbind (depositItems g defaultEffective (Split (CHR '','') raw) []) (\<lambda>out.
       if out = [] then Inl EmptyAddressList else Inr (sort_key de_String out))"

definition DepositSnapshot :: "deposit_entry list \<Rightarrow> string" where
  "DepositSnapshot entries = Join (CHR 0x0A) (sort (map de_String entries))"

definition depositConfigVersion :: string where
  "depositConfigVersion = ''deposit:v1''"

definition depositIdentityInput :: "64 word \<Rightarrow> string list \<Rightarrow> string" where
  "depositIdentityInput start lines =
     depositConfigVersion @ CHR 0x0A # ''start:'' @ num_text 10 (unat start) @
     CHR 0x0A # Join (CHR 0x0A) lines"

definition depositIdentity ::
  "64 word \<Rightarrow> deposit_entry list \<Rightarrow> deposit_entry list \<Rightarrow> string" where
  "depositIdentity start contracts watches =
     hex_encode (sha256 (str_bytes (depositIdentityInput start
       (map (\<lambda>e. ''asset:'' @ de_String e) contracts @
        map (\<lambda>e. ''watch:'' @ de_String e) watches))))"

definition logConfigVersion :: string where
  "logConfigVersion = ''erc20-transfer:v1''"

fun whitelistItems :: "geth \<Rightarrow> string list \<Rightarrow> string list \<Rightarrow> config_err + string list" where
  "whitelistItems g [] out = Inr out"
| "whitelistItems g (part # ps) out =
     (let p = TrimSpace part in
      if p = [] then Inl BlankAddressEntry
      else if \<not> g_IsHexAddress g p then Inl (NotEvmAddress p)
      else let norm = ToLower p in
        if norm \<in> set out then whitelistItems g ps out
        else whitelistItems g ps (out @ [norm]))"

definition NormalizeWhitelist :: "geth \<Rightarrow> string \<Rightarrow> config_err + string list \<times> string" where
  "NormalizeWhitelist g raw =
     rbind (whitelistItems g (Split (CHR '','') raw) []) (\<lambda>out.
       if out = [] then Inl EmptyAddressList
       else Inr (sort out, hex_encode (sha256 (str_bytes
         (logConfigVersion @ CHR 0x0A # Join (CHR 0x0A) (sort out))))))"

section \<open>Amounts\<close>

lemma maxUint256_eq: "maxUint256 = 2 ^ 256 - 1"
  by (simp add: maxUint256_def push_bit_eq_mult)

lemma maxUint256Dec_value: "num_val 10 maxUint256Dec = nat maxUint256"
  by (simp add: maxUint256Dec_def maxUint256_eq num_val_def digit_val_def is_dec_def)

lemma amountShape_iff: "amountShape s \<longleftrightarrow> s \<noteq> [] \<and> list_all is_dec s \<and> hd s \<noteq> CHR ''0''"
proof (cases s)
  case (Cons c cs)
  have "49 \<le> byte c \<and> byte c \<le> 57 \<longleftrightarrow> is_dec c \<and> c \<noteq> CHR ''0''"
  proof -
    have "c = CHR ''0'' \<longleftrightarrow> byte c = byte (CHR ''0'')" by (simp only: of_char_eq_iff)
    then show ?thesis by (auto simp: is_dec_def)
  qed
  with Cons show ?thesis by (auto simp: amountShape_def)
qed (simp add: amountShape_def)

lemma big_set_string_dec:
  "s \<noteq> [] \<Longrightarrow> list_all is_dec s \<Longrightarrow> big_set_string 10 s = Some (int (num_val 10 s))"
  by (intro big_set_string_unsigned) (auto simp: list_all_iff intro: is_dec_hex is_dec_base_digit)

lemma int_text_pos: "0 \<le> v \<Longrightarrow> int_text 10 v = num_text 10 (nat v)"
  by (simp add: int_text_def)

lemma amountShape_int_text: "1 \<le> v \<Longrightarrow> amountShape (int_text 10 v)"
  by (simp add: amountShape_iff int_text_pos num_text_dec hd_num_text)

lemma amountShape_text:
  assumes "amountShape raw"
  shows "big_set_string 10 raw = Some (int (num_val 10 raw))" and "0 < num_val 10 raw"
    and "raw = num_text 10 (num_val 10 raw)"
  using assms by (auto simp: amountShape_iff big_set_string_dec num_val_pos num_text_val)

lemma ValidateAmount_text:
  assumes "ValidateAmount raw = Inr v"
  shows "1 \<le> v" "v \<le> 2 ^ 256 - 1" "raw = int_text 10 v"
proof -
  from assms have shape: "amountShape raw" by (simp add: ValidateAmount_def split: if_splits)
  note facts = amountShape_text [OF shape]
  from assms shape facts(1) have v: "v = int (num_val 10 raw)" and "v \<le> maxUint256"
    by (auto simp: ValidateAmount_def split: if_splits)
  with facts(2,3) show "1 \<le> v" "v \<le> 2 ^ 256 - 1" "raw = int_text 10 v"
    by (simp_all add: int_text_pos maxUint256_eq)
qed

text \<open>C38: \<open>ValidateAmount\<close> accepts exactly the canonical decimal texts of the integers from 1 to
  2^256-1 and returns that integer, so an accepted amount has one spelling: comparing stored texts is
  comparing values, and no digit string is rounded, wrapped or trimmed.\<close>

theorem ValidateAmount_exact:
  "ValidateAmount raw = Inr v \<longleftrightarrow> 1 \<le> v \<and> v \<le> 2 ^ 256 - 1 \<and> raw = int_text 10 v"
proof
  assume "ValidateAmount raw = Inr v"
  then show "1 \<le> v \<and> v \<le> 2 ^ 256 - 1 \<and> raw = int_text 10 v" by (blast dest: ValidateAmount_text)
next
  assume r: "1 \<le> v \<and> v \<le> 2 ^ 256 - 1 \<and> raw = int_text 10 v"
  then have shape: "amountShape raw" by (simp add: amountShape_int_text)
  have "num_val 10 raw = nat v" using r by (simp add: int_text_pos num_val_text)
  with r shape amountShape_text(1) [OF shape] show "ValidateAmount raw = Inr v"
    by (simp add: ValidateAmount_def maxUint256_eq)
qed

section \<open>Addresses\<close>

lemma digit_val_to_lower: "is_hex c \<Longrightarrow> digit_val (to_lower c) = digit_val c"
  by (auto simp: is_hex_def digit_val_def byte_to_lower is_dec_def)

lemma num_val_ToLower: "list_all is_hex s \<Longrightarrow> num_val b (ToLower s) = num_val b s"
proof (induction s rule: rev_induct)
  case (snoc c s)
  then show ?case by (simp add: num_val_snoc ToLower_Cons digit_val_to_lower)
qed simp

lemma digit_val_lower_inj:
  assumes "is_lower_hex c" "is_lower_hex d" "digit_val c = digit_val d"
  shows "c = d"
proof -
  have "byte c = byte d"
    using assms by (auto simp: is_lower_hex_def digit_val_def is_dec_def simp del: of_char_eq_iff
        split: if_splits)
  then show ?thesis by (simp only: of_char_eq_iff)
qed

lemma digit_val_lower_bound: "is_lower_hex c \<Longrightarrow> digit_val c < 16"
  by (auto simp: is_lower_hex_def digit_val_def is_dec_def)

lemma digit_split:
  fixes b :: nat
  assumes "x * b + c = y * b + d" and "c < b" and "d < b"
  shows "x = y" and "c = d"
proof -
  have "(x * b + c) div b = (y * b + d) div b" and "(x * b + c) mod b = (y * b + d) mod b"
    by (simp_all only: assms(1))
  with assms(2,3) show "x = y" and "c = d" by simp_all
qed

lemma num_val_lower_inj:
  "length s = length t \<Longrightarrow> list_all is_lower_hex s \<Longrightarrow> list_all is_lower_hex t \<Longrightarrow>
   num_val 16 s = num_val 16 t \<Longrightarrow> s = t"
proof (induction s arbitrary: t rule: rev_induct)
  case (snoc c s)
  from snoc.prems(1) obtain d t' where t: "t = t' @ [d]" by (cases t rule: rev_cases) auto
  from snoc.prems t have eq: "num_val 16 s * 16 + digit_val c = num_val 16 t' * 16 + digit_val d"
    by (simp add: num_val_snoc)
  from snoc.prems t have b: "digit_val c < 16" "digit_val d < 16" by (simp_all add: digit_val_lower_bound)
  note v = digit_split(1) [OF eq b] and digit_split(2) [OF eq b]
  then have "c = d" using snoc.prems t by (intro digit_val_lower_inj) simp_all
  moreover from v snoc.prems t have "s = t'" by (intro snoc.IH) simp_all
  ultimately show ?case using t by simp
qed simp

lemma addressShape_split:
  assumes "addressShape a"
  obtains ds where "a = ''0x'' @ ds" "length ds = 40" "list_all is_hex ds"
proof
  show "a = ''0x'' @ drop 2 a"
    using assms append_take_drop_id [of 2 a] by (simp add: addressShape_def)
qed (use assms in \<open>simp_all add: addressShape_def\<close>)

lemma addressShape_ToLower: "addressShape a \<Longrightarrow> matches_lower_hex 40 (ToLower a)"
  by (erule addressShape_split)
     (simp add: matches_lower_hex_def ToLower_hex ToLower_Cons to_lower_def)

lemma CanonicalAddress_Inr:
  "CanonicalAddress g a = Inr c \<Longrightarrow> addressShape a \<and> c = ToLower a"
  by (auto simp: CanonicalAddress_def Let_def split: if_splits)

lemma matches_lower_hex_shape: "matches_lower_hex 40 c \<Longrightarrow> addressShape c"
  by (auto simp: matches_lower_hex_def addressShape_def list_all_iff intro: is_lower_hex_hex)

lemma lower_hex_no_upper: "list_all is_lower_hex s \<Longrightarrow> \<not> list_ex (\<lambda>c. 65 \<le> byte c \<and> byte c \<le> 70) s"
  by (auto simp: list_all_iff list_ex_iff is_lower_hex_def is_dec_def)

lemma CanonicalAddress_lower:
  assumes "matches_lower_hex 40 c"
  shows "CanonicalAddress g c = Inr c"
proof -
  have "\<not> list_ex (\<lambda>c. 65 \<le> byte c \<and> byte c \<le> 70) (drop 2 c)"
    using assms by (intro lower_hex_no_upper) (simp add: matches_lower_hex_def)
  moreover have "ToLower c = c"
    using assms matches_lower_hex_shape [OF assms]
    by (elim addressShape_split) (simp add: matches_lower_hex_def ToLower_Cons ToLower_lower_hex to_lower_def)
  ultimately show ?thesis
    using matches_lower_hex_shape [OF assms] by (simp add: CanonicalAddress_def Let_def)
qed

lemma num_val_address:
  "addressShape a \<Longrightarrow> num_val 16 (drop 2 (ToLower a)) = num_val 16 (drop 2 a)"
  by (simp add: drop_ToLower num_val_ToLower addressShape_def)

lemma lower_address_eq_iff:
  assumes "matches_lower_hex 40 c" and "matches_lower_hex 40 d"
  shows "c = d \<longleftrightarrow> num_val 16 (drop 2 c) = num_val 16 (drop 2 d)"
proof
  assume "num_val 16 (drop 2 c) = num_val 16 (drop 2 d)"
  then have "drop 2 c = drop 2 d"
    using assms by (intro num_val_lower_inj) (simp_all add: matches_lower_hex_def)
  moreover have "take 2 c = take 2 d" using assms by (simp add: matches_lower_hex_def)
  ultimately show "c = d" by (metis append_take_drop_id)
qed simp

text \<open>C39: the form \<open>CanonicalAddress\<close> returns has the type the address columns check
  (\<^verbatim>\<open>^0x[0-9a-f]{40}$\<close>) and is accepted again unchanged, whatever the checksum function does; and two
  accepted spellings get the same form exactly when they denote the same twenty-byte number.\<close>

theorem CanonicalAddress_canonical:
  assumes "CanonicalAddress g a = Inr c" and "CanonicalAddress g b = Inr d"
  shows "matches_lower_hex 40 c \<and> CanonicalAddress g c = Inr c \<and>
    (c = d \<longleftrightarrow> num_val 16 (drop 2 a) = num_val 16 (drop 2 b))"
proof -
  note a = CanonicalAddress_Inr [OF assms(1)] and b = CanonicalAddress_Inr [OF assms(2)]
  have "matches_lower_hex 40 c" "matches_lower_hex 40 d"
    using a b by (simp_all add: addressShape_ToLower)
  with a b show ?thesis
    by (simp add: CanonicalAddress_lower lower_address_eq_iff num_val_address)
qed

text \<open>An instance of the address functions that spells every checksum in lower case.\<close>

definition lower_geth :: geth where
  "lower_geth = \<lparr>g_IsHexAddress = hex_address, g_Hex = (\<lambda>s. ''0x'' @ ToLower (without_0x s))\<rparr>"

lemma lower_geth_documented: "geth_documented lower_geth"
  by (simp add: geth_documented_def lower_geth_def ToLower_Cons to_lower_def)

definition upper_demo :: string where
  "upper_demo = ''0x00112233445566778899AABBCCDDEEFF00112233''"

definition lower_demo :: string where
  "lower_demo = ''0x00112233445566778899aabbccddeeff00112233''"

lemma CanonicalAddress_demo:
  "CanonicalAddress lower_geth upper_demo = Inr lower_demo"
  "CanonicalAddress lower_geth lower_demo = Inr lower_demo"
  by (simp_all add: CanonicalAddress_def lower_geth_def upper_demo_def lower_demo_def addressShape_def
      is_hex_def is_dec_def without_0x_def ToLower_def to_lower_def char_of_def bit_0)

theorem CanonicalAddress_canonical_witness:
  "matches_lower_hex 40 lower_demo \<and> CanonicalAddress lower_geth lower_demo = Inr lower_demo \<and>
    num_val 16 (drop 2 upper_demo) = num_val 16 (drop 2 lower_demo)"
  using CanonicalAddress_canonical [OF CanonicalAddress_demo] by simp

section \<open>Allowlists\<close>

lemma trim_prefixes_keeps:
  "\<forall>p \<in> set ps. c \<notin> set p \<Longrightarrow> c \<in> set s \<Longrightarrow> c \<in> set (trim_prefixes ps s)"
proof (induction ps s rule: trim_prefixes.induct)
  case (1 ps s)
  show ?case
  proof (cases "find (\<lambda>p. p \<noteq> [] \<and> has_prefix s p) ps")
    case None
    with "1.prems" show ?thesis by (subst trim_prefixes.simps) simp
  next
    case (Some p)
    then have p: "p \<in> set ps" "take (length p) s = p"
      by (auto simp: find_Some_iff has_prefix_def)
    have "set s = set p \<union> set (drop (length p) s)"
      using append_take_drop_id [of "length p" s] p(2) by (metis set_append)
    with "1.prems" p(1) have "c \<in> set (drop (length p) s)" by auto
    with "1.IH" [OF Some] "1.prems" Some show ?thesis by (subst trim_prefixes.simps) simp
  qed
qed

lemma TrimSpace_keeps: "\<forall>p \<in> set space_runes. c \<notin> set p \<Longrightarrow> c \<in> set s \<Longrightarrow> c \<in> set (TrimSpace s)"
  by (simp add: TrimSpace_def trim_prefixes_keeps)

lemma trim_prefixes_stop: "\<forall>p \<in> set ps. hd p \<noteq> hd s \<Longrightarrow> s \<noteq> [] \<Longrightarrow> trim_prefixes ps s = s"
proof -
  assume a: "\<forall>p \<in> set ps. hd p \<noteq> hd s" "s \<noteq> []"
  have "p = [] \<or> \<not> has_prefix s p" if "p \<in> set ps" for p
    using a that by (cases p; cases s) (auto simp: has_prefix_def)
  then have "find (\<lambda>p. p \<noteq> [] \<and> has_prefix s p) ps = None"
    by (auto simp: find_None_iff)
  then show ?thesis by (subst trim_prefixes.simps) simp
qed

lemma TrimSpace_id:
  "\<forall>p \<in> set space_runes. hd p \<noteq> hd s \<and> hd (rev p) \<noteq> hd (rev s) \<Longrightarrow> s \<noteq> [] \<Longrightarrow> TrimSpace s = s"
  by (simp add: TrimSpace_def trim_prefixes_stop)

lemma zero_not_space: "\<forall>p \<in> set space_runes. CHR ''0'' \<notin> set p"
  by code_simp

lemma TrimSpace_zero: "CHR ''0'' \<in> set s \<Longrightarrow> TrimSpace s \<noteq> []"
  using TrimSpace_keeps [OF zero_not_space] by fastforce

lemma issuerEntries_Inr:
  "issuerEntries es cs = Inr al \<Longrightarrow> i \<in> set al \<longleftrightarrow>
     i \<in> set cs \<or> (\<exists>e \<in> set es. TrimSpace e \<noteq> [] \<and> 0 < i \<and> parse_uint 63 (TrimSpace e) = Some (nat i))"
proof (induction es cs rule: issuerEntries.induct)
  case (2 e es cs)
  then show ?case
    by (cases "TrimSpace e = []"; cases "parse_uint 63 (TrimSpace e)")
       (auto simp: Let_def split: if_splits)
qed simp

text \<open>Permission is exactly membership in the configured list: an absent or blank variable denies
  everyone, and no malformed entry is skipped.\<close>

lemma PermitIssue_exact:
  assumes "LoadIssuerAllowlist (Some getenv) = Inr al"
  shows "PermitIssue (Some al) i \<longleftrightarrow> 0 < i \<and>
    Some (nat i) \<in> parse_uint 63 ` TrimSpace ` set (Split (CHR '','') (fst (getenv EnvIssuerCallers)))"
proof -
  let ?es = "Split (CHR '','') (fst (getenv EnvIssuerCallers))"
  have "issuerEntries ?es [] = Inr al" using assms by (simp add: LoadIssuerAllowlist_def)
  from issuerEntries_Inr [OF this, of i]
  have "i \<in> set al \<longleftrightarrow> 0 < i \<and> (\<exists>e \<in> set ?es. parse_uint 63 (TrimSpace e) = Some (nat i))"
    by (auto simp: parse_uint_def)
  then show ?thesis
    by (auto simp: PermitIssue_def image_iff eq_commute [of "Some _"])
qed

section \<open>The asset whitelist\<close>

text \<open>What \<open>parseDepositEntries\<close> returns: distinct lines over canonical addresses.\<close>

definition entry_ok :: "deposit_entry \<Rightarrow> bool" where
  "entry_ok e \<longleftrightarrow> matches_lower_hex 40 (de_Address e)"

lemma Hex_canonical:
  assumes "geth_documented g" and "hex_address a"
  shows "matches_lower_hex 40 (ToLower (g_Hex g a))"
  using assms
  by (simp add: geth_documented_def hex_address_def matches_lower_hex_def ToLower_hex)

lemma depositItems_step:
  assumes "depositItems g d (part # ps) out = Inr es"
  obtains a h where "g_IsHexAddress g a"
    and "depositItems g d ps out = Inr es \<or>
      depositItems g d ps (out @ [\<lparr>de_Address = ToLower (g_Hex g a), de_Effective = h\<rparr>]) = Inr es"
  using assms by (auto simp: Let_def Cut_def split: if_splits option.splits)

lemma depositItems_ok:
  assumes "geth_documented g"
  shows "depositItems g d ps out = Inr es \<Longrightarrow> \<forall>e \<in> set out. entry_ok e \<Longrightarrow> \<forall>e \<in> set es. entry_ok e"
proof (induction ps arbitrary: out)
  case (Cons part ps)
  from Cons.prems(1) obtain a h where a: "g_IsHexAddress g a"
    and rest: "depositItems g d ps out = Inr es \<or>
      depositItems g d ps (out @ [\<lparr>de_Address = ToLower (g_Hex g a), de_Effective = h\<rparr>]) = Inr es"
    by (rule depositItems_step)
  let ?e = "\<lparr>de_Address = ToLower (g_Hex g a), de_Effective = h\<rparr>"
  have "entry_ok ?e" using a assms Hex_canonical by (simp add: entry_ok_def geth_documented_def)
  with rest Cons.IH [of out] Cons.IH [of "out @ [?e]"] Cons.prems(2) show ?case by auto
qed simp


lemma lower_address_chars:
  assumes "matches_lower_hex 40 a" and "c \<in> set a"
  shows "is_lower_hex c \<or> c = CHR ''x''"
proof -
  from assms(1) obtain ds where "a = ''0x'' @ ds" "list_all is_lower_hex ds"
    by (metis append_take_drop_id matches_lower_hex_def)
  with assms(2) show ?thesis by (auto simp: list_all_iff is_lower_hex_def is_dec_def)
qed

lemma lower_address_no_sep:
  assumes "matches_lower_hex 40 a"
  shows "CHR '':'' \<notin> set a" and "CHR 0x0A \<notin> set a"
  using lower_address_chars [OF assms, of "CHR '':''"] lower_address_chars [OF assms, of "CHR 0x0A"]
  by (auto simp: is_lower_hex_def is_dec_def)

lemma lower_address_facts:
  assumes "matches_lower_hex 40 a"
  shows "hex_address a" and "ToLower a = a" and "CHR ''0'' \<in> set a"
proof -
  from assms obtain ds where a: "a = ''0x'' @ ds" "list_all is_lower_hex ds" "length ds = 40"
    by (metis add_diff_cancel_right' append_take_drop_id length_drop matches_lower_hex_def)
  then show "hex_address a"
    by (auto simp: hex_address_def without_0x_def list_all_iff intro: is_lower_hex_hex)
  from a show "ToLower a = a" by (simp add: ToLower_Cons ToLower_lower_hex to_lower_def)
  from a show "CHR ''0'' \<in> set a" by simp
qed

lemma Cut_de_String:
  "entry_ok e \<Longrightarrow> Cut (CHR '':'') (de_String e) = (de_Address e, num_text 10 (unat (de_Effective e)), True)"
  by (simp add: de_String_def entry_ok_def Cut_at lower_address_no_sep)

lemma de_String_no_newline: "entry_ok e \<Longrightarrow> CHR 0x0A \<notin> set (de_String e)"
  using num_text_dec [of "unat (de_Effective e)"]
  by (auto simp: de_String_def entry_ok_def lower_address_no_sep list_all_iff is_dec_def)

lemma de_String_inj: "entry_ok e \<Longrightarrow> entry_ok e' \<Longrightarrow> de_String e = de_String e' \<Longrightarrow> e = e'"
  using Cut_de_String [of e] Cut_de_String [of e']
  by (cases e, cases e') (auto simp: num_text_inj word_unat_eq_iff)

lemma assetLines_policy:
  assumes "geth_documented g"
  shows "\<forall>e \<in> E. entry_ok e \<Longrightarrow> set lns \<subseteq> de_String ` E \<Longrightarrow> distinct out \<Longrightarrow>
    \<exists>res. assetLines g lns out = Inr res \<and> distinct res \<and>
      set res = set out \<union> de_Address ` {e \<in> E. de_String e \<in> set lns}"
proof (induction lns arbitrary: out)
  case (Cons ln lns)
  from Cons.prems obtain e where e: "e \<in> E" "ln = de_String e" "entry_ok e" by auto
  define out' where "out' = (if de_Address e \<in> set out then out else out @ [de_Address e])"
  have "assetLines g (ln # lns) out = assetLines g lns out'"
    using assms e lower_address_facts [of "de_Address e"]
    by (simp add: Cut_de_String geth_documented_def entry_ok_def out'_def)
  moreover have "distinct out'" "set out' = set out \<union> {de_Address e}"
    using Cons.prems by (auto simp: out'_def)
  moreover have "{x \<in> E. de_String x \<in> set (ln # lns)} = insert e {x \<in> E. de_String x \<in> set lns}"
    using e Cons.prems(1) de_String_inj by auto
  ultimately show ?case using Cons.IH [of out'] Cons.prems by auto
qed simp

lemma parseAssetAllowlist_policy:
  assumes "geth_documented g" and "\<forall>e \<in> set es. entry_ok e" and "es \<noteq> []"
  shows "parseAssetAllowlist g (DepositSnapshot es) = Inr (sorted_list_of_set (de_Address ` set es))"
proof -
  let ?lns = "sort (map de_String es)"
  have "?lns \<noteq> []" using assms(3) by (metis length_0_conv length_map length_sort)
  moreover have "\<forall>x \<in> set ?lns. CHR 0x0A \<notin> set x"
    using assms(2) by (simp add: de_String_no_newline)
  ultimately have lines: "Split (CHR 0x0A) (DepositSnapshot es) = ?lns"
    unfolding DepositSnapshot_def by (rule Split_Join)
  obtain e where "e \<in> set es" using assms(3) by (cases es) auto
  then have "CHR ''0'' \<in> set (de_String e)"
    using assms(2) lower_address_facts(3) by (simp add: de_String_def entry_ok_def)
  moreover have "de_String e \<in> set ?lns" using \<open>e \<in> set es\<close> by simp
  ultimately have "CHR ''0'' \<in> set (DepositSnapshot es)"
    using set_subset_Join [of "de_String e" ?lns] unfolding DepositSnapshot_def by blast
  then have blank: "TrimSpace (DepositSnapshot es) \<noteq> []" by (rule TrimSpace_zero)
  from assetLines_policy [OF assms(1,2), of ?lns "[]"]
  obtain res where "assetLines g ?lns [] = Inr res" "distinct res"
    "set res = de_Address ` {e \<in> set es. de_String e \<in> set ?lns}" by auto
  moreover have "{e \<in> set es. de_String e \<in> set ?lns} = set es" by auto
  ultimately have "assetLines g ?lns [] = Inr res" "distinct res" "set res = de_Address ` set es"
    by simp_all
  then have "sort res = sorted_list_of_set (de_Address ` set es)"
    using sorted_list_of_set_sort_remdups [of res] by (simp add: distinct_remdups_id)
  with blank lines \<open>assetLines g ?lns [] = Inr res\<close> show ?thesis
    by (simp add: parseAssetAllowlist_def)
qed

lemma parseDepositEntries_ok:
  assumes "geth_documented g" and "parseDepositEntries g raw d = Inr es"
  shows "\<forall>e \<in> set es. entry_ok e" and "es \<noteq> []"
proof -
  from assms(2) obtain out where out: "depositItems g d (Split (CHR '','') raw) [] = Inr out"
    "out \<noteq> []" "es = sort_key de_String out"
    by (auto simp: parseDepositEntries_def rbind_eq_Inr split: if_splits)
  with depositItems_ok [OF assms(1) out(1)] show "\<forall>e \<in> set es. entry_ok e" by simp
  from out show "es \<noteq> []" by (metis length_0_conv length_sort)
qed

lemma ValidateAssetWhitelisted_iff: "ValidateAssetWhitelisted a al = Inr () \<longleftrightarrow> a \<in> set al"
  by (auto simp: ValidateAssetWhitelisted_def list_ex_iff)

text \<open>C40: from the configured deposit contracts to the check of a withdrawal: once the policy row in
  force stores the snapshot of the parsed configuration, reading it back gives a sorted list without
  duplicates, and the asset check accepts exactly the configured contract addresses, whatever
  effective heights they carry.\<close>

theorem whitelist_is_configured:
  assumes "geth_documented g" and "parseDepositEntries g raw start = Inr es"
    and "newest_policy chainID history = Some r" and "dp_Assets r = DepositSnapshot es"
  shows "\<exists>al. ResolveAssetAllowlist g True history chainID = Inr al \<and> sorted al \<and> distinct al \<and>
    (\<forall>a. ValidateAssetWhitelisted a al = Inr () \<longleftrightarrow> a \<in> de_Address ` set es)"
  using assms(3,4) parseAssetAllowlist_policy [OF assms(1) parseDepositEntries_ok [OF assms(1,2)]]
  by (simp add: ResolveAssetAllowlist_def ValidateAssetWhitelisted_iff)

definition demo_policy :: deposit_policy where
  "demo_policy = \<lparr>dp_ChainID = 1, dp_VersionSeq = 2, dp_Assets = lower_demo @ '':7''\<rparr>"

definition old_policy :: deposit_policy where
  "old_policy = \<lparr>dp_ChainID = 1, dp_VersionSeq = 1, dp_Assets = upper_demo @ '':1''\<rparr>"

lemma demo_entries:
  "parseDepositEntries lower_geth upper_demo 7 = Inr [\<lparr>de_Address = lower_demo, de_Effective = 7\<rparr>]"
proof -
  have trim: "TrimSpace upper_demo = upper_demo"
    by (rule TrimSpace_id) (simp_all add: space_runes_def upper_demo_def char_of_def bit_0)
  have "Split (CHR '','') upper_demo = [upper_demo]"
    and "Cut (CHR '':'') upper_demo = (upper_demo, [], False)"
    and "g_IsHexAddress lower_geth upper_demo" and "upper_demo \<noteq> []"
    and "ToLower (g_Hex lower_geth upper_demo) = lower_demo"
    by (simp_all add: upper_demo_def lower_demo_def Cut_def lower_geth_def hex_address_def
        without_0x_def is_hex_def is_dec_def ToLower_def to_lower_def char_of_def bit_0)
  with trim show ?thesis by (simp add: parseDepositEntries_def)
qed

lemma demo_snapshot:
  "dp_Assets demo_policy = DepositSnapshot [\<lparr>de_Address = lower_demo, de_Effective = 7\<rparr>]"
  by (simp add: demo_policy_def DepositSnapshot_def de_String_def num_text.simps digit_char_def char_of_def bit_0)

lemma demo_newest: "newest_policy 1 [old_policy, demo_policy] = Some demo_policy"
  by (simp add: demo_policy_def old_policy_def)

theorem whitelist_is_configured_witness:
  "\<exists>al. ResolveAssetAllowlist lower_geth True [old_policy, demo_policy] 1 = Inr al \<and> sorted al \<and>
    distinct al \<and> (\<forall>a. ValidateAssetWhitelisted a al = Inr () \<longleftrightarrow> a = lower_demo)"
  using whitelist_is_configured [OF lower_geth_documented demo_entries demo_newest demo_snapshot]
  by simp

text \<open>\<open>NormalizeWhitelist\<close> keeps an address without the prefix as it is: its result is then not a
  canonical address and no canonical asset matches it.\<close>

lemma NormalizeWhitelist_unprefixed:
  "\<exists>h. NormalizeWhitelist lower_geth (drop 2 upper_demo) = Inr ([drop 2 lower_demo], h) \<and>
     \<not> matches_lower_hex 40 (drop 2 lower_demo)"
proof -
  have "whitelistItems lower_geth (Split (CHR '','') (drop 2 upper_demo)) [] = Inr [drop 2 lower_demo]"
    and "\<not> matches_lower_hex 40 (drop 2 lower_demo)"
    by (code_simp, code_simp)
  then show ?thesis by (simp add: NormalizeWhitelist_def)
qed

section \<open>Idempotency keys\<close>

lemma ValidateIdempotencyKey_iff:
  "ValidateIdempotencyKey k = Inr () \<longleftrightarrow>
     1 \<le> length k \<and> length k \<le> 128 \<and> list_all (\<lambda>c. 33 \<le> byte c \<and> byte c \<le> 126) k"
proof -
  have "list_ex (\<lambda>c. byte c < 33 \<or> byte c > 126) k \<longleftrightarrow> \<not> list_all (\<lambda>c. 33 \<le> byte c \<and> byte c \<le> 126) k"
    by (induction k) auto
  then show ?thesis by (auto simp: ValidateIdempotencyKey_def Suc_le_eq)
qed

lemma ValidateChainID_iff: "ValidateChainID c d = Inr () \<longleftrightarrow> 0 < c \<and> c = d"
  by (auto simp: ValidateChainID_def)

end
