(* ===== verification/EventsCatalog.thy ===== *)
theory EventsCatalog
  imports GoStrings
begin

text \<open>
  Model of the event contract of \<^verbatim>\<open>internal/events\<close> (\<^verbatim>\<open>catalog.go\<close>, \<^verbatim>\<open>errors.go\<close>): the catalog, the
  envelope validator, the derivation of event identities and the canonical payload with its hash. The
  lemmas show that the canonical bytes do not depend on the order of a Go map, that a natural key
  determines the fact it names, and what an accepted envelope carries.

  \<^verbatim>\<open>uuid.NewSHA1\<close> of \<^verbatim>\<open>google/uuid\<close> is a parameter: \<open>uuid5 key\<close> stands for the text of
  \<^verbatim>\<open>uuid.NewSHA1(uuid.NameSpaceURL, key)\<close>.
\<close>

section \<open>JSON values\<close>

text \<open>The dynamic values a payload holds: a Go map is the list of its entries in some iteration order.
  The producers use no floating point numbers.\<close>

datatype json = JNull | JBool bool | JNum int | JStr string | JArr "json list"
  | JObj "(string \<times> json) list"

text \<open>The number of bytes of the UTF-8 encoded rune a string starts with, or 0 when its first byte starts
  none.\<close>

definition utf8_cont :: "nat \<Rightarrow> bool" where
  "utf8_cont b \<longleftrightarrow> 128 \<le> b \<and> b \<le> 191"

fun rune_len :: "nat list \<Rightarrow> nat" where
  "rune_len [] = 0"
| "rune_len (a # r) =
     (let b = (case r of [] \<Rightarrow> 0 | x # _ \<Rightarrow> x);
          c = (case r of _ # x # _ \<Rightarrow> x | _ \<Rightarrow> 0);
          d = (case r of _ # _ # x # _ \<Rightarrow> x | _ \<Rightarrow> 0)
      in if a < 128 then 1
         else if 194 \<le> a \<and> a \<le> 223 \<and> utf8_cont b then 2
         else if (a = 224 \<and> 160 \<le> b \<and> b \<le> 191 \<or> 225 \<le> a \<and> a \<le> 236 \<and> utf8_cont b
                  \<or> a = 237 \<and> 128 \<le> b \<and> b \<le> 159 \<or> 238 \<le> a \<and> a \<le> 239 \<and> utf8_cont b)
              \<and> utf8_cont c then 3
         else if (a = 240 \<and> 144 \<le> b \<and> b \<le> 191 \<or> 241 \<le> a \<and> a \<le> 243 \<and> utf8_cont b
                  \<or> a = 244 \<and> 128 \<le> b \<and> b \<le> 143) \<and> utf8_cont c \<and> utf8_cont d then 4
         else 0)"

text \<open>\<^verbatim>\<open>json.Marshal\<close> of a string: quotes, backslashes and control characters are escaped, so are the HTML
  characters and the two Unicode line separators, and a byte that belongs to no rune becomes
  the escape of the replacement character.\<close>

definition json_byte :: "char \<Rightarrow> string" where
  "json_byte c = (let b = byte c in
     if b = 34 then [CHR 0x5C, CHR 0x22] else if b = 92 then [CHR 0x5C, CHR 0x5C]
     else if b = 8 then CHR 0x5C # ''b'' else if b = 12 then CHR 0x5C # ''f''
     else if b = 10 then CHR 0x5C # ''n'' else if b = 13 then CHR 0x5C # ''r''
     else if b = 9 then CHR 0x5C # ''t''
     else if b < 32 \<or> b = 60 \<or> b = 62 \<or> b = 38
     then CHR 0x5C # ''u00'' @ [digit_char (b div 16), digit_char (b mod 16)]
     else [c])"

function json_text :: "string \<Rightarrow> string" where
  "json_text s = (case s of [] \<Rightarrow> []
     | c # cs \<Rightarrow>
         let n = rune_len (map byte s) in
         if n = 0 then CHR 0x5C # ''ufffd'' @ json_text cs
         else if n = 1 then json_byte c @ json_text cs
         else if map byte (take n s) = [226, 128, 168] then CHR 0x5C # ''u2028'' @ json_text (drop n s)
         else if map byte (take n s) = [226, 128, 169] then CHR 0x5C # ''u2029'' @ json_text (drop n s)
         else take n s @ json_text (drop n s))"
  by pat_completeness auto
termination
  by (relation "measure length") auto

declare json_text.simps [simp del]

definition json_string :: "string \<Rightarrow> string" where
  "json_string s = CHR 0x22 # json_text s @ [CHR 0x22]"

text \<open>\<^verbatim>\<open>json.Marshal\<close> sorts the keys of a map.\<close>

fun marshal :: "json \<Rightarrow> string" where
  "marshal JNull = ''null''"
| "marshal (JBool b) = (if b then ''true'' else ''false'')"
| "marshal (JNum n) = int_text 10 n"
| "marshal (JStr s) = json_string s"
| "marshal (JArr xs) = ''['' @ Join (CHR '','') (map marshal xs) @ '']''"
| "marshal (JObj kvs) = ''{'' @ Join (CHR '','')
     (map (\<lambda>(k, t). json_string k @ CHR '':'' # t)
       (sort_key fst (map (\<lambda>(k, v). (k, marshal v)) kvs))) @ ''}''"

section \<open>Errors\<close>

datatype contract_violation =
    UnknownEventType string
  | SchemaVersionOutside string int
  | IdentityKindMismatch string
  | AggregateRequired
  | AggregateVersionRequired
  | OccurredAtRequired
  | PayloadRequired
  | EVMLogFieldsRequired string
  | RevisionNeedsEvent string
  | RevisionNeedsRecovery string
  | RevisionNeedsChain string
  | RevisesNeedsRecovery
  | PayloadKeyMissing string string
  | PayloadForbidden string string
  | NegativeHighWater int
  | UnexpectedUnique string
  | CheckViolation string

datatype ev_stmt = AggregateVersionQuery | AppendInsert | ObligationInsert

datatype ev_error =
    ErrContract contract_violation
  | ErrIdentityConflict string
  | ErrSchemaUnsupported string int
  | EvStorage pg_error
  | EvNoRows

section \<open>The catalog\<close>

datatype identity_kind = IdentityKindEVMLog | IdentityKindBusinessObject | IdentityKindOther string

definition IdentityKind_Valid :: "identity_kind \<Rightarrow> bool" where
  "IdentityKind_Valid k \<longleftrightarrow> k = IdentityKindEVMLog \<or> k = IdentityKindBusinessObject"

record event =
  evt_EventType :: string
  evt_SchemaVersion :: int
  evt_IdentityKind :: identity_kind
  evt_AggregateType :: string
  evt_AggregateID :: string
  evt_AggregateVersion :: int
  evt_Payload :: "(string \<times> json) list option"
  evt_OccurredAt :: "instant option"
  evt_ChainID :: int
  evt_BlockNumber :: int
  evt_BlockHash :: string
  evt_TxHash :: string
  evt_LogIndex :: int
  evt_RecoveryVersion :: int
  evt_RevisesEventID :: "string option"
  evt_SourceKind :: string
  evt_SourceID :: string
  evt_SourceVersion :: int
  evt_payloadJSON :: "string option"
  evt_payloadHash :: string

record event_spec =
  es_Type :: string
  es_IdentityKind :: identity_kind
  es_RequiredPayloadKeys :: "string list"
  es_RevisionRequired :: bool
  es_SchemaVersions :: "int list"

definition SupportsSchemaVersion :: "event_spec \<Rightarrow> int \<Rightarrow> bool" where
  "SupportsSchemaVersion s v \<longleftrightarrow> list_ex (\<lambda>sv. sv = v) (es_SchemaVersions s)"

abbreviation spec_row :: "string \<Rightarrow> identity_kind \<Rightarrow> string list \<Rightarrow> bool \<Rightarrow> event_spec" where
  "spec_row ty k keys revises \<equiv> \<lparr>es_Type = ty, es_IdentityKind = k, es_RequiredPayloadKeys = keys,
     es_RevisionRequired = revises, es_SchemaVersions = [1]\<rparr>"

definition catalogV1 :: "event_spec list" where
  "catalogV1 = [
     spec_row ''deposit.observation.created'' IdentityKindEVMLog [''observation_id'', ''state''] False,
     spec_row ''deposit.observation.status_changed'' IdentityKindBusinessObject
       [''from_state'', ''to_state'', ''reason''] False,
     spec_row ''deposit.observation.reinstated'' IdentityKindBusinessObject
       [''observation_id'', ''reason''] False,
     spec_row ''deposit.confirmation.confirmed'' IdentityKindBusinessObject
       [''policy_version'', ''confirmed_block_number'', ''confirmed_block_hash''] False,
     spec_row ''deposit.revision.applied'' IdentityKindBusinessObject
       [''superseded_identity'', ''to_state'', ''reason''] True,
     spec_row ''withdrawal.request.received'' IdentityKindBusinessObject
       [''request_id'', ''caller'', ''state''] False,
     spec_row ''withdrawal.execution.state_changed'' IdentityKindBusinessObject
       [''from_state'', ''to_state'', ''intent_id''] False,
     spec_row ''withdrawal.execution.revised'' IdentityKindBusinessObject
       [''superseded_identity'', ''to_state'', ''reason''] True]"

definition LookupEventSpec :: "string \<Rightarrow> event_spec option" where
  "LookupEventSpec eventType = find (\<lambda>spec. es_Type spec = eventType) catalogV1"

definition ResolveRoute :: "string \<Rightarrow> int \<Rightarrow> event_spec option" where
  "ResolveRoute eventType v = (case LookupEventSpec eventType of
     None \<Rightarrow> None | Some spec \<Rightarrow> if SupportsSchemaVersion spec v then Some spec else None)"

definition RouteEvent :: "string \<Rightarrow> int \<Rightarrow> ev_error + event_spec" where
  "RouteEvent eventType v = (case LookupEventSpec eventType of
     None \<Rightarrow> Inl (ErrContract (UnknownEventType eventType))
   | Some spec \<Rightarrow> if \<not> SupportsSchemaVersion spec v then Inl (ErrSchemaUnsupported eventType v)
       else Inr spec)"

definition EventFamily :: "string \<Rightarrow> string" where
  "EventFamily eventType =
     (case Cut (CHR ''.'') eventType of (d, _, found) \<Rightarrow> if found \<and> d \<noteq> [] then d else eventType)"

section \<open>Identity and payload\<close>

definition EVMLogNaturalKey :: "int \<Rightarrow> string \<Rightarrow> string \<Rightarrow> int \<Rightarrow> string" where
  "EVMLogNaturalKey chainID blockHash txHash logIndex =
     ''evm_log|'' @ int_text 10 chainID @ ''|'' @ blockHash @ ''|'' @ txHash @ ''|'' @ int_text 10 logIndex"

definition BusinessObjectNaturalKey :: "string \<Rightarrow> string \<Rightarrow> int \<Rightarrow> string" where
  "BusinessObjectNaturalKey aggregateType aggregateID v =
     ''business_object|'' @ aggregateType @ ''|'' @ aggregateID @ ''|'' @ int_text 10 v"

definition NewEventID :: "(string \<Rightarrow> string) \<Rightarrow> string \<Rightarrow> string" where
  "NewEventID uuid5 naturalKey = uuid5 naturalKey"

definition CanonicalPayload :: "(string \<times> json) list option \<Rightarrow> ev_error + string" where
  "CanonicalPayload payload = (case payload of
     None \<Rightarrow> Inl (ErrContract PayloadRequired) | Some kvs \<Rightarrow> Inr (marshal (JObj kvs)))"

definition PayloadHash :: "string \<Rightarrow> string" where
  "PayloadHash canonical = hex_encode (sha256 (str_bytes canonical))"

definition forbiddenPayloadKeyTokens :: "string list" where
  "forbiddenPayloadKeyTokens = [
     ''privatekey'', ''privkey'', ''secret'', ''mnemonic'', ''seedphrase'',
     ''password'', ''passwd'', ''apikey'', ''credential'', ''signature'',
     ''signedtx'', ''rawtx'', ''rawtransaction'', ''keystore'']"

fun Contains :: "string \<Rightarrow> string \<Rightarrow> bool" where
  "Contains [] t = has_prefix [] t"
| "Contains (c # s) t = (has_prefix (c # s) t \<or> Contains s t)"

text \<open>\<^verbatim>\<open>strings.ToLower\<close> as far as a search for lowercase ASCII tokens sees it: two runes outside ASCII have
  an ASCII lower case, the Kelvin sign and the dotted capital I; every other one stays outside ASCII.\<close>

fun fold_case :: "string \<Rightarrow> string" where
  "fold_case [] = []"
| "fold_case (c # cs) =
     (case cs of
        a # b # r \<Rightarrow> if map byte [c, a, b] = [226, 132, 170] then CHR ''k'' # fold_case r
          else if map byte [c, a] = [196, 176] then CHR ''i'' # fold_case (b # r)
          else to_lower c # fold_case cs
      | [a] \<Rightarrow> if map byte [c, a] = [196, 176] then ''i'' else to_lower c # fold_case cs
      | [] \<Rightarrow> [to_lower c])"

definition isForbiddenPayloadKey :: "string \<Rightarrow> bool" where
  "isForbiddenPayloadKey key =
     (let normalized = filter (\<lambda>c. c \<noteq> CHR ''_'' \<and> c \<noteq> CHR ''-'') (fold_case key)
      in list_ex (\<lambda>token. Contains normalized token) forbiddenPayloadKeyTokens)"

fun scanForbidden :: "json \<Rightarrow> string option"
  and scanMembers :: "(string \<times> json) list \<Rightarrow> string option"
  and scanElements :: "json list \<Rightarrow> string option" where
  "scanForbidden (JObj kvs) = scanMembers kvs"
| "scanForbidden (JArr xs) = scanElements xs"
| "scanForbidden (JStr s) = (if Contains s ''-----BEGIN'' then Some ''<value:PEM>'' else None)"
| "scanForbidden JNull = None"
| "scanForbidden (JBool b) = None"
| "scanForbidden (JNum n) = None"
| "scanMembers [] = None"
| "scanMembers ((key, nested) # kvs) =
     (if isForbiddenPayloadKey key then Some key
      else case scanForbidden nested of Some f \<Rightarrow> Some f | None \<Rightarrow> scanMembers kvs)"
| "scanElements [] = None"
| "scanElements (nested # xs) =
     (case scanForbidden nested of Some f \<Rightarrow> Some f | None \<Rightarrow> scanElements xs)"

definition ForbiddenPayload :: "(string \<times> json) list \<Rightarrow> string option" where
  "ForbiddenPayload payload = scanForbidden (JObj payload)"

section \<open>Envelope validation\<close>

definition missing_key :: "(string \<times> json) list \<Rightarrow> string \<Rightarrow> bool" where
  "missing_key payload key \<longleftrightarrow> (case map_of payload key of None \<Rightarrow> True | Some v \<Rightarrow> v = JNull)"

definition evm_log_incomplete :: "event \<Rightarrow> bool" where
  "evm_log_incomplete ev \<longleftrightarrow> evt_ChainID ev \<le> 0 \<or> evt_BlockNumber ev \<le> 0 \<or> evt_BlockHash ev = []
     \<or> evt_TxHash ev = [] \<or> evt_LogIndex ev < 0"

definition revision_violation :: "event \<Rightarrow> contract_violation option" where
  "revision_violation ev =
     (if evt_RevisesEventID ev = None then Some (RevisionNeedsEvent (evt_EventType ev))
      else if evt_RecoveryVersion ev \<le> 0 then Some (RevisionNeedsRecovery (evt_EventType ev))
      else if evt_ChainID ev \<le> 0 \<or> evt_BlockNumber ev \<le> 0 \<or> evt_BlockHash ev = []
      then Some (RevisionNeedsChain (evt_EventType ev))
      else None)"

definition envelope_violation ::
  "event_spec \<Rightarrow> (string \<times> json) list \<Rightarrow> event \<Rightarrow> contract_violation option" where
  "envelope_violation spec payload ev =
     (if evt_IdentityKind ev = IdentityKindEVMLog \<and> evm_log_incomplete ev
      then Some (EVMLogFieldsRequired (evt_EventType ev))
      else if es_RevisionRequired spec \<and> revision_violation ev \<noteq> None then revision_violation ev
      else if evt_RevisesEventID ev \<noteq> None \<and> evt_RecoveryVersion ev \<le> 0 then Some RevisesNeedsRecovery
      else case find (missing_key payload) (es_RequiredPayloadKeys spec) of
        Some key \<Rightarrow> Some (PayloadKeyMissing (evt_EventType ev) key)
      | None \<Rightarrow> (case ForbiddenPayload payload of
            Some key \<Rightarrow> Some (PayloadForbidden (evt_EventType ev) key) | None \<Rightarrow> None))"

definition validateEvent :: "event \<Rightarrow> bool \<Rightarrow> ev_error + unit" where
  "validateEvent ev requireVersion =
     (case LookupEventSpec (evt_EventType ev) of
        None \<Rightarrow> Inl (ErrContract (UnknownEventType (evt_EventType ev)))
      | Some spec \<Rightarrow>
          if \<not> SupportsSchemaVersion spec (evt_SchemaVersion ev)
          then Inl (ErrContract (SchemaVersionOutside (evt_EventType ev) (evt_SchemaVersion ev)))
          else if evt_IdentityKind ev \<noteq> es_IdentityKind spec
          then Inl (ErrContract (IdentityKindMismatch (evt_EventType ev)))
          else if evt_AggregateType ev = [] \<or> evt_AggregateID ev = []
          then Inl (ErrContract AggregateRequired)
          else if requireVersion \<and> evt_AggregateVersion ev \<le> 0
          then Inl (ErrContract AggregateVersionRequired)
          else if evt_OccurredAt ev = None then Inl (ErrContract OccurredAtRequired)
          else case evt_Payload ev of
            None \<Rightarrow> Inl (ErrContract PayloadRequired)
          | Some payload \<Rightarrow>
              (case envelope_violation spec payload ev of
                 Some v \<Rightarrow> Inl (ErrContract v) | None \<Rightarrow> Inr ()))"

definition ValidateEnvelope :: "event \<Rightarrow> ev_error + unit" where
  "ValidateEnvelope ev = validateEvent ev True"

definition freeze_payload :: "event \<Rightarrow> ev_error + event" where
  "freeze_payload ev = rbind (CanonicalPayload (evt_Payload ev)) (\<lambda>canonical.
     Inr (ev\<lparr>evt_payloadJSON := Some canonical, evt_payloadHash := PayloadHash canonical\<rparr>))"

definition NewEvent :: "event \<Rightarrow> ev_error + event" where
  "NewEvent ev = rbind (validateEvent ev False) (\<lambda>_. freeze_payload ev)"

definition prepare :: "event \<Rightarrow> ev_error + event" where
  "prepare ev = rbind (validateEvent ev False) (\<lambda>_.
     if evt_payloadJSON ev = None then freeze_payload ev else Inr ev)"

section \<open>Canonical payloads\<close>

lemma sort_key_unique:
  fixes f :: "'a \<Rightarrow> 'b::linorder"
  assumes "set xs = set ys" and "distinct (map f xs)" and "distinct (map f ys)"
  shows "sort_key f xs = sort_key f ys"
proof (rule map_sorted_distinct_set_unique)
  show "inj_on f (set (sort_key f xs) \<union> set (sort_key f ys))"
    using assms by (simp add: distinct_map)
  show "distinct (map f (sort_key f xs))" "distinct (map f (sort_key f ys))"
    using assms by (simp_all add: distinct_map)
qed (use assms in simp_all)

text \<open>The canonical bytes, and so the payload hash, do not depend on the order in which a map yields its
  entries.\<close>

lemma marshal_order:
  assumes "set kvs = set kvs'" and "distinct (map fst kvs)" and "distinct (map fst kvs')"
  shows "marshal (JObj kvs) = marshal (JObj kvs')"
proof -
  let ?m = "map (\<lambda>(k, v). (k, marshal v))"
  have keys: "map fst (?m xs) = map fst xs" for xs :: "(string \<times> json) list"
    by (induction xs) auto
  have "sort_key fst (?m kvs) = sort_key fst (?m kvs')"
    by (intro sort_key_unique) (simp_all only: keys set_map assms)
  then show ?thesis by simp
qed

section \<open>Natural keys\<close>

lemma bar_not_in_int_text: "CHR ''|'' \<notin> set (int_text 10 v)"
  using num_text_dec [of "nat v"] num_text_dec [of "nat (- v)"]
  by (auto simp: int_text_def list_all_iff is_dec_def)

lemma int_text_inj: "int_text 10 v = int_text 10 w \<longleftrightarrow> v = w"
proof
  have no_sign: "CHR ''-'' \<notin> set (num_text 10 n)" for n
    using num_text_dec [of n] by (auto simp: list_all_iff is_dec_def)
  assume eq: "int_text 10 v = int_text 10 w"
  show "v = w"
  proof (cases "v < 0 \<longleftrightarrow> w < 0")
    case True
    with eq show ?thesis by (auto simp: int_text_def num_text_inj split: if_splits)
  next
    case False
    with eq no_sign [of "nat v"] no_sign [of "nat w"] show ?thesis
      by (auto simp: int_text_def split: if_splits) (metis list.set_intros(1))+
  qed
qed simp

lemma split_first:
  fixes c :: char
  assumes "x @ c # y = x' @ c # y'" and "c \<notin> set x" and "c \<notin> set x'"
  shows "x = x' \<and> y = y'"
proof -
  have "(x, y, True) = (x', y', True)" using assms by (metis Cut_at)
  then show ?thesis by simp
qed

lemma split_last:
  fixes c :: char
  assumes "x @ c # y = x' @ c # y'" and "c \<notin> set y" and "c \<notin> set y'"
  shows "x = x' \<and> y = y'"
proof -
  from assms(1) have "rev y @ c # rev x = rev y' @ c # rev x'"
    by (metis append.assoc append_Cons append_Nil rev.simps(2) rev_append)
  then have "rev y = rev y' \<and> rev x = rev x'" by (rule split_first) (use assms in simp_all)
  then show ?thesis by simp
qed

text \<open>A natural key names one fact: for aggregate types without the separator, as the catalog's are, two
  business keys agree only when type, id and version agree, whatever characters the ids contain.\<close>

lemma BusinessObjectNaturalKey_inj:
  assumes "BusinessObjectNaturalKey t i v = BusinessObjectNaturalKey t' i' v'"
    and "CHR ''|'' \<notin> set t" and "CHR ''|'' \<notin> set t'"
  shows "t = t' \<and> i = i' \<and> v = v'"
proof -
  from assms(1) have "t @ CHR ''|'' # (i @ CHR ''|'' # int_text 10 v) =
      t' @ CHR ''|'' # (i' @ CHR ''|'' # int_text 10 v')"
    by (simp add: BusinessObjectNaturalKey_def)
  then have "t = t'" and "i @ CHR ''|'' # int_text 10 v = i' @ CHR ''|'' # int_text 10 v'"
    using assms(2,3) split_first by blast+
  moreover from this(2) have "i = i' \<and> int_text 10 v = int_text 10 v'"
    by (rule split_last) (rule bar_not_in_int_text)+
  ultimately show ?thesis by (simp add: int_text_inj)
qed

section \<open>Accepted envelopes\<close>

lemma validateEvent_Inr:
  assumes "validateEvent ev req = Inr u"
  obtains spec payload where "LookupEventSpec (evt_EventType ev) = Some spec"
    and "evt_IdentityKind ev = es_IdentityKind spec"
    and "SupportsSchemaVersion spec (evt_SchemaVersion ev)"
    and "evt_AggregateType ev \<noteq> []" and "evt_AggregateID ev \<noteq> []"
    and "evt_Payload ev = Some payload" and "evt_OccurredAt ev \<noteq> None"
    and "envelope_violation spec payload ev = None"
  using assms
  by (auto simp: validateEvent_def split: option.splits if_splits)

text \<open>An accepted envelope carries every key its type requires, with a value, and no key or string that
  names key material.\<close>

lemma validateEvent_payload:
  assumes "validateEvent ev req = Inr u" and "LookupEventSpec (evt_EventType ev) = Some spec"
    and "evt_Payload ev = Some payload"
  shows "\<forall>key \<in> set (es_RequiredPayloadKeys spec). \<exists>v. map_of payload key = Some v \<and> v \<noteq> JNull"
    and "ForbiddenPayload payload = None"
proof -
  from assms have ok: "envelope_violation spec payload ev = None"
    by (auto elim: validateEvent_Inr)
  then have "find (missing_key payload) (es_RequiredPayloadKeys spec) = None"
    by (auto simp: envelope_violation_def split: if_splits option.splits)
  then have "\<not> missing_key payload key" if "key \<in> set (es_RequiredPayloadKeys spec)" for key
    using that by (simp add: find_None_set)
  then show "\<forall>key \<in> set (es_RequiredPayloadKeys spec). \<exists>v. map_of payload key = Some v \<and> v \<noteq> JNull"
    by (fastforce simp: missing_key_def split: option.splits)
  from ok show "ForbiddenPayload payload = None"
    by (auto simp: envelope_violation_def split: if_splits option.splits)
qed

lemma prepare_Inr:
  assumes "prepare ev = Inr ev'"
  shows "validateEvent ev False = Inr ()" and "evt_payloadJSON ev' \<noteq> None"
    and "ev' = ev\<lparr>evt_payloadJSON := evt_payloadJSON ev', evt_payloadHash := evt_payloadHash ev'\<rparr>"
  using assms
  by (auto simp: prepare_def freeze_payload_def CanonicalPayload_def rbind_eq_Inr
      split: option.splits if_splits)

lemma prepare_columns:
  assumes "prepare ev = Inr p"
  shows "evt_EventType p = evt_EventType ev" "evt_IdentityKind p = evt_IdentityKind ev"
    "evt_AggregateType p = evt_AggregateType ev" "evt_AggregateID p = evt_AggregateID ev"
    "evt_SchemaVersion p = evt_SchemaVersion ev" "evt_ChainID p = evt_ChainID ev"
    "evt_RevisesEventID p = evt_RevisesEventID ev" "evt_RecoveryVersion p = evt_RecoveryVersion ev"
    "evt_SourceKind p = evt_SourceKind ev" "evt_SourceID p = evt_SourceID ev"
    "evt_SourceVersion p = evt_SourceVersion ev" "evt_OccurredAt p = evt_OccurredAt ev"
    "evt_Payload p = evt_Payload ev"
  using assms
  by (auto simp: prepare_def freeze_payload_def CanonicalPayload_def rbind_eq_Inr
      split: option.splits if_splits)

text \<open>Identity kinds: every type of the catalog has one of the two kinds.\<close>

lemma catalog_kinds: "LookupEventSpec ty = Some spec \<Longrightarrow> IdentityKind_Valid (es_IdentityKind spec)"
  unfolding LookupEventSpec_def
  by (drule find_Some_set) (auto simp: catalogV1_def IdentityKind_Valid_def)

end
