(* ===== verification/EventsOutbox.thy ===== *)
theory EventsOutbox
  imports EventsCatalog
begin

text \<open>
  Model of the transactional outbox of \<^verbatim>\<open>internal/events\<close>: \<^verbatim>\<open>Append\<close> (\<^verbatim>\<open>append.go\<close>), the guarded
  publish-state updates, retention and retry delay (\<^verbatim>\<open>outbox.go\<close>), and the capacity guard
  (\<^verbatim>\<open>capacity.go\<close>), over the tables \<^verbatim>\<open>outbox_events\<close> and \<^verbatim>\<open>event_obligation\<close> with the constraints of
  \<^verbatim>\<open>migrations/000015_event_infrastructure.sql\<close> and \<^verbatim>\<open>migrations/000017_event_obligations.sql\<close>.

  The lemmas show that every operation keeps the identities of the table, that a row only moves along
  the publish-state machine and only a published row is ever removed, which versions \<^verbatim>\<open>Append\<close> hands
  out, and what admission means for the backlog.
\<close>

section \<open>Rows\<close>

datatype publish_state = PublishStatePending | PublishStatePublished | PublishStateBlocked
  | PublishStateOther string

definition PublishState_Valid :: "publish_state \<Rightarrow> bool" where
  "PublishState_Valid s \<longleftrightarrow> (case s of PublishStateOther _ \<Rightarrow> False | _ \<Rightarrow> True)"

definition PublishCanTransition :: "publish_state \<Rightarrow> publish_state \<Rightarrow> bool" where
  "PublishCanTransition from to =
     (if from = PublishStatePending then to = PublishStatePublished \<or> to = PublishStateBlocked
      else if from = PublishStateBlocked then to = PublishStatePending
      else False)"

record outbox_event =
  ob_ID :: int
  ob_EventID :: string
  ob_IdentityKind :: identity_kind
  ob_EventType :: string
  ob_SchemaVersion :: int
  ob_AggregateType :: string
  ob_AggregateID :: string
  ob_AggregateVersion :: int
  ob_Payload :: string
  ob_PayloadHash :: string
  ob_OccurredAt :: instant
  ob_ChainID :: "int option"
  ob_BlockNumber :: "int option"
  ob_BlockHash :: "string option"
  ob_TxHash :: "string option"
  ob_LogIndex :: "int option"
  ob_RecoveryVersion :: "int option"
  ob_RevisesEventID :: "string option"
  ob_SourceKind :: "string option"
  ob_SourceID :: "string option"
  ob_SourceVersion :: "int option"
  ob_PublishState :: publish_state
  ob_AttemptCount :: int
  ob_NextAttemptAt :: instant
  ob_ClaimOwner :: "string option"
  ob_ClaimExpiresAt :: "instant option"
  ob_LastErrorClass :: "string option"
  ob_PublishedAt :: "instant option"
  ob_CreatedAt :: instant

record obligation =
  og_AggregateType :: string
  og_AggregateID :: string
  og_AggregateVersion :: int
  og_ExpectedEventType :: string
  og_ObligatedAt :: instant
  og_SourceKind :: string
  og_SourceID :: string
  og_SourceVersion :: "int option"

text \<open>\<open>outbox_seq\<close> is the identity sequence of \<^verbatim>\<open>outbox_events.id\<close>: the last value handed out.\<close>

record events_db =
  outbox_t :: "outbox_event list"
  outbox_seq :: int
  obligation_t :: "obligation list"

record ev_env =
  ev_fault :: "ev_stmt \<Rightarrow> pg_error option"
  ev_now :: instant

section \<open>Inserts\<close>

text \<open>\<^verbatim>\<open>length(text)\<close> counts characters: the bytes that do not continue one.\<close>

definition char_length :: "string \<Rightarrow> nat" where
  "char_length s = length (filter (\<lambda>c. \<not> utf8_cont (byte c)) s)"

definition same_log :: "outbox_event \<Rightarrow> outbox_event \<Rightarrow> bool" where
  "same_log r s \<longleftrightarrow> ob_IdentityKind r = IdentityKindEVMLog \<and> ob_IdentityKind s = IdentityKindEVMLog
     \<and> ob_ChainID r = ob_ChainID s \<and> ob_BlockHash r = ob_BlockHash s
     \<and> ob_TxHash r = ob_TxHash s \<and> ob_LogIndex r = ob_LogIndex s
     \<and> ob_ChainID r \<noteq> None \<and> ob_BlockHash r \<noteq> None \<and> ob_TxHash r \<noteq> None \<and> ob_LogIndex r \<noteq> None"

definition same_object :: "outbox_event \<Rightarrow> outbox_event \<Rightarrow> bool" where
  "same_object r s \<longleftrightarrow> ob_IdentityKind r = IdentityKindBusinessObject
     \<and> ob_IdentityKind s = IdentityKindBusinessObject
     \<and> ob_AggregateType r = ob_AggregateType s \<and> ob_AggregateID r = ob_AggregateID s
     \<and> ob_AggregateVersion r = ob_AggregateVersion s"

definition identity_clash :: "outbox_event \<Rightarrow> outbox_event \<Rightarrow> bool" where
  "identity_clash r s =
     (if ob_IdentityKind r = IdentityKindEVMLog then same_log r s else same_object r s)"

definition outbox_check :: "outbox_event \<Rightarrow> string option" where
  "outbox_check r = first_violation
     [(''outbox_events_aggregate_version_check'', ob_AggregateVersion r > 0),
      (''outbox_events_attempt_count_check'', ob_AttemptCount r \<ge> 0),
      (''outbox_events_identity_kind_check'', IdentityKind_Valid (ob_IdentityKind r)),
      (''outbox_events_log_identity_shape'', ob_IdentityKind r \<noteq> IdentityKindEVMLog \<or>
         ob_ChainID r \<noteq> None \<and> ob_BlockNumber r \<noteq> None \<and> ob_BlockHash r \<noteq> None
         \<and> ob_TxHash r \<noteq> None \<and> ob_LogIndex r \<noteq> None),
      (''outbox_events_publish_state_check'', PublishState_Valid (ob_PublishState r)),
      (''outbox_events_revision_shape'', ob_RevisesEventID r = None \<or> ob_RecoveryVersion r \<noteq> None),
      (''outbox_events_schema_version_check'', ob_SchemaVersion r > 0),
      (''outbox_events_state_consistency'',
         (ob_PublishState r = PublishStatePublished \<and> ob_PublishedAt r \<noteq> None \<or>
          (ob_PublishState r = PublishStatePending \<or> ob_PublishState r = PublishStateBlocked)
            \<and> ob_PublishedAt r = None)
         \<and> (ob_PublishState r \<noteq> PublishStateBlocked \<or> ob_LastErrorClass r \<noteq> None))]"

text \<open>\<^verbatim>\<open>INSERT ... ON CONFLICT (identity) DO UPDATE ... WHERE payload_hash = EXCLUDED.payload_hash
  RETURNING\<close>: the row checks come first, then the identity index of the statement, which answers with
  the existing row or with no row at all, then the remaining unique index. The identity default of the
  proposed row is drawn before the conflict is found, so a conflict leaves a gap in the ids.\<close>

definition outbox_insert ::
  "ev_env \<Rightarrow> events_db \<Rightarrow> outbox_event \<Rightarrow> ev_error + events_db \<times> int \<times> int \<times> bool" where
  "outbox_insert e db r =
     (case ev_fault e AppendInsert of
        Some p \<Rightarrow> Inl (EvStorage p)
      | None \<Rightarrow>
          (case outbox_check r of
             Some name \<Rightarrow> Inl (EvStorage (PgError ''23514'' name))
           | None \<Rightarrow>
               (case find (identity_clash r) (outbox_t db) of
                  Some s \<Rightarrow> if ob_PayloadHash s = ob_PayloadHash r
                    then Inr (db\<lparr>outbox_seq := outbox_seq db + 1\<rparr>, ob_ID s, ob_AggregateVersion s, False)
                    else Inl EvNoRows
                | None \<Rightarrow>
                    if has_row (\<lambda>s. ob_EventID s = ob_EventID r) (outbox_t db)
                    then Inl (EvStorage (PgError ''23505'' ''outbox_events_event_id_uniq''))
                    else let n = outbox_seq db + 1 in
                      Inr (db\<lparr>outbox_t := outbox_t db @ [r\<lparr>ob_ID := n\<rparr>], outbox_seq := n\<rparr>,
                           n, ob_AggregateVersion r, True))))"

definition obligation_mapping :: "string \<Rightarrow> string \<Rightarrow> bool" where
  "obligation_mapping aggregateType eventType \<longleftrightarrow>
     aggregateType = ''deposit_observation'' \<and> eventType \<in> {''deposit.observation.created'',
       ''deposit.observation.status_changed'', ''deposit.observation.reinstated'',
       ''deposit.confirmation.confirmed'', ''deposit.revision.applied''}
     \<or> aggregateType = ''withdrawal_request'' \<and> eventType = ''withdrawal.request.received''
     \<or> aggregateType = ''withdrawal_intent'' \<and> eventType \<in> {''withdrawal.execution.state_changed'',
       ''withdrawal.execution.revised''}"

definition obligation_check :: "obligation \<Rightarrow> string option" where
  "obligation_check g = first_violation
     [(''event_obligation_aggregate_id_shape'',
         1 \<le> char_length (og_AggregateID g) \<and> char_length (og_AggregateID g) \<le> 512),
      (''event_obligation_aggregate_version_check'', og_AggregateVersion g > 0),
      (''event_obligation_mapping_check'',
         obligation_mapping (og_AggregateType g) (og_ExpectedEventType g)),
      (''event_obligation_source_id_shape'', char_length (og_SourceID g) \<le> 512),
      (''event_obligation_source_kind_shape'', char_length (og_SourceKind g) \<le> 128),
      (''event_obligation_source_version_check'',
         case og_SourceVersion g of None \<Rightarrow> True | Some v \<Rightarrow> v > 0)]"

definition same_obligation :: "obligation \<Rightarrow> obligation \<Rightarrow> bool" where
  "same_obligation g h \<longleftrightarrow> og_AggregateType g = og_AggregateType h
     \<and> og_AggregateID g = og_AggregateID h \<and> og_AggregateVersion g = og_AggregateVersion h
     \<and> og_ExpectedEventType g = og_ExpectedEventType h"

definition obligation_insert :: "ev_env \<Rightarrow> events_db \<Rightarrow> obligation \<Rightarrow> ev_error + events_db" where
  "obligation_insert e db g =
     (case ev_fault e ObligationInsert of
        Some p \<Rightarrow> Inl (EvStorage p)
      | None \<Rightarrow>
          (case obligation_check g of
             Some name \<Rightarrow> Inl (EvStorage (PgError ''23514'' name))
           | None \<Rightarrow>
               if has_row (same_obligation g) (obligation_t db) then Inr db
               else Inr (db\<lparr>obligation_t := obligation_t db @ [g]\<rparr>)))"

section \<open>Append\<close>

record append_result =
  ap_EventID :: string
  ap_OutboxID :: int
  ap_AggregateVersion :: int
  ap_Noop :: bool

definition ClassifyPGError :: "ev_error \<Rightarrow> ev_error" where
  "ClassifyPGError err =
     (case err of
        EvStorage (PgError code name) \<Rightarrow>
          if code = ''23505'' then
            (if name \<in> {''outbox_events_object_identity_uniq'', ''outbox_events_log_identity_uniq'',
                        ''outbox_events_event_id_uniq''}
             then ErrIdentityConflict name else ErrContract (UnexpectedUnique name))
          else if code = ''23514'' then ErrContract (CheckViolation name)
          else err
      | _ \<Rightarrow> err)"

text \<open>The arithmetic of \<^verbatim>\<open>int64\<close>.\<close>

definition int64 :: "int \<Rightarrow> int" where
  "int64 n = sint (word_of_int n :: 64 word)"

definition aggregate_max :: "events_db \<Rightarrow> string \<Rightarrow> string \<Rightarrow> int" where
  "aggregate_max db t i =
     (let vs = map ob_AggregateVersion
                (filter (\<lambda>r. ob_AggregateType r = t \<and> ob_AggregateID r = i) (outbox_t db))
      in if vs = [] then 0 else Max (set vs))"

definition naturalKeyFor :: "event \<Rightarrow> int \<Rightarrow> string" where
  "naturalKeyFor ev v =
     (if evt_IdentityKind ev = IdentityKindEVMLog
      then EVMLogNaturalKey (evt_ChainID ev) (evt_BlockHash ev) (evt_TxHash ev) (evt_LogIndex ev)
      else BusinessObjectNaturalKey (evt_AggregateType ev) (evt_AggregateID ev) v)"

definition nullableInt64 :: "int \<Rightarrow> int option" where
  "nullableInt64 v = (if v = 0 then None else Some v)"

definition nullableString :: "string \<Rightarrow> string option" where
  "nullableString v = (if v = [] then None else Some v)"

text \<open>The columns \<^verbatim>\<open>appendArgs\<close> passes, with the literal kind of the two statements and the defaults of the
  table.\<close>

definition appendArgs :: "ev_env \<Rightarrow> event \<Rightarrow> string \<Rightarrow> outbox_event" where
  "appendArgs e ev eventID =
     (let evm = (evt_IdentityKind ev = IdentityKindEVMLog) in
      \<lparr>ob_ID = 0, ob_EventID = eventID,
       ob_IdentityKind = (if evm then IdentityKindEVMLog else IdentityKindBusinessObject),
       ob_EventType = evt_EventType ev, ob_SchemaVersion = evt_SchemaVersion ev,
       ob_AggregateType = evt_AggregateType ev, ob_AggregateID = evt_AggregateID ev,
       ob_AggregateVersion = evt_AggregateVersion ev,
       ob_Payload = (case evt_payloadJSON ev of None \<Rightarrow> [] | Some t \<Rightarrow> t),
       ob_PayloadHash = evt_payloadHash ev,
       ob_OccurredAt = (case evt_OccurredAt ev of None \<Rightarrow> 0 | Some t \<Rightarrow> t),
       ob_ChainID = nullableInt64 (evt_ChainID ev),
       ob_BlockNumber = nullableInt64 (evt_BlockNumber ev),
       ob_BlockHash = nullableString (evt_BlockHash ev),
       ob_TxHash = (if evm then Some (evt_TxHash ev) else None),
       ob_LogIndex = (if evm then Some (evt_LogIndex ev) else None),
       ob_RecoveryVersion = nullableInt64 (evt_RecoveryVersion ev),
       ob_RevisesEventID = evt_RevisesEventID ev,
       ob_SourceKind = nullableString (evt_SourceKind ev),
       ob_SourceID = nullableString (evt_SourceID ev),
       ob_SourceVersion = nullableInt64 (evt_SourceVersion ev),
       ob_PublishState = PublishStatePending, ob_AttemptCount = 0, ob_NextAttemptAt = ev_now e,
       ob_ClaimOwner = None, ob_ClaimExpiresAt = None, ob_LastErrorClass = None,
       ob_PublishedAt = None, ob_CreatedAt = ev_now e\<rparr>)"

definition obligation_of :: "event \<Rightarrow> int \<Rightarrow> obligation" where
  "obligation_of ev storedVersion =
     \<lparr>og_AggregateType = evt_AggregateType ev, og_AggregateID = evt_AggregateID ev,
      og_AggregateVersion = storedVersion, og_ExpectedEventType = evt_EventType ev,
      og_ObligatedAt = (case evt_OccurredAt ev of None \<Rightarrow> 0 | Some t \<Rightarrow> t),
      og_SourceKind = evt_SourceKind ev, og_SourceID = evt_SourceID ev,
      og_SourceVersion = nullableInt64 (evt_SourceVersion ev)\<rparr>"

text \<open>The append with a derived version: insert, then the expectation marker of an inserted row. A refusal
  of the insert is an identity conflict when the identity index or the event id index refused it.\<close>

definition append_at ::
  "(string \<Rightarrow> string) \<Rightarrow> ev_env \<Rightarrow> events_db \<Rightarrow> event \<Rightarrow> ev_error + events_db \<times> append_result" where
  "append_at uuid5 e db prepared =
     (let eventID = NewEventID uuid5 (naturalKeyFor prepared (evt_AggregateVersion prepared)) in
      case outbox_insert e db (appendArgs e prepared eventID) of
        Inl err \<Rightarrow>
          (case (err, ClassifyPGError err) of
             (EvNoRows, _) \<Rightarrow> Inl (ErrIdentityConflict (evt_EventType prepared))
           | (_, ErrIdentityConflict _) \<Rightarrow> Inl (ErrIdentityConflict (evt_EventType prepared))
           | (_, classified) \<Rightarrow> Inl classified)
      | Inr (db1, outboxID, storedVersion, inserted) \<Rightarrow>
          rbind (if inserted
                 then map_err ClassifyPGError (obligation_insert e db1 (obligation_of prepared storedVersion))
                 else Inr db1) (\<lambda>db2.
            Inr (db2, \<lparr>ap_EventID = eventID, ap_OutboxID = outboxID,
                       ap_AggregateVersion = storedVersion, ap_Noop = \<not> inserted\<rparr>)))"

definition Append ::
  "(string \<Rightarrow> string) \<Rightarrow> ev_env \<Rightarrow> events_db \<Rightarrow> event \<Rightarrow> ev_error + events_db \<times> append_result" where
  "Append uuid5 e db ev =
     rbind (prepare ev) (\<lambda>prepared.
       case ev_fault e AggregateVersionQuery of
         Some p \<Rightarrow> Inl (ClassifyPGError (EvStorage p))
       | None \<Rightarrow>
           let maxVersion = aggregate_max db (evt_AggregateType prepared) (evt_AggregateID prepared) in
           if maxVersion < 0 then Inl (ErrContract (NegativeHighWater maxVersion))
           else append_at uuid5 e db (prepared\<lparr>evt_AggregateVersion := int64 (maxVersion + 1)\<rparr>))"

section \<open>Publish-state updates\<close>

text \<open>The statements of \<^verbatim>\<open>outbox.go\<close>, each returning the ids of the rows it matched. Durations are in
  nanoseconds, as instants are.\<close>

definition claimable :: "instant \<Rightarrow> outbox_event \<Rightarrow> bool" where
  "claimable now r \<longleftrightarrow> ob_PublishState r = PublishStatePending \<and> ob_NextAttemptAt r \<le> now
     \<and> (ob_ClaimOwner r = None \<or>
        (case ob_ClaimExpiresAt r of None \<Rightarrow> True | Some t \<Rightarrow> t \<le> now))"

definition ClaimPendingSQL :: "instant \<Rightarrow> nat \<Rightarrow> events_db \<Rightarrow> outbox_event list" where
  "ClaimPendingSQL now batch db = take batch (sort_key ob_ID (filter (claimable now) (outbox_t db)))"

definition update_outbox ::
  "(outbox_event \<Rightarrow> bool) \<Rightarrow> (outbox_event \<Rightarrow> outbox_event) \<Rightarrow> events_db \<Rightarrow> events_db \<times> int list" where
  "update_outbox P f db =
     (db\<lparr>outbox_t := update_where P f (outbox_t db)\<rparr>, map ob_ID (filter P (outbox_t db)))"

definition ClaimMarkSQL :: "instant \<Rightarrow> int list \<Rightarrow> string \<Rightarrow> int \<Rightarrow> events_db \<Rightarrow> events_db \<times> int list" where
  "ClaimMarkSQL now ids owner lease =
     update_outbox (\<lambda>r. ob_ID r \<in> set ids \<and> ob_PublishState r = PublishStatePending)
       (\<lambda>r. r\<lparr>ob_ClaimOwner := Some owner, ob_ClaimExpiresAt := Some (now + lease),
              ob_AttemptCount := ob_AttemptCount r + 1\<rparr>)"

definition owned_pending :: "int list \<Rightarrow> string \<Rightarrow> outbox_event \<Rightarrow> bool" where
  "owned_pending ids owner r \<longleftrightarrow> ob_ID r \<in> set ids \<and> ob_ClaimOwner r = Some owner
     \<and> ob_PublishState r = PublishStatePending"

definition AckPublishedSQL :: "instant \<Rightarrow> int list \<Rightarrow> string \<Rightarrow> events_db \<Rightarrow> events_db \<times> int list" where
  "AckPublishedSQL now ids owner =
     update_outbox (owned_pending ids owner)
       (\<lambda>r. r\<lparr>ob_PublishState := PublishStatePublished, ob_PublishedAt := Some now,
              ob_ClaimOwner := None, ob_ClaimExpiresAt := None\<rparr>)"

definition ReleaseClaimSQL ::
  "instant \<Rightarrow> int list \<Rightarrow> string \<Rightarrow> int \<Rightarrow> string \<Rightarrow> events_db \<Rightarrow> events_db \<times> int list" where
  "ReleaseClaimSQL now ids owner backoff errorClass =
     update_outbox (owned_pending ids owner)
       (\<lambda>r. r\<lparr>ob_ClaimOwner := None, ob_ClaimExpiresAt := None, ob_NextAttemptAt := now + backoff,
              ob_LastErrorClass := Some errorClass\<rparr>)"

definition ReleaseClaimImmediateSQL ::
  "instant \<Rightarrow> int list \<Rightarrow> string \<Rightarrow> events_db \<Rightarrow> events_db \<times> int list" where
  "ReleaseClaimImmediateSQL now ids owner =
     update_outbox (owned_pending ids owner)
       (\<lambda>r. r\<lparr>ob_ClaimOwner := None, ob_ClaimExpiresAt := None, ob_NextAttemptAt := now\<rparr>)"

definition BlockClaimSQL :: "int list \<Rightarrow> string \<Rightarrow> string \<Rightarrow> events_db \<Rightarrow> events_db \<times> int list" where
  "BlockClaimSQL ids owner errorClass =
     update_outbox (owned_pending ids owner)
       (\<lambda>r. r\<lparr>ob_PublishState := PublishStateBlocked, ob_LastErrorClass := Some errorClass,
              ob_ClaimOwner := None, ob_ClaimExpiresAt := None\<rparr>)"

definition UnblockSQL :: "instant \<Rightarrow> int \<Rightarrow> events_db \<Rightarrow> events_db \<times> int list" where
  "UnblockSQL now i =
     update_outbox (\<lambda>r. ob_ID r = i \<and> ob_PublishState r = PublishStateBlocked)
       (\<lambda>r. r\<lparr>ob_PublishState := PublishStatePending, ob_LastErrorClass := None, ob_NextAttemptAt := now\<rparr>)"

definition prunable :: "instant \<Rightarrow> int \<Rightarrow> outbox_event \<Rightarrow> bool" where
  "prunable now retention r \<longleftrightarrow> ob_PublishState r = PublishStatePublished
     \<and> (case ob_PublishedAt r of None \<Rightarrow> False | Some t \<Rightarrow> t < now - retention)"

definition PruneSQL :: "instant \<Rightarrow> int \<Rightarrow> events_db \<Rightarrow> events_db \<times> int list" where
  "PruneSQL now retention db =
     (db\<lparr>outbox_t := filter (\<lambda>r. \<not> prunable now retention r) (outbox_t db)\<rparr>,
      map ob_ID (filter (prunable now retention) (outbox_t db)))"

definition BlockedCountSQL :: "events_db \<Rightarrow> nat" where
  "BlockedCountSQL db = count_where (\<lambda>r. ob_PublishState r = PublishStateBlocked) (outbox_t db)"

text \<open>\<open>RetryDelay\<close> on the durations of Go, which are \<^verbatim>\<open>int64\<close> and whose doubling can wrap. The jitter is the
  floating point scaling of a delay, a parameter.\<close>

fun double_delay :: "nat \<Rightarrow> int \<Rightarrow> int \<Rightarrow> int" where
  "double_delay 0 cap delay = delay"
| "double_delay (Suc n) cap delay =
     (if delay \<ge> cap then cap else double_delay n cap (int64 (delay * 2)))"

definition RetryDelay :: "int \<Rightarrow> int \<Rightarrow> int \<Rightarrow> (int \<Rightarrow> int) option \<Rightarrow> int" where
  "RetryDelay attempt base cap jitter =
     (let attempt = (if attempt < 1 then 1 else attempt);
          base = (if base \<le> 0 then 1000000000 else base);
          cap = (if cap \<le> 0 then base else cap);
          delay = double_delay (nat (attempt - 1)) cap base;
          delay = (if delay > cap then cap else delay);
          delay = (case jitter of None \<Rightarrow> delay | Some j \<Rightarrow> j delay)
      in if delay < 0 then 0 else delay)"

section \<open>Capacity\<close>

record capacity_limits =
  cl_Reserve :: int
  cl_SoftLimit :: int
  cl_HardLimit :: int

definition Configured :: "capacity_limits \<Rightarrow> bool" where
  "Configured l \<longleftrightarrow> cl_Reserve l > 0 \<and> cl_SoftLimit l > 0 \<and> cl_HardLimit l > 0"

datatype capacity_err = LimitsNotPositive | LimitsOrder int int int | NoCapacityPool
  | ObserveCapacity pg_error

definition Validate_limits :: "capacity_limits \<Rightarrow> capacity_err + unit" where
  "Validate_limits l =
     (if \<not> Configured l then Inl LimitsNotPositive
      else if \<not> (cl_Reserve l < cl_SoftLimit l \<and> cl_SoftLimit l < cl_HardLimit l)
      then Inl (LimitsOrder (cl_Reserve l) (cl_SoftLimit l) (cl_HardLimit l))
      else Inr ())"

datatype capacity_level = CapacityNormal | CapacitySoft | CapacityHard

definition capacity_level_str :: "capacity_level \<Rightarrow> string" where
  "capacity_level_str l = (case l of CapacityNormal \<Rightarrow> ''normal'' | CapacitySoft \<Rightarrow> ''soft''
     | CapacityHard \<Rightarrow> ''hard'')"

definition RefusesNewControllable :: "capacity_level \<Rightarrow> bool" where
  "RefusesNewControllable l \<longleftrightarrow> l \<noteq> CapacityNormal"

definition ClassifyCapacityLevel :: "int \<Rightarrow> capacity_limits \<Rightarrow> capacity_level" where
  "ClassifyCapacityLevel pending limits =
     (let pending = (if pending < 0 then 0 else pending) in
      if pending \<ge> cl_HardLimit limits then CapacityHard
      else if pending \<ge> cl_SoftLimit limits then CapacitySoft
      else CapacityNormal)"

text \<open>\<^verbatim>\<open>CapacitySQL\<close>: one row per event family (\<^verbatim>\<open>split_part(event_type, '.', 1)\<close>), with the number of its
  pending rows and the age of the oldest, here in nanoseconds; \<^verbatim>\<open>Observe\<close> adds them up.\<close>

record capacity_family =
  cf_EventFamily :: string
  cf_PendingCount :: int
  cf_OldestAge :: int

definition split_part1 :: "string \<Rightarrow> string" where
  "split_part1 s = fst (Cut (CHR ''.'') s)"

definition CapacitySQL :: "instant \<Rightarrow> events_db \<Rightarrow> capacity_family list" where
  "CapacitySQL now db =
     (let pending = filter (\<lambda>r. ob_PublishState r = PublishStatePending) (outbox_t db);
          families = sort (remdups (map (split_part1 \<circ> ob_EventType) pending))
      in map (\<lambda>f. let rows = filter (\<lambda>r. split_part1 (ob_EventType r) = f) pending
                  in \<lparr>cf_EventFamily = f, cf_PendingCount = int (length rows),
                      cf_OldestAge = now - Min (set (map ob_CreatedAt rows))\<rparr>) families)"

record capacity_snapshot =
  cs_Families :: "capacity_family list"
  cs_PendingTotal :: int
  cs_OldestAge :: int
  cs_Level :: capacity_level

definition Observe_capacity ::
  "capacity_limits \<Rightarrow> pg_error option \<Rightarrow> instant \<Rightarrow> events_db \<Rightarrow> capacity_err + capacity_snapshot" where
  "Observe_capacity limits query_fault now db =
     (case query_fault of
        Some p \<Rightarrow> Inl (ObserveCapacity p)
      | None \<Rightarrow>
          let families = CapacitySQL now db;
              total = foldl (\<lambda>n f. int64 (n + cf_PendingCount f)) 0 families;
              oldest = foldl (\<lambda>a f. if cf_OldestAge f > a then cf_OldestAge f else a) 0 families
          in Inr \<lparr>cs_Families = families, cs_PendingTotal = total, cs_OldestAge = oldest,
                  cs_Level = ClassifyCapacityLevel total limits\<rparr>)"

record capacity_admission =
  ca_Level :: capacity_level
  ca_PendingTotal :: int
  ca_OldestAge :: int
  ca_Refused :: bool

definition DecideAdmission :: "capacity_snapshot \<Rightarrow> capacity_admission" where
  "DecideAdmission s = \<lparr>ca_Level = cs_Level s, ca_PendingTotal = cs_PendingTotal s,
     ca_OldestAge = cs_OldestAge s, ca_Refused = RefusesNewControllable (cs_Level s)\<rparr>"

text \<open>The refusal counter is the second component: the operation class when a refusal is counted.\<close>

definition AdmitNewControllable ::
  "capacity_limits \<Rightarrow> pg_error option \<Rightarrow> instant \<Rightarrow> events_db \<Rightarrow> string
     \<Rightarrow> (capacity_err + capacity_admission) \<times> string option" where
  "AdmitNewControllable limits query_fault now db opClass =
     (case Observe_capacity limits query_fault now db of
        Inl err \<Rightarrow> (Inl err, None)
      | Inr snapshot \<Rightarrow>
          let admission = DecideAdmission snapshot
          in (Inr admission, if ca_Refused admission then Some opClass else None))"

end
