(* ===== verification/EventsOutboxSpec.thy ===== *)
theory EventsOutboxSpec
  imports EventsOutbox TxEvolution
begin

text \<open>
  Correctness of the transactional outbox: the invariant of its tables, the effect of \<open>Append\<close>, the
  operations as one transition relation \<open>outbox_step\<close> with the fate of every row along it, the versions
  of an emission stream with and without retention, and the admission rule of the capacity guard.
\<close>

section \<open>Invariant\<close>

definition outbox_inv :: "events_db \<Rightarrow> bool" where
  "outbox_inv db \<longleftrightarrow>
     distinct (map ob_ID (outbox_t db)) \<and> (\<forall>r \<in> set (outbox_t db). ob_ID r \<le> outbox_seq db) \<and>
     distinct (map ob_EventID (outbox_t db)) \<and>
     (\<forall>r \<in> set (outbox_t db). \<forall>s \<in> set (outbox_t db). same_object r s \<or> same_log r s \<longrightarrow> r = s) \<and>
     (\<forall>r \<in> set (outbox_t db). outbox_check r = None \<and> ob_AggregateVersion r < 2 ^ 63)"

lemma outbox_invD:
  assumes "outbox_inv db"
  shows "distinct (map ob_ID (outbox_t db))" and "distinct (map ob_EventID (outbox_t db))"
    and "r \<in> set (outbox_t db) \<Longrightarrow> ob_ID r \<le> outbox_seq db"
    and "r \<in> set (outbox_t db) \<Longrightarrow> outbox_check r = None"
    and "r \<in> set (outbox_t db) \<Longrightarrow> ob_AggregateVersion r < 2 ^ 63"
    and "r \<in> set (outbox_t db) \<Longrightarrow> s \<in> set (outbox_t db) \<Longrightarrow> same_object r s \<or> same_log r s \<Longrightarrow> r = s"
  using assms by (auto simp: outbox_inv_def)

lemma outbox_check_None:
  "outbox_check r = None \<longleftrightarrow>
     ob_AggregateVersion r > 0 \<and> ob_AttemptCount r \<ge> 0 \<and> IdentityKind_Valid (ob_IdentityKind r) \<and>
     (ob_IdentityKind r \<noteq> IdentityKindEVMLog \<or>
        ob_ChainID r \<noteq> None \<and> ob_BlockNumber r \<noteq> None \<and> ob_BlockHash r \<noteq> None
        \<and> ob_TxHash r \<noteq> None \<and> ob_LogIndex r \<noteq> None) \<and>
     PublishState_Valid (ob_PublishState r) \<and>
     (ob_RevisesEventID r = None \<or> ob_RecoveryVersion r \<noteq> None) \<and> ob_SchemaVersion r > 0 \<and>
     (ob_PublishState r = PublishStatePublished \<and> ob_PublishedAt r \<noteq> None \<or>
        (ob_PublishState r = PublishStatePending \<or> ob_PublishState r = PublishStateBlocked)
          \<and> ob_PublishedAt r = None) \<and>
     (ob_PublishState r \<noteq> PublishStateBlocked \<or> ob_LastErrorClass r \<noteq> None)"
  unfolding outbox_check_def first_violation_None by simp

text \<open>The columns no publish-state update touches.\<close>

definition ob_facts :: "outbox_event \<Rightarrow> outbox_event" where
  "ob_facts r = r\<lparr>ob_PublishState := PublishStatePending, ob_AttemptCount := 0, ob_NextAttemptAt := 0,
     ob_ClaimOwner := None, ob_ClaimExpiresAt := None, ob_LastErrorClass := None,
     ob_PublishedAt := None\<rparr>"

lemma ob_facts_columns:
  assumes "ob_facts r = ob_facts s"
  shows "ob_ID r = ob_ID s" "ob_EventID r = ob_EventID s" "ob_IdentityKind r = ob_IdentityKind s"
    "ob_AggregateType r = ob_AggregateType s" "ob_AggregateID r = ob_AggregateID s"
    "ob_AggregateVersion r = ob_AggregateVersion s" "ob_PayloadHash r = ob_PayloadHash s"
    "ob_ChainID r = ob_ChainID s" "ob_BlockHash r = ob_BlockHash s" "ob_BlockNumber r = ob_BlockNumber s"
    "ob_TxHash r = ob_TxHash s" "ob_LogIndex r = ob_LogIndex s" "ob_EventType r = ob_EventType s"
    "ob_SchemaVersion r = ob_SchemaVersion s" "ob_RevisesEventID r = ob_RevisesEventID s"
    "ob_RecoveryVersion r = ob_RecoveryVersion s"
  using assms by (cases r; cases s; simp add: ob_facts_def)+

section \<open>Append\<close>

definition aggregate_rows :: "events_db \<Rightarrow> string \<Rightarrow> string \<Rightarrow> outbox_event list" where
  "aggregate_rows db t i =
     filter (\<lambda>r. ob_AggregateType r = t \<and> ob_AggregateID r = i) (outbox_t db)"

lemma aggregate_max_eq:
  "aggregate_max db t i =
     (if aggregate_rows db t i = [] then 0
      else Max (ob_AggregateVersion ` set (aggregate_rows db t i)))"
  by (simp add: aggregate_max_def aggregate_rows_def Let_def)

lemma aggregate_max_upper:
  "r \<in> set (outbox_t db) \<Longrightarrow> ob_AggregateVersion r \<le> aggregate_max db (ob_AggregateType r) (ob_AggregateID r)"
  by (auto simp: aggregate_max_eq aggregate_rows_def filter_empty_conv intro!: Max_ge)

lemma aggregate_max_range:
  assumes "outbox_inv db"
  shows "0 \<le> aggregate_max db t i \<and> aggregate_max db t i < 2 ^ 63"
proof (cases "aggregate_rows db t i = []")
  case False
  then have "Max (ob_AggregateVersion ` set (aggregate_rows db t i)) \<in>
      ob_AggregateVersion ` set (aggregate_rows db t i)"
    by (intro Max_in) auto
  then obtain r where r: "r \<in> set (aggregate_rows db t i)"
    "Max (ob_AggregateVersion ` set (aggregate_rows db t i)) = ob_AggregateVersion r"
    by (rule imageE)
  then have "r \<in> set (outbox_t db)" by (simp add: aggregate_rows_def)
  with outbox_invD(4,5) [OF assms this] r(2) False show ?thesis
    by (simp add: aggregate_max_eq outbox_check_None)
qed (simp add: aggregate_max_eq)

lemma int64_small: "- (2 ^ 63) \<le> n \<Longrightarrow> n < 2 ^ 63 \<Longrightarrow> int64 n = n"
  by (simp add: int64_def signed_of_int signed_take_bit_int_eq_self)

lemma int64_wraps: "int64 (2 ^ 63) = - (2 ^ 63)"
  by (simp add: int64_def)

lemma int64_next:
  assumes "0 \<le> n" and "n < 2 ^ 63" and "0 < int64 (n + 1)"
  shows "int64 (n + 1) = n + 1" and "n + 1 < 2 ^ 63"
proof -
  have "n + 1 \<noteq> 2 ^ 63"
  proof
    assume "n + 1 = 2 ^ 63"
    then have "int64 (n + 1) = - (2 ^ 63)" by (simp only: int64_wraps)
    with assms(3) show False by simp
  qed
  with assms show "n + 1 < 2 ^ 63" by linarith
  with assms show "int64 (n + 1) = n + 1" by (intro int64_small) auto
qed

text \<open>What a successful insert did.\<close>

lemma outbox_insert_Inr:
  assumes "outbox_insert e db r = Inr (db', n, v, inserted)"
  shows "outbox_check r = None"
    and "inserted \<Longrightarrow> db' = db\<lparr>outbox_t := outbox_t db @ [r\<lparr>ob_ID := outbox_seq db + 1\<rparr>], outbox_seq := outbox_seq db + 1\<rparr>
      \<and> n = outbox_seq db + 1 \<and> v = ob_AggregateVersion r
      \<and> \<not> has_row (\<lambda>s. ob_EventID s = ob_EventID r) (outbox_t db)
      \<and> find (identity_clash r) (outbox_t db) = None"
    and "\<not> inserted \<Longrightarrow> db' = db\<lparr>outbox_seq := outbox_seq db + 1\<rparr> \<and> (\<exists>s. find (identity_clash r) (outbox_t db) = Some s
      \<and> ob_PayloadHash s = ob_PayloadHash r \<and> n = ob_ID s \<and> v = ob_AggregateVersion s)"
  using assms
  by (auto simp: outbox_insert_def Let_def split: option.splits if_splits)

lemma obligation_insert_Inr:
  "obligation_insert e db g = Inr db' \<Longrightarrow>
     outbox_t db' = outbox_t db \<and> outbox_seq db' = outbox_seq db \<and>
     obligation_t db' = (if has_row (same_obligation g) (obligation_t db) then obligation_t db
       else obligation_t db @ [g])"
  by (auto simp: obligation_insert_def split: option.splits if_splits)

text \<open>The row and the version an event gets.\<close>

definition next_version :: "events_db \<Rightarrow> event \<Rightarrow> int" where
  "next_version db ev = int64 (aggregate_max db (evt_AggregateType ev) (evt_AggregateID ev) + 1)"

definition new_row :: "(string \<Rightarrow> string) \<Rightarrow> ev_env \<Rightarrow> events_db \<Rightarrow> event \<Rightarrow> outbox_event" where
  "new_row uuid5 e db ev = (let v = next_version db ev
     in (appendArgs e (ev\<lparr>evt_AggregateVersion := v\<rparr>) (uuid5 (naturalKeyFor ev v)))\<lparr>ob_ID := outbox_seq db + 1\<rparr>)"

lemma appendArgs_columns [simp]:
  "ob_EventID (appendArgs e ev i) = i" "ob_AggregateType (appendArgs e ev i) = evt_AggregateType ev"
  "ob_AggregateID (appendArgs e ev i) = evt_AggregateID ev"
  "ob_AggregateVersion (appendArgs e ev i) = evt_AggregateVersion ev"
  "ob_EventType (appendArgs e ev i) = evt_EventType ev"
  "ob_PayloadHash (appendArgs e ev i) = evt_payloadHash ev"
  "ob_SchemaVersion (appendArgs e ev i) = evt_SchemaVersion ev"
  "ob_PublishState (appendArgs e ev i) = PublishStatePending"
  "ob_PublishedAt (appendArgs e ev i) = None" "ob_AttemptCount (appendArgs e ev i) = 0"
  "ob_IdentityKind (appendArgs e ev i) =
     (if evt_IdentityKind ev = IdentityKindEVMLog then IdentityKindEVMLog else IdentityKindBusinessObject)"
  by (simp_all add: appendArgs_def Let_def)

lemma naturalKeyFor_version [simp]:
  "naturalKeyFor (ev\<lparr>evt_AggregateVersion := w\<rparr>) v = naturalKeyFor ev v"
  by (simp add: naturalKeyFor_def)

lemma identity_clash_id [simp]: "identity_clash (r\<lparr>ob_ID := k\<rparr>) = identity_clash r"
  by (intro ext) (simp add: identity_clash_def same_log_def same_object_def)

text \<open>What a successful append did to the tables: it drew an id, and no more when the identity already had a
  row with this payload; otherwise one new row and its expectation marker.\<close>

definition appended_as ::
  "(string \<Rightarrow> string) \<Rightarrow> ev_env \<Rightarrow> events_db \<Rightarrow> event \<Rightarrow> events_db \<Rightarrow> append_result \<Rightarrow> bool" where
  "appended_as uuid5 e db p db' res \<longleftrightarrow>
     outbox_check (new_row uuid5 e db p) = None \<and>
     ap_EventID res = uuid5 (naturalKeyFor p (next_version db p)) \<and>
     (if ap_Noop res
      then db' = db\<lparr>outbox_seq := outbox_seq db + 1\<rparr> \<and> (\<exists>s. find (identity_clash (new_row uuid5 e db p)) (outbox_t db) = Some s
        \<and> ob_PayloadHash s = evt_payloadHash p \<and> ap_OutboxID res = ob_ID s
        \<and> ap_AggregateVersion res = ob_AggregateVersion s)
      else outbox_t db' = outbox_t db @ [new_row uuid5 e db p] \<and> outbox_seq db' = outbox_seq db + 1
        \<and> ap_OutboxID res = outbox_seq db + 1 \<and> ap_AggregateVersion res = next_version db p
        \<and> obligation_t db' = (let g = obligation_of p (next_version db p) in
            if has_row (same_obligation g) (obligation_t db) then obligation_t db else obligation_t db @ [g])
        \<and> \<not> has_row (\<lambda>s. ob_EventID s = ap_EventID res) (outbox_t db)
        \<and> find (identity_clash (new_row uuid5 e db p)) (outbox_t db) = None)"

lemma Append_Inr:
  assumes "Append uuid5 e db ev = Inr (db', res)"
  obtains p where "prepare ev = Inr p" and "appended_as uuid5 e db p db' res"
proof -
  from assms obtain p where p: "prepare ev = Inr p"
    and at: "append_at uuid5 e db (p\<lparr>evt_AggregateVersion := next_version db p\<rparr>) = Inr (db', res)"
    by (auto simp: Append_def rbind_eq_Inr next_version_def Let_def split: option.splits if_splits)
  let ?v = "next_version db p" and ?p = "p\<lparr>evt_AggregateVersion := next_version db p\<rparr>"
  let ?id = "uuid5 (naturalKeyFor p ?v)"
  let ?r = "appendArgs e ?p ?id"
  from at obtain db1 n v ins where ins: "outbox_insert e db ?r = Inr (db1, n, v, ins)"
    and db': "if ins then obligation_insert e db1 (obligation_of ?p v) = Inr db' else db' = db1"
    and res: "res = \<lparr>ap_EventID = ?id, ap_OutboxID = n, ap_AggregateVersion = v, ap_Noop = \<not> ins\<rparr>"
    by (auto simp: append_at_def Let_def NewEventID_def rbind_eq_Inr map_err_eq_Inr
        split: sum.splits ev_error.splits prod.splits if_splits)
  have row: "new_row uuid5 e db p = ?r\<lparr>ob_ID := outbox_seq db + 1\<rparr>"
    by (simp add: new_row_def Let_def)
  have ob: "obligation_of ?p w = obligation_of p w" for w by (simp add: obligation_of_def)
  note facts = outbox_insert_Inr [OF ins]
  have ok: "outbox_check (new_row uuid5 e db p) = None"
    using facts(1) by (simp add: row outbox_check_def)
  have "appended_as uuid5 e db p db' res"
  proof (cases ins)
    case True
    with ok facts(2) db' obligation_insert_Inr [of e db1 "obligation_of ?p v" db'] show ?thesis
      by (simp add: appended_as_def res ob row Let_def)
  next
    case False
    with ok facts(3) db' show ?thesis by (auto simp: appended_as_def res row)
  qed
  with p that show ?thesis by blast
qed

section \<open>Every operation keeps the invariant\<close>

lemma same_facts:
  assumes "ob_facts r = ob_facts r'" and "ob_facts s = ob_facts s'"
  shows "same_object r s \<longleftrightarrow> same_object r' s'" and "same_log r s \<longleftrightarrow> same_log r' s'"
  using ob_facts_columns [OF assms(1)] ob_facts_columns [OF assms(2)]
  by (simp_all add: same_object_def same_log_def)

lemma update_outbox_inv:
  assumes inv: "outbox_inv db"
    and f: "\<And>r. P r \<Longrightarrow> outbox_check r = None \<Longrightarrow> ob_facts (f r) = ob_facts r \<and> outbox_check (f r) = None"
  shows "outbox_inv (fst (update_outbox P f db))"
proof -
  define g where "g r = (if P r then f r else r)" for r
  have facts: "ob_facts (g r) = ob_facts r" and ok: "outbox_check (g r) = None"
    if "r \<in> set (outbox_t db)" for r
    using outbox_invD(4) [OF inv that] f by (auto simp: g_def)
  note col = ob_facts_columns [OF facts]
  have same: "g r = g s" if "r \<in> set (outbox_t db)" "s \<in> set (outbox_t db)"
    "same_object (g r) (g s) \<or> same_log (g r) (g s)" for r s
    using outbox_invD(6) [OF inv that(1,2)] that(3) same_facts [OF facts facts] that(1,2) by metis
  have t: "outbox_t (fst (update_outbox P f db)) = map g (outbox_t db)"
    and q: "outbox_seq (fst (update_outbox P f db)) = outbox_seq db"
    by (simp_all add: update_outbox_def update_where_def g_def)
  have ids: "map ob_ID (map g (outbox_t db)) = map ob_ID (outbox_t db)"
    and eids: "map ob_EventID (map g (outbox_t db)) = map ob_EventID (outbox_t db)"
    using col by simp_all
  show ?thesis
    unfolding outbox_inv_def t q ids eids
    using outbox_invD [OF inv] col(1,6) ok same by simp
qed

lemma update_outbox_rows:
  assumes "r \<in> set (outbox_t db)" and "P r \<Longrightarrow> ob_facts (f r) = ob_facts r \<and> S (f r)" and "\<not> P r \<Longrightarrow> S r"
  shows "\<exists>r' \<in> set (outbox_t (fst (update_outbox P f db))). ob_facts r' = ob_facts r \<and> S r'"
proof -
  have "(if P r then f r else r) \<in> set (outbox_t (fst (update_outbox P f db)))"
    using assms(1) by (auto simp: update_outbox_def update_where_def)
  with assms(2,3) show ?thesis by (cases "P r") auto
qed

lemma prune_inv: "outbox_inv db \<Longrightarrow> outbox_inv (fst (PruneSQL now ret db))"
  by (auto simp: outbox_inv_def PruneSQL_def distinct_map_filter)

lemma no_clash:
  assumes "find (identity_clash r) t = None" and "s \<in> set t" and "IdentityKind_Valid (ob_IdentityKind r)"
  shows "\<not> same_object r s" and "\<not> same_log r s"
  using assms
  by (auto simp: find_None_set identity_clash_def same_object_def same_log_def IdentityKind_Valid_def
      split: if_splits)

lemma same_object_sym: "same_object r s \<Longrightarrow> same_object s r"
  by (simp add: same_object_def)

lemma same_log_sym: "same_log r s \<Longrightarrow> same_log s r"
  unfolding same_log_def by (elim conjE, intro conjI) simp_all

lemma new_row_columns [simp]:
  "ob_ID (new_row uuid5 e db ev) = outbox_seq db + 1"
  "ob_AggregateType (new_row uuid5 e db ev) = evt_AggregateType ev"
  "ob_AggregateID (new_row uuid5 e db ev) = evt_AggregateID ev"
  "ob_AggregateVersion (new_row uuid5 e db ev) = next_version db ev"
  "ob_EventID (new_row uuid5 e db ev) = uuid5 (naturalKeyFor ev (next_version db ev))"
  "ob_PublishState (new_row uuid5 e db ev) = PublishStatePending"
  by (simp_all add: new_row_def Let_def)

lemma appended_version:
  assumes "outbox_inv db" and "appended_as uuid5 e db p db' res"
  shows "next_version db p = aggregate_max db (evt_AggregateType p) (evt_AggregateID p) + 1"
    and "next_version db p < 2 ^ 63"
proof -
  have "0 < next_version db p" using assms(2) by (simp add: appended_as_def outbox_check_None)
  with int64_next [of "aggregate_max db (evt_AggregateType p) (evt_AggregateID p)"]
    aggregate_max_range [OF assms(1), of "evt_AggregateType p" "evt_AggregateID p"]
  show "next_version db p = aggregate_max db (evt_AggregateType p) (evt_AggregateID p) + 1"
    and "next_version db p < 2 ^ 63" by (simp_all add: next_version_def)
qed

lemma appended_inv:
  assumes inv: "outbox_inv db" and app: "appended_as uuid5 e db p db' res"
  shows "outbox_inv db'"
proof (cases "ap_Noop res")
  case False
  let ?r = "new_row uuid5 e db p"
  from False app have t: "outbox_t db' = outbox_t db @ [?r]" and q: "outbox_seq db' = outbox_seq db + 1"
    and new: "\<not> has_row (\<lambda>s. ob_EventID s = ap_EventID res) (outbox_t db)"
    and clash: "find (identity_clash ?r) (outbox_t db) = None" and ok: "outbox_check ?r = None"
    and id: "ap_EventID res = uuid5 (naturalKeyFor p (next_version db p))"
    by (auto simp: appended_as_def)
  have "\<not> same_object ?r s" "\<not> same_log ?r s" "\<not> same_object s ?r" "\<not> same_log s ?r"
    if "s \<in> set (outbox_t db)" for s
    using no_clash [OF clash that] ok by (auto simp: outbox_check_None dest: same_object_sym same_log_sym)
  moreover have "ob_ID s \<noteq> outbox_seq db + 1" if "s \<in> set (outbox_t db)" for s
    using outbox_invD(3) [OF inv that] by simp
  ultimately show ?thesis
    using inv new ok id appended_version(2) [OF inv app]
    by (fastforce simp: outbox_inv_def t q has_row_iff)
qed (use app inv in \<open>auto simp: appended_as_def outbox_inv_def\<close>)

lemma Append_inv: "outbox_inv db \<Longrightarrow> Append uuid5 e db ev = Inr (db', res) \<Longrightarrow> outbox_inv db'"
  by (blast elim: Append_Inr intro: appended_inv)

section \<open>The outbox as a transition system\<close>

datatype outbox_op = OpAppend append_result | OpClaim string "int list" | OpAck string "int list"
  | OpRelease string "int list" | OpBlock string "int list" | OpUnblock int | OpPrune

inductive outbox_step :: "(string \<Rightarrow> string) \<Rightarrow> events_db \<Rightarrow> outbox_op \<Rightarrow> events_db \<Rightarrow> bool"
  for uuid5 where
  appended: "Append uuid5 e db ev = Inr (db', res) \<Longrightarrow> outbox_step uuid5 db (OpAppend res) db'"
| claimed: "db' = fst (ClaimMarkSQL now ids owner lease db) \<Longrightarrow> outbox_step uuid5 db (OpClaim owner ids) db'"
| acked: "db' = fst (AckPublishedSQL now ids owner db) \<Longrightarrow> outbox_step uuid5 db (OpAck owner ids) db'"
| released: "db' = fst (ReleaseClaimSQL now ids owner backoff cls db) \<Longrightarrow>
    outbox_step uuid5 db (OpRelease owner ids) db'"
| released_now: "db' = fst (ReleaseClaimImmediateSQL now ids owner db) \<Longrightarrow>
    outbox_step uuid5 db (OpRelease owner ids) db'"
| blocked: "db' = fst (BlockClaimSQL ids owner cls db) \<Longrightarrow> outbox_step uuid5 db (OpBlock owner ids) db'"
| unblocked: "db' = fst (UnblockSQL now i db) \<Longrightarrow> outbox_step uuid5 db (OpUnblock i) db'"
| pruned: "db' = fst (PruneSQL now retention db) \<Longrightarrow> outbox_step uuid5 db OpPrune db'"

inductive outbox_trace :: "(string \<Rightarrow> string) \<Rightarrow> events_db \<Rightarrow> outbox_op list \<Rightarrow> events_db \<Rightarrow> bool"
  for uuid5 where
  outbox_trace_nil: "outbox_trace uuid5 db [] db"
| outbox_trace_cons: "outbox_step uuid5 db x db1 \<Longrightarrow> outbox_trace uuid5 db1 xs db2 \<Longrightarrow>
    outbox_trace uuid5 db (x # xs) db2"

inductive_simps outbox_trace_simps [simp]:
  "outbox_trace uuid5 db [] db'" "outbox_trace uuid5 db (x # xs) db'"

lemmas publish_updates = ClaimMarkSQL_def AckPublishedSQL_def ReleaseClaimSQL_def
  ReleaseClaimImmediateSQL_def BlockClaimSQL_def UnblockSQL_def

text \<open>Every step but an append and a prune is an update that keeps the facts and the checks of its rows and
  moves their state along the machine.\<close>

definition publish_move :: "(outbox_event \<Rightarrow> bool) \<Rightarrow> (outbox_event \<Rightarrow> outbox_event) \<Rightarrow> bool" where
  "publish_move P f \<longleftrightarrow> (\<forall>r. P r \<longrightarrow> outbox_check r = None \<longrightarrow>
     ob_facts (f r) = ob_facts r \<and> outbox_check (f r) = None \<and>
     (ob_PublishState (f r) = ob_PublishState r \<or>
      PublishCanTransition (ob_PublishState r) (ob_PublishState (f r))))"

lemma outbox_step_cases:
  assumes "outbox_step uuid5 db x db'"
  obtains (append) e ev res where "x = OpAppend res" "Append uuid5 e db ev = Inr (db', res)"
  | (update) P f where "db' = fst (update_outbox P f db)" "publish_move P f"
      "\<And>r. P r \<Longrightarrow> ob_PublishState (f r) = PublishStatePublished \<Longrightarrow>
        ob_PublishState r \<noteq> PublishStatePublished \<Longrightarrow>
        (\<exists>owner ids. x = OpAck owner ids \<and> ob_ID r \<in> set ids \<and> ob_ClaimOwner r = Some owner)"
      "\<forall>res. x \<noteq> OpAppend res" "x \<noteq> OpPrune"
  | (prune) now ret where "x = OpPrune" "db' = fst (PruneSQL now ret db)"
  using assms
proof cases
  case (claimed now ids owner lease)
  then show ?thesis
    by (intro update [of "\<lambda>r. ob_ID r \<in> set ids \<and> ob_PublishState r = PublishStatePending"])
      (auto simp: publish_updates publish_move_def ob_facts_def outbox_check_None)
next
  case (acked now ids owner)
  then show ?thesis
    by (intro update [of "owned_pending ids owner"])
      (auto simp: publish_updates publish_move_def ob_facts_def outbox_check_None owned_pending_def
        PublishCanTransition_def PublishState_Valid_def)
next
  case (released now ids owner backoff cls)
  then show ?thesis
    by (intro update [of "owned_pending ids owner"])
      (auto simp: publish_updates publish_move_def ob_facts_def outbox_check_None owned_pending_def)
next
  case (released_now now ids owner)
  then show ?thesis
    by (intro update [of "owned_pending ids owner"])
      (auto simp: publish_updates publish_move_def ob_facts_def outbox_check_None owned_pending_def)
next
  case (blocked ids owner cls)
  then show ?thesis
    by (intro update [of "owned_pending ids owner"])
      (auto simp: publish_updates publish_move_def ob_facts_def outbox_check_None owned_pending_def
        PublishCanTransition_def PublishState_Valid_def)
next
  case (unblocked now i)
  then show ?thesis
    by (intro update [of "\<lambda>r. ob_ID r = i \<and> ob_PublishState r = PublishStateBlocked"])
      (auto simp: publish_updates publish_move_def ob_facts_def outbox_check_None
        PublishCanTransition_def PublishState_Valid_def)
qed (blast intro: append prune)+

lemma outbox_step_inv: "outbox_step uuid5 db x db' \<Longrightarrow> outbox_inv db \<Longrightarrow> outbox_inv db'"
  by (erule outbox_step_cases)
    (auto simp: publish_move_def intro!: update_outbox_inv prune_inv intro: Append_inv)

interpretation outbox_system: kept_along "outbox_step uuid5" "outbox_trace uuid5" outbox_inv
  "\<lambda>_ _. True" "\<lambda>_. True" for uuid5
  by unfold_locales (auto intro: outbox_step_inv)

section \<open>No event is lost\<close>

definition unpublished :: "outbox_event \<Rightarrow> bool" where
  "unpublished r \<longleftrightarrow> ob_PublishState r = PublishStatePending \<or> ob_PublishState r = PublishStateBlocked"

definition acks :: "int \<Rightarrow> outbox_op \<Rightarrow> bool" where
  "acks i x \<longleftrightarrow> (\<exists>owner ids. x = OpAck owner ids \<and> i \<in> set ids)"

definition waiting :: "outbox_event \<Rightarrow> events_db \<Rightarrow> bool" where
  "waiting r db \<longleftrightarrow> (\<exists>r' \<in> set (outbox_t db). ob_facts r' = ob_facts r \<and> unpublished r')"

lemma check_state: "outbox_check r = None \<Longrightarrow> unpublished r \<longleftrightarrow> ob_PublishState r \<noteq> PublishStatePublished"
  by (auto simp: outbox_check_None unpublished_def)

lemma waiting_step:
  assumes step: "outbox_step uuid5 db x db'" and inv: "outbox_inv db" and w: "waiting r db"
    and na: "\<not> acks (ob_ID r) x"
  shows "waiting r db'"
proof -
  from w obtain s where s: "s \<in> set (outbox_t db)" "ob_facts s = ob_facts r" "unpublished s"
    by (auto simp: waiting_def)
  note ok = outbox_invD(4) [OF inv s(1)]
  from step show ?thesis
  proof (cases rule: outbox_step_cases)
    case (append e ev res)
    from append(2) show ?thesis
      by (rule Append_Inr) (use s in \<open>auto simp: waiting_def appended_as_def split: if_splits\<close>)
  next
    case (update P f)
    have "\<exists>r' \<in> set (outbox_t (fst (update_outbox P f db))). ob_facts r' = ob_facts s \<and> unpublished r'"
    proof (rule update_outbox_rows [OF s(1)])
      assume "P s"
      with update(2) ok have f: "ob_facts (f s) = ob_facts s" "outbox_check (f s) = None"
        by (auto simp: publish_move_def)
      moreover have "ob_PublishState (f s) \<noteq> PublishStatePublished"
        using update(3) [OF \<open>P s\<close>] na s(3) ob_facts_columns(1) [OF s(2)]
        by (auto simp: acks_def unpublished_def)
      ultimately show "ob_facts (f s) = ob_facts s \<and> unpublished (f s)" by (simp add: check_state)
    qed (use s in simp)
    with update(1) s(2) show ?thesis by (simp add: waiting_def)
  next
    case (prune now ret)
    with s show ?thesis
      by (auto simp: waiting_def PruneSQL_def prunable_def unpublished_def)
  qed
qed

interpretation waiting_row: kept_along "outbox_step uuid5" "outbox_trace uuid5"
  "\<lambda>db. outbox_inv db \<and> waiting r db" "\<lambda>_ _. True" "\<lambda>x. \<not> acks (ob_ID r) x" for uuid5 r
  by unfold_locales (auto intro: outbox_step_inv waiting_step)

text \<open>C35: an event that has been appended is never lost or rewritten: through any sequence of appends,
  claims, releases, blocks, unblocks and retention runs, a row that is not yet published stays in the
  outbox, pending or blocked, with its identity and payload unchanged, unless the broker's
  acknowledgement of that very row is recorded.\<close>

theorem events_never_lost:
  assumes "outbox_trace uuid5 db ops db'" and "outbox_inv db"
    and "r \<in> set (outbox_t db)" and "unpublished r"
    and "\<forall>x \<in> set ops. \<not> acks (ob_ID r) x"
  shows "\<exists>r' \<in> set (outbox_t db'). ob_facts r' = ob_facts r \<and> unpublished r'"
proof -
  have "waiting r db" using assms(3,4) by (auto simp: waiting_def)
  with waiting_row.along [OF assms(1) _ assms(5)] assms(2) show ?thesis by (simp add: waiting_def)
qed

section \<open>Emission streams\<close>

definition stream_versions :: "events_db \<Rightarrow> string \<Rightarrow> string \<Rightarrow> int list" where
  "stream_versions db t i = map ob_AggregateVersion (aggregate_rows db t i)"

definition contiguous :: "events_db \<Rightarrow> bool" where
  "contiguous db \<longleftrightarrow>
     (\<forall>t i. stream_versions db t i = [1..int (length (stream_versions db t i))])"

definition ids_derived :: "(string \<Rightarrow> string) \<Rightarrow> events_db \<Rightarrow> bool" where
  "ids_derived uuid5 db \<longleftrightarrow> (\<forall>r \<in> set (outbox_t db). ob_IdentityKind r = IdentityKindBusinessObject \<longrightarrow>
     ob_EventID r = uuid5 (BusinessObjectNaturalKey (ob_AggregateType r) (ob_AggregateID r)
       (ob_AggregateVersion r)))"

lemma aggregate_max_versions:
  "aggregate_max db t i = (if stream_versions db t i = [] then 0 else Max (set (stream_versions db t i)))"
  by (simp add: aggregate_max_eq stream_versions_def)

lemma contiguous_max:
  assumes "contiguous db"
  shows "aggregate_max db t i = int (length (stream_versions db t i))"
proof -
  let ?n = "int (length (stream_versions db t i))"
  have "set (stream_versions db t i) = {1..?n}"
    using assms by (metis contiguous_def set_upto)
  moreover have "Max {1..?n} = ?n" if "stream_versions db t i \<noteq> []"
    using that by (intro Max_eqI) (auto simp: Suc_le_eq)
  ultimately show ?thesis by (simp add: aggregate_max_versions)
qed

lemma update_stream_versions:
  assumes "outbox_inv db" and "publish_move P f"
  shows "stream_versions (fst (update_outbox P f db)) t i = stream_versions db t i"
proof -
  define g where "g r = (if P r then f r else r)" for r
  have "ob_facts (g r) = ob_facts r" if "r \<in> set (outbox_t db)" for r
    using assms outbox_invD(4) [OF assms(1) that] by (simp add: g_def publish_move_def)
  note col = ob_facts_columns [OF this]
  have "outbox_t (fst (update_outbox P f db)) = map g (outbox_t db)"
    by (simp add: update_outbox_def update_where_def g_def)
  moreover have "filter (\<lambda>r. ob_AggregateType (g r) = t \<and> ob_AggregateID (g r) = i) (outbox_t db) =
      filter (\<lambda>r. ob_AggregateType r = t \<and> ob_AggregateID r = i) (outbox_t db)"
    by (intro filter_cong) (simp_all add: col)
  ultimately show ?thesis
    by (simp add: stream_versions_def aggregate_rows_def filter_map comp_def col cong: map_cong)
qed

lemma Append_stream:
  assumes inv: "outbox_inv db" and app: "Append uuid5 e db ev = Inr (db', res)"
  shows "stream_versions db' t i = stream_versions db t i @
    (if \<not> ap_Noop res \<and> evt_AggregateType ev = t \<and> evt_AggregateID ev = i
     then [aggregate_max db t i + 1] else [])"
proof -
  from app obtain p where p: "prepare ev = Inr p" "appended_as uuid5 e db p db' res" by (rule Append_Inr)
  note v = appended_version(1) [OF inv p(2)] and cols = prepare_columns(3,4) [OF p(1)]
  from p(2) v cols show ?thesis
    by (auto simp: appended_as_def stream_versions_def aggregate_rows_def split: if_splits)
qed

lemma contiguous_step:
  assumes "outbox_step uuid5 db x db'" and inv: "outbox_inv db" and c: "contiguous db" and "x \<noteq> OpPrune"
  shows "contiguous db'"
  using assms(1)
proof (cases rule: outbox_step_cases)
  case (append e ev res)
  show ?thesis
    unfolding contiguous_def
  proof (intro allI)
    fix t i
    let ?n = "int (length (stream_versions db t i))"
    have "stream_versions db t i = [1..?n]" using c by (metis contiguous_def)
    moreover have "[1..?n + 1] = [1..?n] @ [?n + 1]" by (simp add: upto_rec2)
    ultimately show "stream_versions db' t i = [1..int (length (stream_versions db' t i))]"
      using Append_stream [OF inv append(2), of t i] contiguous_max [OF c, of t i] by simp
  qed
next
  case (update P f)
  then show ?thesis using c update_stream_versions [OF inv] by (simp add: contiguous_def)
qed (use assms(4) in simp)

interpretation emission: kept_along "outbox_step uuid5" "outbox_trace uuid5"
  "\<lambda>db. outbox_inv db \<and> contiguous db" "\<lambda>_ _. True" "\<lambda>x. x \<noteq> OpPrune" for uuid5
  by unfold_locales (auto intro: outbox_step_inv contiguous_step)

definition no_events :: events_db where
  "no_events = \<lparr>outbox_t = [], outbox_seq = 0, obligation_t = []\<rparr>"

lemma no_events_facts [simp]: "outbox_inv no_events" "contiguous no_events" "ids_derived uuid5 no_events"
  by (simp_all add: no_events_def outbox_inv_def contiguous_def stream_versions_def aggregate_rows_def
      ids_derived_def)

text \<open>C36: as long as no retention run removes rows, the versions of every business object's events are
  exactly 1, 2, ..., n in the order of their insertion, each once: no gap and no repetition, so a
  consumer that waits for the next version neither waits for ever nor applies a version twice.\<close>

theorem streams_contiguous:
  assumes "outbox_trace uuid5 no_events ops db" and "OpPrune \<notin> set ops"
  shows "stream_versions db t i = [1..int (length (stream_versions db t i))]"
proof -
  have "\<forall>x \<in> set ops. x \<noteq> OpPrune" using assms(2) by auto
  with emission.along [OF assms(1)] have "contiguous db" by simp
  then show ?thesis by (metis contiguous_def)
qed

section \<open>Retention restarts a stream\<close>

lemma ids_derived_step:
  assumes "outbox_step uuid5 db x db'" and inv: "outbox_inv db" and d: "ids_derived uuid5 db"
  shows "ids_derived uuid5 db'"
  using assms(1)
proof (cases rule: outbox_step_cases)
  case (append e ev res)
  then obtain p where p: "appended_as uuid5 e db p db' res" by (blast elim: Append_Inr)
  have "ob_IdentityKind (new_row uuid5 e db p) = IdentityKindBusinessObject \<Longrightarrow>
      naturalKeyFor p v = BusinessObjectNaturalKey (evt_AggregateType p) (evt_AggregateID p) v" for v
    by (auto simp: new_row_def Let_def naturalKeyFor_def split: if_splits)
  with p d show ?thesis by (auto simp: ids_derived_def appended_as_def split: if_splits)
next
  case (update P f)
  have "ob_facts (f r) = ob_facts r" if "r \<in> set (outbox_t db)" "P r" for r
    using update(2) that outbox_invD(4) [OF inv that(1)] by (simp add: publish_move_def)
  note col = ob_facts_columns [OF this]
  from update(1) d show ?thesis
    by (auto simp: ids_derived_def update_outbox_def set_update_where col)
next
  case (prune now ret)
  with d show ?thesis by (auto simp: ids_derived_def PruneSQL_def)
qed

interpretation derived_ids: kept_along "outbox_step uuid5" "outbox_trace uuid5"
  "\<lambda>db. outbox_inv db \<and> ids_derived uuid5 db" "\<lambda>_ _. True" "\<lambda>_. True" for uuid5
  by unfold_locales (auto intro: outbox_step_inv ids_derived_step)

text \<open>C37: the identity of a published event is handed out again. When retention has removed every row of
  a business object, the next event of that object is numbered 1 and gets the event id of the first
  event the object ever had, although it reports another fact.\<close>

theorem retention_reissues_identity:
  assumes "outbox_trace uuid5 no_events ops db"
    and "r \<in> set (outbox_t db)" and "ob_AggregateVersion r = 1"
    and "ob_IdentityKind r = IdentityKindBusinessObject"
    and "\<forall>s \<in> set (aggregate_rows db (ob_AggregateType r) (ob_AggregateID r)). prunable now ret s"
    and "Append uuid5 e (fst (PruneSQL now ret db)) ev = Inr (db', res)"
    and "evt_IdentityKind ev = IdentityKindBusinessObject"
    and "evt_AggregateType ev = ob_AggregateType r" and "evt_AggregateID ev = ob_AggregateID r"
  shows "ap_EventID res = ob_EventID r \<and> ap_AggregateVersion res = 1"
proof -
  let ?db = "fst (PruneSQL now ret db)"
  from derived_ids.along [OF assms(1)] have "outbox_inv db" "ids_derived uuid5 db" by simp_all
  have "aggregate_rows ?db (ob_AggregateType r) (ob_AggregateID r) = []"
    using assms(5) by (auto simp: aggregate_rows_def PruneSQL_def filter_empty_conv)
  then have m: "aggregate_max ?db (ob_AggregateType r) (ob_AggregateID r) = 0"
    by (simp add: aggregate_max_eq)
  from assms(6) obtain p where p: "prepare ev = Inr p" and app: "appended_as uuid5 e ?db p db' res"
    by (rule Append_Inr)
  have cols: "evt_AggregateType p = ob_AggregateType r" "evt_AggregateID p = ob_AggregateID r"
    "evt_IdentityKind p = IdentityKindBusinessObject"
    using prepare_columns [OF p] assms(7-9) by simp_all
  have one: "next_version ?db p = 1" by (simp add: next_version_def cols m int64_def)
  have "\<not> ap_Noop res"
  proof
    assume "ap_Noop res"
    with app obtain s where "s \<in> set (outbox_t ?db)" "identity_clash (new_row uuid5 e ?db p) s"
      by (auto simp: appended_as_def dest: find_Some_set)
    then have "s \<in> set (aggregate_rows ?db (ob_AggregateType r) (ob_AggregateID r))"
      using cols by (auto simp: identity_clash_def same_object_def same_log_def new_row_def Let_def
          aggregate_rows_def split: if_splits)
    with \<open>aggregate_rows ?db _ _ = []\<close> show False by simp
  qed
  with app one cols \<open>ids_derived uuid5 db\<close> assms(2-4) show ?thesis
    by (simp add: appended_as_def ids_derived_def naturalKeyFor_def)
qed

section \<open>When an append succeeds\<close>

lemma obligation_insert_ok:
  "ev_fault e ObligationInsert = None \<Longrightarrow> obligation_check g = None \<Longrightarrow> \<exists>db'. obligation_insert e db g = Inr db'"
  by (auto simp: obligation_insert_def)

lemma Append_inserts:
  assumes "prepare ev = Inr p" and "\<forall>s. ev_fault e s = None"
    and "0 \<le> aggregate_max db (evt_AggregateType p) (evt_AggregateID p)"
    and "outbox_check (new_row uuid5 e db p) = None"
    and "find (identity_clash (new_row uuid5 e db p)) (outbox_t db) = None"
    and "\<not> has_row (\<lambda>s. ob_EventID s = uuid5 (naturalKeyFor p (next_version db p))) (outbox_t db)"
    and "obligation_check (obligation_of p (next_version db p)) = None"
  shows "\<exists>db' res. Append uuid5 e db ev = Inr (db', res) \<and> \<not> ap_Noop res"
proof -
  let ?p = "p\<lparr>evt_AggregateVersion := next_version db p\<rparr>"
  let ?r = "appendArgs e ?p (uuid5 (naturalKeyFor p (next_version db p)))"
  have row: "new_row uuid5 e db p = ?r\<lparr>ob_ID := outbox_seq db + 1\<rparr>"
    by (simp add: new_row_def Let_def)
  have chk: "outbox_check ?r = None" using assms(4) by (simp add: row outbox_check_def)
  have clash: "find (identity_clash ?r) (outbox_t db) = None" using assms(5) by (simp add: row)
  let ?db1 = "db\<lparr>outbox_t := outbox_t db @ [?r\<lparr>ob_ID := outbox_seq db + 1\<rparr>], outbox_seq := outbox_seq db + 1\<rparr>"
  have ins: "outbox_insert e db ?r = Inr (?db1, outbox_seq db + 1, next_version db p, True)"
    using assms(2,6) chk clash by (simp add: outbox_insert_def Let_def)
  have ob: "obligation_of ?p w = obligation_of p w" for w by (simp add: obligation_of_def)
  obtain db2 where "obligation_insert e ?db1 (obligation_of p (next_version db p)) = Inr db2"
    using obligation_insert_ok assms(2,7) by blast
  with ins assms(1-3) show ?thesis
    by (simp add: Append_def append_at_def NewEventID_def Let_def ob next_version_def [symmetric])
qed

text \<open>A business event of an invariant outbox is always inserted: its version is new.\<close>

lemma fresh_version_no_clash:
  assumes "outbox_inv db" and "evt_IdentityKind p = IdentityKindBusinessObject"
    and "next_version db p = aggregate_max db (evt_AggregateType p) (evt_AggregateID p) + 1"
  shows "find (identity_clash (new_row uuid5 e db p)) (outbox_t db) = None"
proof -
  have "\<not> identity_clash (new_row uuid5 e db p) s" if "s \<in> set (outbox_t db)" for s
    using aggregate_max_upper [OF that] assms(2,3)
    by (auto simp: identity_clash_def same_object_def same_log_def new_row_def Let_def split: if_splits)
  then show ?thesis by (simp add: find_None_set)
qed

lemma Append_business_inserts:
  assumes "outbox_inv db" and "Append uuid5 e db ev = Inr (db', res)"
    and "evt_IdentityKind ev = IdentityKindBusinessObject"
  shows "\<not> ap_Noop res"
proof -
  from assms(2) obtain p where p: "prepare ev = Inr p" "appended_as uuid5 e db p db' res"
    by (rule Append_Inr)
  with fresh_version_no_clash [OF assms(1) _ appended_version(1) [OF assms(1) p(2)], of uuid5 e]
    prepare_columns(2) [OF p(1)] assms(3) show ?thesis
    by (auto simp: appended_as_def)
qed

section \<open>Admission\<close>

definition pending_count :: "events_db \<Rightarrow> nat" where
  "pending_count db = count_where (\<lambda>r. ob_PublishState r = PublishStatePending) (outbox_t db)"

lemma sum_by_family:
  assumes "distinct fs" and "f ` set xs \<subseteq> set fs"
  shows "sum_list (map (\<lambda>a. int (length (filter (\<lambda>x. f x = a) xs))) fs) = int (length xs)"
  using assms(2)
proof (induction xs)
  case (Cons x xs)
  have "sum_list (map (\<lambda>a. int (length (filter (\<lambda>y. f y = a) (x # xs)))) fs) =
      sum_list (map (\<lambda>a. (if f x = a then 1 else 0) + int (length (filter (\<lambda>y. f y = a) xs))) fs)"
    by (intro arg_cong [of _ _ sum_list] map_cong) auto
  also have "\<dots> = sum_list (map (\<lambda>a. if f x = a then 1 else 0) fs) + int (length xs)"
    using Cons by (simp add: sum_list_addf)
  also have "sum_list (map (\<lambda>a. if f x = a then 1 else 0 :: int) fs) = 1"
    using Cons.prems assms(1)
    by (simp add: sum_list_distinct_conv_sum_set sum.delta')
  finally show ?case by simp
qed (simp add: sum_list_triv)

lemma foldl_int64:
  assumes "\<forall>f \<in> set fs. 0 \<le> g f" and "0 \<le> n" and "n + sum_list (map g fs) < 2 ^ 63"
  shows "foldl (\<lambda>n f. int64 (n + g f)) n fs = n + sum_list (map g fs)"
  using assms
proof (induction fs arbitrary: n)
  case (Cons f fs)
  have "0 \<le> sum_list (map g fs)" using Cons.prems(1) by (intro sum_list_nonneg) auto
  with Cons.prems have "int64 (n + g f) = n + g f" by (intro int64_small) auto
  with Cons show ?case by (simp add: add.assoc)
qed simp

lemma CapacitySQL_total:
  "sum_list (map cf_PendingCount (CapacitySQL now db)) = int (pending_count db)"
proof -
  let ?p = "filter (\<lambda>r. ob_PublishState r = PublishStatePending) (outbox_t db)"
  let ?f = "\<lambda>r. split_part1 (ob_EventType r)"
  let ?fs = "sort (remdups (map (split_part1 \<circ> ob_EventType) ?p))"
  have "map cf_PendingCount (CapacitySQL now db) = map (\<lambda>a. int (length (filter (\<lambda>x. ?f x = a) ?p))) ?fs"
    by (simp add: CapacitySQL_def Let_def comp_def)
  moreover have "sum_list (map (\<lambda>a. int (length (filter (\<lambda>x. ?f x = a) ?p))) ?fs) = int (length ?p)"
    by (rule sum_by_family) auto
  ultimately show ?thesis by (simp add: pending_count_def count_where_def)
qed

lemma CapacitySQL_nonneg: "f \<in> set (CapacitySQL now db) \<Longrightarrow> 0 \<le> cf_PendingCount f"
  by (auto simp: CapacitySQL_def Let_def)

text \<open>The capacity guard admits new controllable work exactly while the number of pending events,
  over all families, is below the soft limit; a backlog that cannot be read admits nothing.\<close>

lemma admission_exact:
  assumes "Validate_limits limits = Inr ()" and "int (pending_count db) < 2 ^ 63"
  shows "(\<exists>adm. fst (AdmitNewControllable limits qf now db op) = Inr adm \<and> \<not> ca_Refused adm) \<longleftrightarrow>
    qf = None \<and> int (pending_count db) < cl_SoftLimit limits"
proof (cases qf)
  case None
  have "foldl (\<lambda>n f. int64 (n + cf_PendingCount f)) 0 (CapacitySQL now db) = int (pending_count db)"
    using foldl_int64 [of "CapacitySQL now db" cf_PendingCount 0] CapacitySQL_total [of now db] assms(2)
    by (simp add: CapacitySQL_nonneg)
  moreover have "cl_SoftLimit limits < cl_HardLimit limits"
    using assms(1) by (auto simp: Validate_limits_def split: if_splits)
  ultimately show ?thesis using None
    by (auto simp: AdmitNewControllable_def Observe_capacity_def DecideAdmission_def Let_def
        RefusesNewControllable_def ClassifyCapacityLevel_def)
qed (simp add: AdmitNewControllable_def Observe_capacity_def)

section \<open>A concrete emission\<close>

definition demo_event :: "string \<Rightarrow> event" where
  "demo_event st = \<lparr>evt_EventType = ''withdrawal.request.received'', evt_SchemaVersion = 1,
     evt_IdentityKind = IdentityKindBusinessObject, evt_AggregateType = ''withdrawal_request'',
     evt_AggregateID = ''wr-1'', evt_AggregateVersion = 0,
     evt_Payload = Some [(''request_id'', JStr ''wr-1''), (''caller'', JNum 7), (''state'', JStr st)],
     evt_OccurredAt = Some 5, evt_ChainID = 0, evt_BlockNumber = 0, evt_BlockHash = [], evt_TxHash = [],
     evt_LogIndex = 0, evt_RecoveryVersion = 0, evt_RevisesEventID = None,
     evt_SourceKind = ''withdrawal_intake'', evt_SourceID = ''wr-1'', evt_SourceVersion = 0,
     evt_payloadJSON = None, evt_payloadHash = []\<rparr>"

definition quiet :: "instant \<Rightarrow> ev_env" where
  "quiet t = \<lparr>ev_fault = (\<lambda>_. None), ev_now = t\<rparr>"

lemma demo_envelope_valid: "validateEvent (demo_event ''accepted'') False = Inr ()"
  "validateEvent (demo_event ''closed'') False = Inr ()"
  by (simp_all add: validateEvent_def demo_event_def LookupEventSpec_def catalogV1_def
      SupportsSchemaVersion_def envelope_violation_def missing_key_def ForbiddenPayload_def
      isForbiddenPayloadKey_def forbiddenPayloadKeyTokens_def to_lower_def has_prefix_def)

lemma demo_append:
  assumes "validateEvent (demo_event st) False = Inr ()" and "aggregate_rows db ''withdrawal_request'' ''wr-1'' = []"
    and "\<not> has_row (\<lambda>s. ob_EventID s = ''business_object|withdrawal_request|wr-1|1'') (outbox_t db)"
  shows "\<exists>db' res. Append id (quiet t) db (demo_event st) = Inr (db', res) \<and> \<not> ap_Noop res"
proof -
  define p where "p = (demo_event st)\<lparr>evt_payloadJSON := Some (marshal (JObj (the (evt_Payload (demo_event st))))),
    evt_payloadHash := PayloadHash (marshal (JObj (the (evt_Payload (demo_event st)))))\<rparr>"
  have prep: "prepare (demo_event st) = Inr p"
    using assms(1) by (simp add: prepare_def freeze_payload_def CanonicalPayload_def demo_event_def p_def)
  have cols: "evt_AggregateType p = ''withdrawal_request''" "evt_AggregateID p = ''wr-1''"
    "evt_IdentityKind p = IdentityKindBusinessObject" "evt_SchemaVersion p = 1"
    "evt_RevisesEventID p = None" "evt_EventType p = ''withdrawal.request.received''"
    "evt_SourceKind p = ''withdrawal_intake''" "evt_SourceID p = ''wr-1''" "evt_SourceVersion p = 0"
    by (simp_all add: p_def demo_event_def)
  have m: "aggregate_max db (evt_AggregateType p) (evt_AggregateID p) = 0"
    by (simp add: aggregate_max_eq cols assms(2))
  then have v: "next_version db p = 1" by (simp add: next_version_def int64_def)
  have key: "naturalKeyFor p 1 = ''business_object|withdrawal_request|wr-1|1''"
    by (simp add: naturalKeyFor_def cols BusinessObjectNaturalKey_def int_text_def num_text.simps
        digit_char_def char_of_def bit_0)
  have "\<not> identity_clash (new_row id (quiet t) db p) s" if "s \<in> set (outbox_t db)" for s
    using assms(2) that cols
    by (auto simp: identity_clash_def same_object_def same_log_def new_row_def Let_def aggregate_rows_def
        filter_empty_conv)
  then have clash: "find (identity_clash (new_row id (quiet t) db p)) (outbox_t db) = None"
    by (simp add: find_None_set)
  have chk: "outbox_check (new_row id (quiet t) db p) = None"
    by (simp add: outbox_check_None new_row_def v Let_def cols IdentityKind_Valid_def PublishState_Valid_def)
      (simp add: appendArgs_def Let_def cols)
  have ob: "obligation_check (obligation_of p 1) = None"
    by (simp add: obligation_check_def obligation_of_def cols obligation_mapping_def nullableInt64_def
        char_length_def utf8_cont_def)
  show ?thesis
    by (rule Append_inserts [OF prep])
      (use m v key clash chk ob assms(3) in \<open>simp_all add: quiet_def\<close>)
qed

lemma demo_first:
  obtains db1 res1 where "outbox_trace id no_events [OpAppend res1] db1"
    and "length (stream_versions db1 ''withdrawal_request'' ''wr-1'') = 1"
proof -
  obtain db1 res where app: "Append id (quiet 1) no_events (demo_event ''accepted'') = Inr (db1, res)"
    "\<not> ap_Noop res"
    using demo_append [OF demo_envelope_valid(1), of no_events 1]
    by (auto simp: no_events_def aggregate_rows_def has_row_def)
  have "stream_versions db1 ''withdrawal_request'' ''wr-1'' =
      stream_versions no_events ''withdrawal_request'' ''wr-1'' @
      [aggregate_max no_events ''withdrawal_request'' ''wr-1'' + 1]"
    using Append_stream [OF no_events_facts(1) app(1), of "''withdrawal_request''" "''wr-1''"] app(2)
    by (simp add: demo_event_def)
  then have "length (stream_versions db1 ''withdrawal_request'' ''wr-1'') = 1"
    by (simp add: stream_versions_def aggregate_rows_def no_events_def)
  moreover have "outbox_trace id no_events [OpAppend res] db1"
    using app by (auto intro: outbox_step.appended)
  ultimately show thesis using that by blast
qed

theorem streams_contiguous_witness:
  "\<exists>ops db. outbox_trace id no_events ops db \<and> OpPrune \<notin> set ops \<and>
     stream_versions db ''withdrawal_request'' ''wr-1'' = [1..1]"
proof (rule demo_first)
  fix db1 res1
  assume tr: "outbox_trace id no_events [OpAppend res1] db1"
    and n: "length (stream_versions db1 ''withdrawal_request'' ''wr-1'') = 1"
  from streams_contiguous [OF tr, of "''withdrawal_request''" "''wr-1''"] n tr show ?thesis by fastforce
qed


theorem events_never_lost_witness:
  "\<exists>db1 db2 r ops. outbox_trace id db1 ops db2 \<and> outbox_inv db1 \<and> r \<in> set (outbox_t db1) \<and>
     unpublished r \<and> ops = [OpClaim ''p'' [1], OpBlock ''p'' [1], OpPrune] \<and>
     (\<exists>r' \<in> set (outbox_t db2). ob_facts r' = ob_facts r \<and> unpublished r')"
proof (rule demo_first)
  fix db1 res1
  assume tr: "outbox_trace id no_events [OpAppend res1] db1"
    and n: "length (stream_versions db1 ''withdrawal_request'' ''wr-1'') = 1"
  let ?ops = "[OpClaim ''p'' [1], OpBlock ''p'' [1], OpPrune]"
  from tr obtain e ev where app: "Append id e no_events ev = Inr (db1, res1)"
    by (auto elim: outbox_step.cases)
  have inv: "outbox_inv db1" using Append_inv [OF no_events_facts(1) app] .
  from app obtain p where "appended_as id e no_events p db1 res1" by (blast elim: Append_Inr)
  with n obtain r where r: "r \<in> set (outbox_t db1)" "unpublished r"
    by (auto simp: appended_as_def stream_versions_def aggregate_rows_def no_events_def unpublished_def
        split: if_splits)
  obtain db2 where tr2: "outbox_trace id db1 ?ops db2"
    by (auto intro!: exI outbox_step.claimed [OF refl] outbox_step.blocked [OF refl]
        outbox_step.pruned [OF refl])
  have "\<forall>x \<in> set ?ops. \<not> acks (ob_ID r) x" by (simp add: acks_def)
  from events_never_lost [OF tr2 inv r this] tr2 inv r show ?thesis by blast
qed

theorem retention_reissues_identity_witness:
  "\<exists>ops db r db' res. outbox_trace id no_events ops db \<and> r \<in> set (outbox_t db) \<and>
     Append id (quiet 9) (fst (PruneSQL 9 1 db)) (demo_event ''closed'') = Inr (db', res) \<and>
     ap_EventID res = ob_EventID r \<and> ap_AggregateVersion res = 1"
proof -
  obtain db1 res1 where app: "Append id (quiet 1) no_events (demo_event ''accepted'') = Inr (db1, res1)"
    "\<not> ap_Noop res1"
    using demo_append [OF demo_envelope_valid(1), of no_events 1]
    by (auto simp: no_events_def aggregate_rows_def has_row_def)
  then obtain p where p: "prepare (demo_event ''accepted'') = Inr p" "appended_as id (quiet 1) no_events p db1 res1"
    by (blast elim: Append_Inr)
  let ?n = "new_row id (quiet 1) no_events p"
  have t: "outbox_t db1 = [?n]" "ob_ID ?n = 1" using p(2) app(2) by (simp_all add: appended_as_def no_events_def)
  define db where "db = fst (AckPublishedSQL 2 [1] ''p'' (fst (ClaimMarkSQL 1 [1] ''p'' 5 db1)))"
  have tr: "outbox_trace id no_events [OpAppend res1, OpClaim ''p'' [1], OpAck ''p'' [1]] db"
    using app(1) by (auto simp: db_def intro: outbox_step.intros)
  define r where "r = ?n\<lparr>ob_ClaimOwner := None, ob_ClaimExpiresAt := None, ob_AttemptCount := 1,
    ob_PublishState := PublishStatePublished, ob_PublishedAt := Some 2\<rparr>"
  have rows: "outbox_t db = [r]"
    using t by (simp add: db_def r_def publish_updates update_outbox_def update_where_def owned_pending_def)
      (simp add: new_row_def appendArgs_def Let_def)
  have cols: "ob_AggregateType r = ''withdrawal_request''" "ob_AggregateID r = ''wr-1''"
    "ob_IdentityKind r = IdentityKindBusinessObject" "ob_AggregateVersion r = 1"
    using prepare_columns [OF p(1)]
    by (simp_all add: r_def demo_event_def new_row_def Let_def next_version_def aggregate_max_eq
        aggregate_rows_def no_events_def int64_def)
  have "outbox_t (fst (PruneSQL 9 1 db)) = []" by (simp add: PruneSQL_def rows prunable_def r_def)
  then obtain db' res where app2: "Append id (quiet 9) (fst (PruneSQL 9 1 db)) (demo_event ''closed'') = Inr (db', res)"
    using demo_append [OF demo_envelope_valid(2), of "fst (PruneSQL 9 1 db)" 9]
    by (auto simp: aggregate_rows_def has_row_def)
  have "\<forall>s \<in> set (aggregate_rows db (ob_AggregateType r) (ob_AggregateID r)). prunable 9 1 s"
    by (simp add: aggregate_rows_def rows prunable_def r_def)
  from retention_reissues_identity [OF tr _ cols(4,3) this app2] rows tr app2 cols show ?thesis
    by (fastforce simp: demo_event_def)
qed

definition demo_limits :: capacity_limits where
  "demo_limits = \<lparr>cl_Reserve = 1, cl_SoftLimit = 2, cl_HardLimit = 3\<rparr>"

end
