(* ===== verification/WithdrawalStore.thy ===== *)
theory WithdrawalStore
  imports WithdrawalValidate EventsOutboxSpec
begin

text \<open>
  The tables of withdrawal creation (\<^verbatim>\<open>migrations/000007_withdrawal_creation.sql\<close>,
  \<^verbatim>\<open>migrations/000010_withdrawal_authorization_scopes.sql\<close>) with their constraints, and the environment
  the transactions of \<^verbatim>\<open>internal/withdrawal\<close> run in: which statement fails and how, the clocks, the
  random bytes, and whether a COMMIT that reports an error was durable. The lemmas give the table
  invariant and that every insert the constraints admit keeps it.

  A table is the list of its rows. Identity columns no statement reads are left out. Amounts are the
  integers of the \<^verbatim>\<open>NUMERIC(78,0)\<close> column; a query reads them back as decimal text.
\<close>

section \<open>Rows\<close>

record caller_row =
  cr_CallerID :: int
  cr_Label :: string
  cr_CanCreate :: bool

record api_key_row =
  k_KeyID :: int
  k_CallerID :: int
  k_Hash :: string
  k_Prefix :: string
  k_RevokedAt :: "instant option"

record request_row =
  rq_RequestID :: string
  rq_CallerID :: int
  rq_IdempotencyKey :: string
  rq_AuthorizationID :: string
  rq_ChainID :: int
  rq_Asset :: string
  rq_Recipient :: string
  rq_Amount :: int
  rq_Status :: string
  rq_CreatedAt :: instant

record grant_row =
  ga_AuthorizationID :: string
  ga_CallerID :: int
  ga_ChainID :: int
  ga_Asset :: string
  ga_Recipient :: string
  ga_Amount :: int
  ga_State :: string
  ga_ExpiresAt :: "instant option"
  ga_SuppliedBy :: string

record grant_scope =
  ws_AuthorizationID :: string
  ws_IntentID :: string
  ws_RequestID :: string
  ws_Sender :: string
  ws_FeeMaxTotal :: int
  ws_FeeMaxPerGas :: int
  ws_FeeMaxPriority :: int
  ws_AllowsFeeReplacement :: bool
  ws_AuthorizationVersion :: int
  ws_AttestedBy :: string

record request_audit =
  qa_RequestID :: string
  qa_CallerID :: int
  qa_Action :: string
  qa_Detail :: string

record grant_audit =
  gu_OperationID :: string
  gu_AuthorizationID :: string
  gu_CallerID :: int
  gu_Action :: string
  gu_Operator :: string
  gu_Reason :: string
  gu_Detail :: string

text \<open>\<open>key_seq\<close> is the identity sequence of \<^verbatim>\<open>api_key.key_id\<close>.\<close>

record wd_db =
  caller_t :: "caller_row list"
  api_key_t :: "api_key_row list"
  key_seq :: int
  request_t :: "request_row list"
  grant_t :: "grant_row list"
  gscope_t :: "grant_scope list"
  request_audit_t :: "request_audit list"
  grant_audit_t :: "grant_audit list"
  events_t :: events_db

section \<open>Environment\<close>

datatype wd_stmt =
  WBegin | WGuard | WCommit
  | AuthKeySelect | AuthCallerSelect | CallerInsert | CallerSelect | KeyInsert | KeyRotateUpdate
  | KeyRevokeUpdate
  | SelectByKey | ReselectByKey | SelectByAuth | SelectGrantForShare | SelectClock | InsertRequest
  | InsertRequestAudit | InsertRejectAudit | QuerySelectRequest | SnapshotBegin | RecoveryRowSelect
  | RecoveryReleasedSelect
  | KeyAuthoritySelect | CallerAuthoritySelect | GrantSelectForUpdate | GrantInsert
  | GrantUnchanged | GrantRevoke | ScopeSelect | ScopeInsert | ScopeBump | GrantAuditInsert
  | OldGrantSelect | AttemptSelect | GrantReadOnlySelect | ScopeReadOnlySelect | BoundedAuditInsert

datatype wd_mint = MintKey | MintRequestID | MintRejectMarker

text \<open>\<open>w_now\<close> is \<^verbatim>\<open>now()\<close> of the transaction or statement, \<open>w_clock\<close> what \<^verbatim>\<open>clock_timestamp()\<close> answers
  inside it, \<open>w_time\<close> Go's \<^verbatim>\<open>time.Now()\<close>. \<open>w_rand\<close> is the answer of \<^verbatim>\<open>rand.Read\<close>, \<open>None\<close> its failure. A
  statement also fails in ways the tables do not show, a text column refusing bytes that are not UTF-8
  or a lost connection; \<open>w_fault\<close> is the error it reports then.\<close>

record wd_env =
  w_fault :: "wd_stmt \<Rightarrow> pg_error option"
  w_now :: instant
  w_clock :: instant
  w_time :: instant
  w_rand :: "wd_mint \<Rightarrow> u8 list option"
  w_durable :: bool
  w_events :: "ev_stmt \<Rightarrow> pg_error option"

text \<open>A statement, when the environment lets it run.\<close>

definition run_stmt :: "wd_env \<Rightarrow> wd_stmt \<Rightarrow> (pg_error + 'a) \<Rightarrow> pg_error + 'a" where
  "run_stmt e s r = (case w_fault e s of Some p \<Rightarrow> Inl p | None \<Rightarrow> r)"

text \<open>\<^verbatim>\<open>rand.Read\<close> fills the whole slice it is given.\<close>

definition rand_fills :: "wd_env \<Rightarrow> bool" where
  "rand_fills e \<longleftrightarrow>
     (\<forall>bs. w_rand e MintKey = Some bs \<longrightarrow> length bs = 32) \<and>
     (\<forall>bs. w_rand e MintRequestID = Some bs \<longrightarrow> length bs = 16) \<and>
     (\<forall>bs. w_rand e MintRejectMarker = Some bs \<longrightarrow> length bs = 8)"

section \<open>Inserts\<close>

definition caller_exists :: "wd_db \<Rightarrow> int \<Rightarrow> bool" where
  "caller_exists db c = has_row (\<lambda>r. cr_CallerID r = c) (caller_t db)"

text \<open>An insert reports the first violated CHECK, then the first violated unique index, then the foreign
  key.\<close>

definition unique_or :: "(string \<times> bool) list \<Rightarrow> (string \<times> bool) list \<Rightarrow> (string \<times> bool) list
    \<Rightarrow> pg_error option" where
  "unique_or checks uniques fks =
     (case first_violation checks of
        Some c \<Rightarrow> Some (PgError ''23514'' c)
      | None \<Rightarrow> (case first_violation uniques of
          Some c \<Rightarrow> Some (PgError ''23505'' c)
        | None \<Rightarrow> (case first_violation fks of
            Some c \<Rightarrow> Some (PgError ''23503'' c)
          | None \<Rightarrow> None)))"

text \<open>\<^verbatim>\<open>INSERT ... ON CONFLICT ON CONSTRAINT caller_pkey DO NOTHING\<close>.\<close>

definition insert_caller :: "wd_db \<Rightarrow> int \<Rightarrow> string \<Rightarrow> pg_error + wd_db" where
  "insert_caller db c label =
     (if \<not> c > 0 then Inl (PgError ''23514'' ''caller_caller_id_check'')
      else if caller_exists db c then Inr db
      else Inr (db\<lparr>caller_t := caller_t db @
        [\<lparr>cr_CallerID = c, cr_Label = label, cr_CanCreate = True\<rparr>]\<rparr>))"

definition insert_api_key :: "wd_db \<Rightarrow> int \<Rightarrow> string \<Rightarrow> string \<Rightarrow> pg_error + wd_db \<times> int" where
  "insert_api_key db c hash prefix =
     (case unique_or
        [(''api_key_key_hash_check'', length hash = 64 \<and> list_all is_lower_hex hash)]
        [(''api_key_key_hash_uniq'', \<not> has_row (\<lambda>k. k_Hash k = hash) (api_key_t db))]
        [(''api_key_caller_id_fkey'', caller_exists db c)] of
        Some p \<Rightarrow> Inl p
      | None \<Rightarrow>
          let n = key_seq db + 1 in
          Inr (db\<lparr>api_key_t := api_key_t db @
                   [\<lparr>k_KeyID = n, k_CallerID = c, k_Hash = hash, k_Prefix = prefix, k_RevokedAt = None\<rparr>],
                  key_seq := n\<rparr>, n))"

definition address_column :: "string \<Rightarrow> bool" where
  "address_column s = matches_lower_hex 40 s"

definition amount_column :: "int \<Rightarrow> bool" where
  "amount_column a \<longleftrightarrow> a \<ge> 1 \<and>
     a \<le> 115792089237316195423570985008687907853269984665640564039457584007913129639935"

definition request_checks :: "request_row \<Rightarrow> (string \<times> bool) list" where
  "request_checks r =
     [(''withdrawal_requests_amount_check'', amount_column (rq_Amount r)),
      (''withdrawal_requests_asset_check'', address_column (rq_Asset r)),
      (''withdrawal_requests_chain_id_check'', rq_ChainID r > 0),
      (''withdrawal_requests_idempotency_key_check'',
         1 \<le> length (rq_IdempotencyKey r) \<and> length (rq_IdempotencyKey r) \<le> 128
         \<and> list_all (\<lambda>c. 33 \<le> byte c \<and> byte c \<le> 126) (rq_IdempotencyKey r)),
      (''withdrawal_requests_recipient_check'', address_column (rq_Recipient r)),
      (''withdrawal_requests_status_check'', rq_Status r = ''accepted'')]"

definition insert_request :: "wd_db \<Rightarrow> request_row \<Rightarrow> pg_error + wd_db" where
  "insert_request db r =
     (case unique_or (request_checks r)
        [(''withdrawal_requests_request_id_uniq'',
            \<not> has_row (\<lambda>s. rq_RequestID s = rq_RequestID r) (request_t db)),
         (''withdrawal_requests_caller_key_uniq'',
            \<not> has_row (\<lambda>s. rq_CallerID s = rq_CallerID r
               \<and> rq_IdempotencyKey s = rq_IdempotencyKey r) (request_t db)),
         (''withdrawal_requests_authorization_uniq'',
            \<not> has_row (\<lambda>s. rq_AuthorizationID s = rq_AuthorizationID r) (request_t db))]
        [(''withdrawal_requests_caller_id_fkey'', caller_exists db (rq_CallerID r))] of
        Some p \<Rightarrow> Inl p
      | None \<Rightarrow> Inr (db\<lparr>request_t := request_t db @ [r]\<rparr>))"

definition grant_checks :: "grant_row \<Rightarrow> (string \<times> bool) list" where
  "grant_checks g =
     [(''withdrawal_authorizations_amount_check'', amount_column (ga_Amount g)),
      (''withdrawal_authorizations_asset_check'', address_column (ga_Asset g)),
      (''withdrawal_authorizations_chain_id_check'', ga_ChainID g > 0),
      (''withdrawal_authorizations_recipient_check'', address_column (ga_Recipient g)),
      (''withdrawal_authorizations_state_check'',
         ga_State g \<in> {''active'', ''revoked'', ''expired''})]"

definition insert_grant :: "wd_db \<Rightarrow> grant_row \<Rightarrow> pg_error + wd_db" where
  "insert_grant db g =
     (case unique_or (grant_checks g)
        [(''withdrawal_authorizations_pkey'',
            \<not> has_row (\<lambda>s. ga_AuthorizationID s = ga_AuthorizationID g) (grant_t db))]
        [(''withdrawal_authorizations_caller_id_fkey'', caller_exists db (ga_CallerID g))] of
        Some p \<Rightarrow> Inl p
      | None \<Rightarrow> Inr (db\<lparr>grant_t := grant_t db @ [g]\<rparr>))"

definition scope_checks :: "grant_scope \<Rightarrow> (string \<times> bool) list" where
  "scope_checks s =
     [(''withdrawal_authorization_scopes_authorization_version_check'', ws_AuthorizationVersion s \<ge> 1),
      (''withdrawal_authorization_scopes_fee_max_per_gas_check'', ws_FeeMaxPerGas s \<ge> 0),
      (''withdrawal_authorization_scopes_fee_max_priority_check'', ws_FeeMaxPriority s \<ge> 0),
      (''withdrawal_authorization_scopes_fee_max_total_check'', ws_FeeMaxTotal s \<ge> 0),
      (''withdrawal_authorization_scopes_fee_priority_within_max_check'',
         ws_FeeMaxPriority s \<le> ws_FeeMaxPerGas s),
      (''withdrawal_authorization_scopes_sender_check'', address_column (ws_Sender s))]"

definition insert_scope :: "wd_db \<Rightarrow> grant_scope \<Rightarrow> pg_error + wd_db" where
  "insert_scope db s =
     (case unique_or (scope_checks s)
        [(''withdrawal_authorization_scopes_pkey'',
            \<not> has_row (\<lambda>x. ws_AuthorizationID x = ws_AuthorizationID s) (gscope_t db))]
        [(''withdrawal_authorization_scopes_authorization_fkey'',
            has_row (\<lambda>g. ga_AuthorizationID g = ws_AuthorizationID s) (grant_t db))] of
        Some p \<Rightarrow> Inl p
      | None \<Rightarrow> Inr (db\<lparr>gscope_t := gscope_t db @ [s]\<rparr>))"

definition insert_request_audit :: "wd_db \<Rightarrow> request_audit \<Rightarrow> pg_error + wd_db" where
  "insert_request_audit db a =
     (if qa_Action a \<notin> {''created'', ''replayed'', ''conflict'', ''rejected'', ''auth_failed'', ''unavailable''}
      then Inl (PgError ''23514'' ''withdrawal_request_audit_action_check'')
      else Inr (db\<lparr>request_audit_t := request_audit_t db @ [a]\<rparr>))"

definition insert_grant_audit :: "wd_db \<Rightarrow> grant_audit \<Rightarrow> pg_error + wd_db" where
  "insert_grant_audit db a =
     (case unique_or
        [(''withdrawal_grant_audit_action_check'',
            gu_Action a \<in> {''supplied'', ''resupplied'', ''supply_refused'', ''revoked'', ''revoke_nop''})]
        [(''withdrawal_grant_audit_operation_id_uniq'',
            \<not> has_row (\<lambda>x. gu_OperationID x = gu_OperationID a) (grant_audit_t db))] [] of
        Some p \<Rightarrow> Inl p
      | None \<Rightarrow> Inr (db\<lparr>grant_audit_t := grant_audit_t db @ [a]\<rparr>))"

section \<open>Invariant\<close>

definition wd_inv :: "wd_db \<Rightarrow> bool" where
  "wd_inv db \<longleftrightarrow>
     distinct (map cr_CallerID (caller_t db)) \<and> (\<forall>r \<in> set (caller_t db). cr_CallerID r > 0) \<and>
     distinct (map k_KeyID (api_key_t db)) \<and> (\<forall>k \<in> set (api_key_t db). k_KeyID k \<le> key_seq db) \<and>
     distinct (map k_Hash (api_key_t db)) \<and>
     (\<forall>k \<in> set (api_key_t db). caller_exists db (k_CallerID k)) \<and>
     distinct (map rq_RequestID (request_t db)) \<and>
     distinct (map (\<lambda>r. (rq_CallerID r, rq_IdempotencyKey r)) (request_t db)) \<and>
     distinct (map rq_AuthorizationID (request_t db)) \<and>
     (\<forall>r \<in> set (request_t db). first_violation (request_checks r) = None
        \<and> caller_exists db (rq_CallerID r)) \<and>
     distinct (map ga_AuthorizationID (grant_t db)) \<and>
     (\<forall>g \<in> set (grant_t db). first_violation (grant_checks g) = None
        \<and> caller_exists db (ga_CallerID g)) \<and>
     distinct (map ws_AuthorizationID (gscope_t db)) \<and>
     (\<forall>s \<in> set (gscope_t db). first_violation (scope_checks s) = None
        \<and> has_row (\<lambda>g. ga_AuthorizationID g = ws_AuthorizationID s) (grant_t db)) \<and>
     distinct (map gu_OperationID (grant_audit_t db)) \<and>
     outbox_inv (events_t db)"

text \<open>The rows of a withdrawal table, whatever the other tables hold.\<close>

lemma wd_invD:
  assumes "wd_inv db"
  shows "distinct (map cr_CallerID (caller_t db))" and "distinct (map k_KeyID (api_key_t db))"
    and "distinct (map k_Hash (api_key_t db))"
    and "\<And>k. k \<in> set (api_key_t db) \<Longrightarrow> k_KeyID k \<le> key_seq db"
    and "\<And>k. k \<in> set (api_key_t db) \<Longrightarrow> caller_exists db (k_CallerID k)"
    and "distinct (map rq_RequestID (request_t db))"
    and "distinct (map (\<lambda>r. (rq_CallerID r, rq_IdempotencyKey r)) (request_t db))"
    and "distinct (map rq_AuthorizationID (request_t db))"
    and "\<And>r. r \<in> set (request_t db) \<Longrightarrow> first_violation (request_checks r) = None"
    and "distinct (map ga_AuthorizationID (grant_t db))"
    and "\<And>g. g \<in> set (grant_t db) \<Longrightarrow> first_violation (grant_checks g) = None"
    and "distinct (map ws_AuthorizationID (gscope_t db))"
    and "\<And>s. s \<in> set (gscope_t db) \<Longrightarrow> first_violation (scope_checks s) = None"
    and "distinct (map gu_OperationID (grant_audit_t db))"
    and "outbox_inv (events_t db)"
  using assms by (auto simp: wd_inv_def)

lemma unique_or_None:
  "unique_or cs us fs = None \<longleftrightarrow>
     first_violation cs = None \<and> first_violation us = None \<and> first_violation fs = None"
  by (simp add: unique_or_def split: option.splits)

lemma run_stmt_Inr [rbind_rules]: "run_stmt e s r = Inr x \<longleftrightarrow> w_fault e s = None \<and> r = Inr x"
  by (simp add: run_stmt_def split: option.splits)

lemma caller_exists_update [simp]:
  "caller_exists (db\<lparr>api_key_t := ks\<rparr>) c = caller_exists db c"
  "caller_exists (db\<lparr>grant_t := gs\<rparr>) c = caller_exists db c"
  "caller_exists (db\<lparr>gscope_t := ss\<rparr>) c = caller_exists db c"
  by (simp_all add: caller_exists_def)

text \<open>What an admitted insert says of the table before it.\<close>

lemma insert_caller_Inr:
  "insert_caller db c label = Inr db' \<longleftrightarrow> 0 < c \<and>
     (if caller_exists db c then db' = db
      else db' = db\<lparr>caller_t := caller_t db @ [\<lparr>cr_CallerID = c, cr_Label = label, cr_CanCreate = True\<rparr>]\<rparr>)"
  by (auto simp: insert_caller_def)

lemma insert_api_key_Inr:
  "insert_api_key db c hash prefix = Inr (db', n) \<longleftrightarrow>
     length hash = 64 \<and> list_all is_lower_hex hash \<and> \<not> has_row (\<lambda>k. k_Hash k = hash) (api_key_t db) \<and>
     caller_exists db c \<and> n = key_seq db + 1 \<and>
     db' = db\<lparr>api_key_t := api_key_t db @
       [\<lparr>k_KeyID = n, k_CallerID = c, k_Hash = hash, k_Prefix = prefix, k_RevokedAt = None\<rparr>], key_seq := n\<rparr>"
  by (auto simp: insert_api_key_def Let_def unique_or_None split: option.splits) (auto simp: unique_or_def)

lemma insert_request_Inr:
  "insert_request db r = Inr db' \<longleftrightarrow>
     first_violation (request_checks r) = None \<and>
     \<not> has_row (\<lambda>s. rq_RequestID s = rq_RequestID r) (request_t db) \<and>
     \<not> has_row (\<lambda>s. rq_CallerID s = rq_CallerID r \<and> rq_IdempotencyKey s = rq_IdempotencyKey r) (request_t db) \<and>
     \<not> has_row (\<lambda>s. rq_AuthorizationID s = rq_AuthorizationID r) (request_t db) \<and>
     caller_exists db (rq_CallerID r) \<and> db' = db\<lparr>request_t := request_t db @ [r]\<rparr>"
  by (auto simp: insert_request_def unique_or_def split: option.splits)

lemma insert_grant_Inr:
  "insert_grant db g = Inr db' \<longleftrightarrow>
     first_violation (grant_checks g) = None \<and>
     \<not> has_row (\<lambda>s. ga_AuthorizationID s = ga_AuthorizationID g) (grant_t db) \<and>
     caller_exists db (ga_CallerID g) \<and> db' = db\<lparr>grant_t := grant_t db @ [g]\<rparr>"
  by (auto simp: insert_grant_def unique_or_def split: option.splits)

lemma insert_scope_Inr:
  "insert_scope db s = Inr db' \<longleftrightarrow>
     first_violation (scope_checks s) = None \<and>
     \<not> has_row (\<lambda>x. ws_AuthorizationID x = ws_AuthorizationID s) (gscope_t db) \<and>
     has_row (\<lambda>g. ga_AuthorizationID g = ws_AuthorizationID s) (grant_t db) \<and>
     db' = db\<lparr>gscope_t := gscope_t db @ [s]\<rparr>"
  by (auto simp: insert_scope_def unique_or_def split: option.splits)

lemma insert_grant_audit_Inr:
  "insert_grant_audit db a = Inr db' \<longleftrightarrow>
     gu_Action a \<in> {''supplied'', ''resupplied'', ''supply_refused'', ''revoked'', ''revoke_nop''} \<and>
     \<not> has_row (\<lambda>x. gu_OperationID x = gu_OperationID a) (grant_audit_t db) \<and>
     db' = db\<lparr>grant_audit_t := grant_audit_t db @ [a]\<rparr>"
  by (auto simp: insert_grant_audit_def unique_or_def split: option.splits)

lemmas insert_Inr = insert_caller_Inr insert_api_key_Inr insert_request_Inr insert_grant_Inr
  insert_scope_Inr insert_grant_audit_Inr

lemma insert_caller_inv: "wd_inv db \<Longrightarrow> insert_caller db c label = Inr db' \<Longrightarrow> wd_inv db'"
  by (auto simp: insert_caller_Inr wd_inv_def caller_exists_def has_row_iff split: if_splits)

lemma insert_api_key_inv: "wd_inv db \<Longrightarrow> insert_api_key db c hash prefix = Inr (db', n) \<Longrightarrow> wd_inv db'"
  by (auto simp: insert_api_key_Inr wd_inv_def caller_exists_def has_row_iff)

lemma insert_request_inv: "wd_inv db \<Longrightarrow> insert_request db r = Inr db' \<Longrightarrow> wd_inv db'"
  by (auto simp: insert_request_Inr wd_inv_def caller_exists_def has_row_iff)

lemma insert_grant_inv: "wd_inv db \<Longrightarrow> insert_grant db g = Inr db' \<Longrightarrow> wd_inv db'"
  by (auto simp: insert_grant_Inr wd_inv_def caller_exists_def has_row_iff)

lemma insert_scope_inv: "wd_inv db \<Longrightarrow> insert_scope db s = Inr db' \<Longrightarrow> wd_inv db'"
  by (auto simp: insert_scope_Inr wd_inv_def caller_exists_def has_row_iff)

lemma insert_grant_audit_inv: "wd_inv db \<Longrightarrow> insert_grant_audit db a = Inr db' \<Longrightarrow> wd_inv db'"
  by (auto simp: insert_grant_audit_Inr wd_inv_def caller_exists_def has_row_iff)

lemma insert_request_audit_inv: "wd_inv db \<Longrightarrow> insert_request_audit db a = Inr db' \<Longrightarrow> wd_inv db'"
  by (auto simp: insert_request_audit_def wd_inv_def caller_exists_def split: if_splits)

lemmas insert_inv = insert_caller_inv insert_api_key_inv insert_request_inv insert_grant_inv
  insert_scope_inv insert_grant_audit_inv insert_request_audit_inv

lemma wd_inv_events: "wd_inv db \<Longrightarrow> outbox_inv ev \<Longrightarrow> wd_inv (db\<lparr>events_t := ev\<rparr>)"
  by (auto simp: wd_inv_def caller_exists_def)

text \<open>Tables whose rows never change.\<close>

interpretation fixed_rows: evolution "(=)"
  by unfold_locales simp_all

end
