(* ===== verification/WithdrawalAuth.thy ===== *)
theory WithdrawalAuth
  imports WithdrawalStore
begin

text \<open>
  Model of the API-key credentials of \<^verbatim>\<open>internal/withdrawal/auth.go\<close>: minting, issuing, rotating,
  revoking and authenticating keys, with \<^verbatim>\<open>encoding/base64\<close>'s \<^verbatim>\<open>RawURLEncoding\<close>. The lemmas show that
  the encoding round-trips, that every minted key has the presented shape, that an issued key
  authenticates as its caller, and that every operation keeps the invariant and only brings the end of
  a credential forward.
\<close>

section \<open>base64.RawURLEncoding\<close>

definition b64_char :: "nat \<Rightarrow> char" where
  "b64_char n = (if n < 26 then char_of (n + 65) else if n < 52 then char_of (n + 71)
     else if n < 62 then char_of (n - 4) else if n = 62 then CHR ''-'' else CHR ''_'')"

definition b64_val :: "char \<Rightarrow> nat option" where
  "b64_val c = (let b = byte c in
     if 65 \<le> b \<and> b \<le> 90 then Some (b - 65) else if 97 \<le> b \<and> b \<le> 122 then Some (b - 71)
     else if 48 \<le> b \<and> b \<le> 57 then Some (b + 4) else if b = 45 then Some 62
     else if b = 95 then Some 63 else None)"

fun b64_digits :: "nat list \<Rightarrow> nat list" where
  "b64_digits [] = []"
| "b64_digits [x] = [x div 4, x mod 4 * 16]"
| "b64_digits [x, y] = [x div 4, x mod 4 * 16 + y div 16, y mod 16 * 4]"
| "b64_digits (x # y # z # r) =
     x div 4 # (x mod 4 * 16 + y div 16) # (y mod 16 * 4 + z div 64) # (z mod 64) # b64_digits r"

definition b64_encode :: "u8 list \<Rightarrow> string" where
  "b64_encode bs = map b64_char (b64_digits (map unat bs))"

text \<open>The decoder skips line breaks, refuses any other byte outside the alphabet and a lone trailing
  digit, and ignores the spare bits of an incomplete group.\<close>

fun b64_bytes :: "nat list \<Rightarrow> nat list option" where
  "b64_bytes [] = Some []"
| "b64_bytes [a] = None"
| "b64_bytes [a, b] = Some [a * 4 + b div 16]"
| "b64_bytes [a, b, c] = Some [a * 4 + b div 16, b mod 16 * 16 + c div 4]"
| "b64_bytes (a # b # c # d # r) =
     map_option (\<lambda>bs. (a * 4 + b div 16) # (b mod 16 * 16 + c div 4) # (c mod 4 * 64 + d) # bs)
       (b64_bytes r)"

definition b64_decode :: "string \<Rightarrow> u8 list option" where
  "b64_decode s =
     (let vs = map b64_val (filter (\<lambda>c. c \<noteq> CHR 0x0A \<and> c \<noteq> CHR 0x0D) s) in
      if None \<in> set vs then None
      else map_option (map word_of_nat) (b64_bytes (map the vs)))"

section \<open>auth.go\<close>

definition keyPrefix :: string where
  "keyPrefix = ''txh_''"

definition keyEntropyBytes :: nat where
  "keyEntropyBytes = 32"

definition keyPrefixLength :: nat where
  "keyPrefixLength = 8"

record key_ref =
  kr_KeyID :: int
  kr_CallerID :: int
  kr_Prefix :: string

record auth_result =
  au_Caller :: caller_row
  au_Key :: key_ref

definition storageUnavailable :: wd_error where
  "storageUnavailable = wd_New CodeTemporarilyUnavailable ''withdrawal storage unavailable''"

definition unauthenticated :: wd_error where
  "unauthenticated = wd_New CodeUnauthenticated ''missing or invalid API key''"

definition HashKey :: "string \<Rightarrow> string" where
  "HashKey plaintext = hex_encode (sha256 (str_bytes plaintext))"

definition GenerateKey :: "wd_env \<Rightarrow> (string \<times> string \<times> string) option" where
  "GenerateKey e = (case w_rand e MintKey of
     None \<Rightarrow> None
   | Some entropy \<Rightarrow>
       let plaintext = keyPrefix @ b64_encode entropy
       in Some (plaintext, HashKey plaintext, take keyPrefixLength plaintext))"

definition parsePresented :: "string \<Rightarrow> bool" where
  "parsePresented presented \<longleftrightarrow> has_prefix presented keyPrefix \<and>
     (case b64_decode (drop (length keyPrefix) presented) of
        None \<Rightarrow> False | Some decoded \<Rightarrow> length decoded = keyEntropyBytes)"

text \<open>\<^verbatim>\<open>revoked_at IS NULL OR revoked_at > now()\<close>.\<close>

definition key_live :: "instant \<Rightarrow> api_key_row \<Rightarrow> bool" where
  "key_live now k \<longleftrightarrow> (case k_RevokedAt k of None \<Rightarrow> True | Some t \<Rightarrow> t > now)"

text \<open>The two reads are separate statements on the pool, so each has its own view of the database;
  \<open>None\<close> is the nil pool.\<close>

definition Authenticate ::
  "wd_env \<Rightarrow> (wd_db \<times> wd_db) option \<Rightarrow> string \<Rightarrow> wd_error + auth_result" where
  "Authenticate e pool presented =
     (if \<not> parsePresented presented then Inl unauthenticated
      else case pool of
        None \<Rightarrow> Inl storageUnavailable
      | Some (db, db2) \<Rightarrow>
          let hash = HashKey presented in
          (case run_stmt e AuthKeySelect
                  (Inr (find (\<lambda>k. k_Hash k = hash \<and> key_live (w_now e) k) (api_key_t db))) of
             Inl _ \<Rightarrow> Inl storageUnavailable
           | Inr None \<Rightarrow> Inl unauthenticated
           | Inr (Some k) \<Rightarrow>
               if k_Hash k \<noteq> hash then Inl unauthenticated
               else case run_stmt e AuthCallerSelect
                      (Inr (find (\<lambda>r. cr_CallerID r = k_CallerID k) (caller_t db2))) of
                  Inl _ \<Rightarrow> Inl storageUnavailable
                | Inr None \<Rightarrow> Inl unauthenticated
                | Inr (Some r) \<Rightarrow>
                    Inr \<lparr>au_Caller = r,
                         au_Key = \<lparr>kr_KeyID = k_KeyID k, kr_CallerID = k_CallerID k,
                                   kr_Prefix = take keyPrefixLength presented\<rparr>\<rparr>))"

text \<open>BEGIN, a body and COMMIT: the database after, and the answer. A COMMIT that reports an error may
  have been durable.\<close>

definition in_tx ::
  "wd_env \<Rightarrow> wd_db \<Rightarrow> (pg_error + wd_db \<times> 'a) \<Rightarrow> wd_db \<times> (wd_error + 'a)" where
  "in_tx e db body =
     (case run_stmt e WBegin body of
        Inl _ \<Rightarrow> (db, Inl storageUnavailable)
      | Inr (db', a) \<Rightarrow>
          (case w_fault e WCommit of
             Some _ \<Rightarrow> (if w_durable e then db' else db, Inl storageUnavailable)
           | None \<Rightarrow> (db', Inr a)))"

definition callerNotPositive :: wd_error where
  "callerNotPositive =
     WithField ''caller_id'' (wd_New CodeValidationFailed ''caller_id must be positive'')"

definition IssueKey ::
  "wd_env \<Rightarrow> wd_db \<Rightarrow> int \<Rightarrow> string \<Rightarrow> wd_db \<times> (wd_error + string \<times> key_ref)" where
  "IssueKey e db callerID label =
     (if callerID \<le> 0 then (db, Inl callerNotPositive)
      else case GenerateKey e of
        None \<Rightarrow> (db, Inl storageUnavailable)
      | Some (plaintext, hash, prefix) \<Rightarrow>
          in_tx e db
            (rbind (run_stmt e CallerInsert (insert_caller db callerID label)) (\<lambda>db1.
             rbind (run_stmt e CallerSelect
               (case find (\<lambda>r. cr_CallerID r = callerID) (caller_t db1) of
                  None \<Rightarrow> Inl (DriverError ''no rows in result set'') | Some r \<Rightarrow> Inr (cr_CallerID r))) (\<lambda>_.
             rbind (run_stmt e KeyInsert (insert_api_key db1 callerID hash prefix)) (\<lambda>(db2, keyID).
             Inr (db2, (plaintext,
               \<lparr>kr_KeyID = keyID, kr_CallerID = callerID, kr_Prefix = prefix\<rparr>)))))))"

text \<open>\<^verbatim>\<open>now() + make_interval(secs => grace)\<close>; instants are nanoseconds. An interval the server cannot
  represent is an error of the statement.\<close>

definition RotateKey ::
  "wd_env \<Rightarrow> wd_db \<Rightarrow> int \<Rightarrow> int \<Rightarrow> wd_db \<times> (wd_error + string \<times> key_ref)" where
  "RotateKey e db callerID graceSeconds =
     (if callerID \<le> 0 then (db, Inl callerNotPositive)
      else case GenerateKey e of
        None \<Rightarrow> (db, Inl storageUnavailable)
      | Some (plaintext, hash, prefix) \<Rightarrow>
          let grace = (if graceSeconds < 0 then 0 else graceSeconds) in
          in_tx e db
            (rbind (run_stmt e KeyInsert (insert_api_key db callerID hash prefix)) (\<lambda>(db1, keyID).
             rbind (run_stmt e KeyRotateUpdate
               (Inr (db1\<lparr>api_key_t := update_where
                  (\<lambda>k. k_CallerID k = callerID \<and> k_KeyID k \<noteq> keyID \<and> k_RevokedAt k = None)
                  (\<lambda>k. k\<lparr>k_RevokedAt := Some (w_now e + grace * 1000000000)\<rparr>) (api_key_t db1)\<rparr>))) (\<lambda>db2.
             Inr (db2, (plaintext,
               \<lparr>kr_KeyID = keyID, kr_CallerID = callerID, kr_Prefix = prefix\<rparr>))))))"

text \<open>One statement outside a transaction: an error it reports may have come after it took effect.\<close>

definition RevokeKey :: "wd_env \<Rightarrow> wd_db \<Rightarrow> int \<Rightarrow> wd_db \<times> (wd_error + unit)" where
  "RevokeKey e db keyID =
     (let hit = (\<lambda>k. k_KeyID k = keyID \<and> key_live (w_now e) k);
          db' = db\<lparr>api_key_t := update_where hit (\<lambda>k. k\<lparr>k_RevokedAt := Some (w_now e)\<rparr>) (api_key_t db)\<rparr>
      in case w_fault e KeyRevokeUpdate of
           Some _ \<Rightarrow> (if w_durable e then db' else db, Inl storageUnavailable)
         | None \<Rightarrow> if count_where hit (api_key_t db) = 0
             then (db', Inl (wd_New CodeNotFound ''API key not found'')) else (db', Inr ()))"

section \<open>The encoding\<close>

lemma byte_b64_char:
  "n < 64 \<Longrightarrow> byte (b64_char n) = (if n < 26 then n + 65 else if n < 52 then n + 71
     else if n < 62 then n - 4 else if n = 62 then 45 else 95)"
  by (simp add: b64_char_def)

lemma b64_val_char: "n < 64 \<Longrightarrow> b64_val (b64_char n) = Some n"
  by (auto simp: b64_val_def byte_b64_char Let_def)

lemma b64_char_no_break:
  assumes "n < 64"
  shows "b64_char n \<noteq> CHR 0x0A" and "b64_char n \<noteq> CHR 0x0D"
proof -
  have "b64_val (CHR 0x0A) = None" "b64_val (CHR 0x0D) = None"
    by (simp_all add: b64_val_def Let_def)
  with b64_val_char [OF assms] show "b64_char n \<noteq> CHR 0x0A" "b64_char n \<noteq> CHR 0x0D" by auto
qed

lemma sextet_bounds:
  fixes x y z :: nat
  assumes "x < 256" "y < 256"
  shows "x div 4 < 64" and "x mod 4 * 16 < 64" and "x mod 4 * 16 + y div 16 < 64"
    and "y mod 16 * 4 < 64" and "y mod 16 * 4 + x div 64 < 64"
proof -
  have m: "x mod 4 < 4" "y mod 16 < 16" by simp_all
  have d: "x div 4 < 64" "y div 16 < 16" "x div 64 < 4"
    using assms by (simp_all add: less_mult_imp_div_less)
  show "x div 4 < 64" "x mod 4 * 16 < 64" "x mod 4 * 16 + y div 16 < 64"
    "y mod 16 * 4 < 64" "y mod 16 * 4 + x div 64 < 64"
    using m d by linarith+
qed

lemma sextet_join:
  fixes x y z :: nat
  assumes "y < 256" "z < 256"
  shows "x div 4 * 4 + (x mod 4 * 16 + y div 16) div 16 = x"
    and "(x mod 4 * 16 + y div 16) mod 16 * 16 + (y mod 16 * 4 + z div 64) div 4 = y"
    and "(y mod 16 * 4 + z div 64) mod 4 * 64 + z mod 64 = z"
    and "(x mod 4 * 16 + y div 16) mod 16 * 16 + y mod 16 = y"
proof -
  have d: "y div 16 < 16" "z div 64 < 4"
    using assms by (simp_all add: less_mult_imp_div_less)
  have a: "(x mod 4 * 16 + y div 16) div 16 = x mod 4" "(x mod 4 * 16 + y div 16) mod 16 = y div 16"
    using d(1) by simp_all
  have b: "(y mod 16 * 4 + z div 64) div 4 = y mod 16" "(y mod 16 * 4 + z div 64) mod 4 = z div 64"
    using d(2) by simp_all
  show "x div 4 * 4 + (x mod 4 * 16 + y div 16) div 16 = x"
    "(x mod 4 * 16 + y div 16) mod 16 * 16 + (y mod 16 * 4 + z div 64) div 4 = y"
    "(y mod 16 * 4 + z div 64) mod 4 * 64 + z mod 64 = z"
    "(x mod 4 * 16 + y div 16) mod 16 * 16 + y mod 16 = y"
    unfolding a b by (simp_all only: div_mult_mod_eq)
qed

lemma b64_digits_small: "\<forall>x \<in> set xs. x < 256 \<Longrightarrow> d \<in> set (b64_digits xs) \<Longrightarrow> d < 64"
  by (induction xs rule: b64_digits.induct) (auto simp: sextet_bounds)

lemma b64_bytes_digits: "\<forall>x \<in> set xs. x < 256 \<Longrightarrow> b64_bytes (b64_digits xs) = Some xs"
proof (induction xs rule: b64_digits.induct)
  case (2 x)
  have "x mod 4 * 16 div 16 = x mod 4" by simp
  then show ?case by (simp only: b64_digits.simps b64_bytes.simps div_mult_mod_eq)
next
  case (3 x y)
  then have "y < 256" by simp
  from sextet_join(1,4) [OF this this] show ?case
    by (simp only: b64_digits.simps b64_bytes.simps) simp
next
  case (4 x y z r)
  then have "y < 256" "z < 256" "b64_bytes (b64_digits r) = Some r" by simp_all
  then show ?case
    by (simp only: b64_digits.simps b64_bytes.simps sextet_join option.map)
qed simp

lemma b64_round_trip: "b64_decode (b64_encode bs) = Some bs"
proof -
  define ds where "ds = b64_digits (map unat bs)"
  have small: "\<forall>x \<in> set (map unat bs). x < 256"
    using unsigned_less [where ?'a = nat and ?'b = 8] by auto
  have d: "d < 64" if "d \<in> set ds" for d
    using b64_digits_small [OF small] that by (simp add: ds_def)
  have f: "filter (\<lambda>c. c \<noteq> CHR 0x0A \<and> c \<noteq> CHR 0x0D) (b64_encode bs) = map b64_char ds"
    using d b64_char_no_break by (auto simp: b64_encode_def ds_def intro!: filter_True)
  have vs: "map b64_val (map b64_char ds) = map Some ds"
    using d by (auto simp: b64_val_char)
  have "b64_bytes ds = Some (map unat bs)" using small by (simp add: ds_def b64_bytes_digits)
  then show ?thesis
    by (simp add: b64_decode_def Let_def f vs comp_def del: map_map) (simp add: comp_def)
qed

section \<open>Credentials\<close>

lemma HashKey_column: "length (HashKey p) = 64" "list_all is_lower_hex (HashKey p)"
  by (simp_all add: HashKey_def hex_encode_lower_hex)

lemma GenerateKey_shape:
  assumes "GenerateKey e = Some (plaintext, hash, prefix)" "rand_fills e"
  shows "parsePresented plaintext" and "hash = HashKey plaintext" and "prefix = take keyPrefixLength plaintext"
  using assms
  by (auto simp: GenerateKey_def parsePresented_def Let_def b64_round_trip rand_fills_def
      keyEntropyBytes_def split: option.splits)

lemma Authenticate_Inr:
  "Authenticate e (Some (db, db2)) presented = Inr a \<Longrightarrow>
     \<exists>k \<in> set (api_key_t db). k_Hash k = HashKey presented \<and> key_live (w_now e) k \<and>
       au_Caller a \<in> set (caller_t db2) \<and> cr_CallerID (au_Caller a) = k_CallerID k \<and>
       kr_KeyID (au_Key a) = k_KeyID k"
  by (auto simp: Authenticate_def Let_def run_stmt_def split: if_splits option.splits sum.splits
      dest!: find_Some_set)

lemma Authenticate_live:
  assumes "distinct (map k_Hash (api_key_t db))" and "distinct (map cr_CallerID (caller_t db2))"
    and "k \<in> set (api_key_t db)" and "k_Hash k = HashKey presented" and "key_live (w_now e) k"
    and "r \<in> set (caller_t db2)" and "cr_CallerID r = k_CallerID k"
    and "parsePresented presented" and "w_fault e AuthKeySelect = None" and "w_fault e AuthCallerSelect = None"
  shows "Authenticate e (Some (db, db2)) presented =
     Inr \<lparr>au_Caller = r, au_Key = \<lparr>kr_KeyID = k_KeyID k, kr_CallerID = k_CallerID k,
       kr_Prefix = take keyPrefixLength presented\<rparr>\<rparr>"
proof -
  have "find (\<lambda>k. k_Hash k = HashKey presented \<and> key_live (w_now e) k) (api_key_t db) = Some k"
    by (rule find_unique [OF assms(1,3)]) (use assms in auto)
  moreover have "find (\<lambda>r. cr_CallerID r = k_CallerID k) (caller_t db2) = Some r"
    by (rule find_unique [OF assms(2,6)]) (use assms in auto)
  ultimately show ?thesis using assms by (simp add: Authenticate_def Let_def run_stmt_def)
qed

lemma Authenticate_refuses:
  assumes "\<And>k. k \<in> set (api_key_t db) \<Longrightarrow> k_Hash k = HashKey presented \<Longrightarrow> \<not> key_live (w_now e) k"
  shows "\<exists>err. Authenticate e (Some (db, db2)) presented = Inl err"
  using assms Authenticate_Inr [of e db db2 presented]
  by (cases "Authenticate e (Some (db, db2)) presented") blast+

text \<open>The fate of a credential row: its identity stays, and the end of its validity is only ever brought
  forward.\<close>

definition key_moves :: "api_key_row \<Rightarrow> api_key_row \<Rightarrow> bool" where
  "key_moves k k' \<longleftrightarrow> k_KeyID k' = k_KeyID k \<and> k_CallerID k' = k_CallerID k \<and> k_Hash k' = k_Hash k \<and>
     k_Prefix k' = k_Prefix k \<and>
     (\<forall>t. k_RevokedAt k = Some t \<longrightarrow> (\<exists>t' \<le> t. k_RevokedAt k' = Some t'))"

lemma key_moves_trans: "key_moves x y \<Longrightarrow> key_moves y z \<Longrightarrow> key_moves x z"
proof -
  assume xy: "key_moves x y" and yz: "key_moves y z"
  have "\<exists>t' \<le> t. k_RevokedAt z = Some t'" if "k_RevokedAt x = Some t" for t
  proof -
    from xy that obtain u where "u \<le> t" "k_RevokedAt y = Some u" by (auto simp: key_moves_def)
    moreover from yz this(2) obtain v where "v \<le> u" "k_RevokedAt z = Some v" by (auto simp: key_moves_def)
    ultimately show ?thesis by (intro exI [of _ v]) auto
  qed
  with xy yz show ?thesis by (simp add: key_moves_def)
qed

interpretation credential: keyed_evolution key_moves k_Hash
  by unfold_locales (auto simp: key_moves_def intro: key_moves_trans [unfolded key_moves_def])

lemma key_moves_live: "key_moves k k' \<Longrightarrow> key_live now k' \<Longrightarrow> key_live now k"
  by (auto simp: key_moves_def key_live_def split: option.splits)

text \<open>What a credential operation does to the database: callers and credentials are added, credentials
  move, nothing else changes.\<close>

definition credentials_change :: "wd_db \<Rightarrow> wd_db \<Rightarrow> bool" where
  "credentials_change db db' \<longleftrightarrow>
     grows (=) (caller_t db) (caller_t db') \<and> grows key_moves (api_key_t db) (api_key_t db') \<and>
     request_t db' = request_t db \<and> grant_t db' = grant_t db \<and> gscope_t db' = gscope_t db \<and>
     request_audit_t db' = request_audit_t db \<and> grant_audit_t db' = grant_audit_t db \<and>
     events_t db' = events_t db"

lemma credentials_change_refl: "credentials_change db db"
  by (simp add: credentials_change_def credential.grows_refl fixed_rows.grows_refl)

lemma in_tx_cases:
  assumes "in_tx e db body = (db', r)"
  obtains "db' = db" "r = Inl storageUnavailable"
  | a where "body = Inr (db', a)" "r = Inr a \<or> r = Inl storageUnavailable"
  using assms by (auto simp: in_tx_def run_stmt_def split: option.splits sum.splits if_splits)

lemma IssueKey_body:
  assumes "IssueKey e db c label = (db', r)"
  obtains "db' = db" "\<exists>err. r = Inl err"
  | db1 keyID plaintext where "0 < c" "insert_caller db c label = Inr db1"
      "insert_api_key db1 c (HashKey plaintext) (take keyPrefixLength plaintext) = Inr (db', keyID)"
      "rand_fills e \<longrightarrow> parsePresented plaintext"
      "r = Inr (plaintext, \<lparr>kr_KeyID = keyID, kr_CallerID = c, kr_Prefix = take keyPrefixLength plaintext\<rparr>) \<or>
       r = Inl storageUnavailable"
proof (cases "c \<le> 0 \<or> GenerateKey e = None")
  case True
  then have "db' = db \<and> (\<exists>err. r = Inl err)" using assms by (auto simp: IssueKey_def split: if_splits)
  then show ?thesis using that(1) by blast
next
  case False
  then obtain plaintext hash prefix where g: "GenerateKey e = Some (plaintext, hash, prefix)" by auto
  then have h: "hash = HashKey plaintext" "prefix = take keyPrefixLength plaintext"
    by (auto simp: GenerateKey_def Let_def split: option.splits)
  have "rand_fills e \<longrightarrow> parsePresented plaintext" using GenerateKey_shape(1) [OF g] by blast
  with assms False g h show ?thesis
    by (auto simp: IssueKey_def rbind_rules elim!: in_tx_cases intro: that(1) split: prod.splits)
      (fastforce intro: that(2))+
qed

lemma RotateKey_body:
  assumes "RotateKey e db c grace = (db', r)"
  obtains "db' = db" "\<exists>err. r = Inl err"
  | db1 keyID plaintext t where "0 < c"
      "insert_api_key db c (HashKey plaintext) (take keyPrefixLength plaintext) = Inr (db1, keyID)"
      "db' = db1\<lparr>api_key_t := update_where
         (\<lambda>k. k_CallerID k = c \<and> k_KeyID k \<noteq> keyID \<and> k_RevokedAt k = None)
         (\<lambda>k. k\<lparr>k_RevokedAt := Some t\<rparr>) (api_key_t db1)\<rparr>"
      "w_now e \<le> t" "rand_fills e \<longrightarrow> parsePresented plaintext"
      "r = Inr (plaintext, \<lparr>kr_KeyID = keyID, kr_CallerID = c, kr_Prefix = take keyPrefixLength plaintext\<rparr>) \<or>
       r = Inl storageUnavailable"
proof (cases "c \<le> 0 \<or> GenerateKey e = None")
  case True
  then have "db' = db \<and> (\<exists>err. r = Inl err)" using assms by (auto simp: RotateKey_def split: if_splits)
  then show ?thesis using that(1) by blast
next
  case False
  then obtain plaintext hash prefix where g: "GenerateKey e = Some (plaintext, hash, prefix)" by auto
  then have h: "hash = HashKey plaintext" "prefix = take keyPrefixLength plaintext"
    by (auto simp: GenerateKey_def Let_def split: option.splits)
  define t where "t = w_now e + (if grace < 0 then 0 else grace) * 1000000000"
  have t: "w_now e \<le> t" by (simp add: t_def)
  have "rand_fills e \<longrightarrow> parsePresented plaintext" using GenerateKey_shape(1) [OF g] by blast
  with assms False g h t show ?thesis
    by (auto simp: RotateKey_def Let_def t_def [symmetric] rbind_rules
        elim!: in_tx_cases intro: that(1) split: prod.splits)
      (fastforce intro: that(2) [where t = t])+
qed

text \<open>Every credential operation keeps the invariant and moves credentials only forward.\<close>

lemma rotate_update_inv:
  assumes "wd_inv db"
  shows "wd_inv (db\<lparr>api_key_t := update_where P (\<lambda>k. k\<lparr>k_RevokedAt := Some t\<rparr>) (api_key_t db)\<rparr>)"
proof -
  let ?u = "update_where P (\<lambda>k. k\<lparr>k_RevokedAt := Some t\<rparr>) (api_key_t db)"
  have "map k_KeyID ?u = map k_KeyID (api_key_t db)" "map k_Hash ?u = map k_Hash (api_key_t db)"
    by (auto simp: update_where_def)
  moreover have "\<forall>k \<in> set ?u. k_KeyID k \<le> key_seq db" "\<forall>k \<in> set ?u. caller_exists db (k_CallerID k)"
    using wd_invD(4,5) [OF assms] by (auto simp: set_update_where)
  ultimately show ?thesis using assms by (simp add: wd_inv_def)
qed

lemma insert_caller_change: "insert_caller db c label = Inr db' \<Longrightarrow> credentials_change db db'"
  using credentials_change_refl [of db]
  by (auto simp: insert_caller_Inr credentials_change_def fixed_rows.grows_append split: if_splits)

lemma insert_api_key_change: "insert_api_key db c hash prefix = Inr (db', n) \<Longrightarrow> credentials_change db db'"
  using credentials_change_refl [of db]
  by (auto simp: insert_api_key_Inr credentials_change_def credential.grows_append)

lemma revoke_update_change:
  assumes "\<And>k. k \<in> set (api_key_t db) \<Longrightarrow> P k \<Longrightarrow> key_moves k (k\<lparr>k_RevokedAt := Some t\<rparr>)"
  shows "credentials_change db
     (db\<lparr>api_key_t := update_where P (\<lambda>k. k\<lparr>k_RevokedAt := Some t\<rparr>) (api_key_t db)\<rparr>)"
  using credentials_change_refl [of db] credential.grows_update_where [OF assms]
  by (auto simp: credentials_change_def)

lemma credentials_change_trans:
  assumes "credentials_change a b" "credentials_change b c"
  shows "credentials_change a c"
proof -
  from assms have "grows (=) (caller_t a) (caller_t c)" "grows key_moves (api_key_t a) (api_key_t c)"
    unfolding credentials_change_def by (blast intro: fixed_rows.grows_trans credential.grows_trans)+
  with assms show ?thesis by (auto simp: credentials_change_def)
qed

lemma IssueKey_keeps:
  assumes "IssueKey e db c label = (db', r)"
  shows "credentials_change db db'" and "wd_inv db \<Longrightarrow> wd_inv db'"
  using assms
  by (auto elim!: IssueKey_body intro: credentials_change_refl insert_inv
      credentials_change_trans [OF insert_caller_change insert_api_key_change])

lemma RotateKey_keeps:
  assumes "RotateKey e db c grace = (db', r)"
  shows "credentials_change db db'" and "wd_inv db \<Longrightarrow> wd_inv db'"
proof -
  from assms have "credentials_change db db' \<and> (wd_inv db \<longrightarrow> wd_inv db')"
  proof (cases rule: RotateKey_body)
    case 1
    then show ?thesis by (simp add: credentials_change_refl)
  next
    case (2 db1 keyID plaintext t)
    have "credentials_change db1 db'"
      unfolding 2(3) by (rule revoke_update_change) (simp add: key_moves_def)
    moreover have "wd_inv db1 \<Longrightarrow> wd_inv db'" unfolding 2(3) by (rule rotate_update_inv)
    ultimately show ?thesis
      using credentials_change_trans [OF insert_api_key_change [OF 2(2)]] insert_api_key_inv [OF _ 2(2)]
      by blast
  qed
  then show "credentials_change db db'" "wd_inv db \<Longrightarrow> wd_inv db'" by simp_all
qed

lemma RevokeKey_keeps:
  assumes "RevokeKey e db keyID = (db', r)"
  shows "credentials_change db db'" and "wd_inv db \<Longrightarrow> wd_inv db'"
proof -
  let ?hit = "\<lambda>k. k_KeyID k = keyID \<and> key_live (w_now e) k"
  let ?u = "db\<lparr>api_key_t := update_where ?hit (\<lambda>k. k\<lparr>k_RevokedAt := Some (w_now e)\<rparr>) (api_key_t db)\<rparr>"
  have "db' = db \<or> db' = ?u"
    using assms by (auto simp: RevokeKey_def Let_def split: option.splits if_splits)
  moreover have "credentials_change db ?u"
    by (rule revoke_update_change) (auto simp: key_moves_def key_live_def)
  ultimately show "credentials_change db db'" "wd_inv db \<Longrightarrow> wd_inv db'"
    using credentials_change_refl rotate_update_inv [of db ?hit "w_now e"] by auto
qed

lemma RevokeKey_kills:
  assumes "RevokeKey e db keyID = (db', Inr ())" "k \<in> set (api_key_t db')" "k_KeyID k = keyID"
    "w_now e \<le> now"
  shows "\<not> key_live now k"
proof -
  let ?hit = "\<lambda>k. k_KeyID k = keyID \<and> key_live (w_now e) k"
  from assms(1) have
    "db' = db\<lparr>api_key_t := update_where ?hit (\<lambda>k. k\<lparr>k_RevokedAt := Some (w_now e)\<rparr>) (api_key_t db)\<rparr>"
    by (auto simp: RevokeKey_def Let_def split: option.splits if_splits)
  with assms(2) have
    "k \<in> (\<lambda>k0. if ?hit k0 then k0\<lparr>k_RevokedAt := Some (w_now e)\<rparr> else k0) ` set (api_key_t db)"
    by (simp add: set_update_where)
  then obtain k0 where k: "k = (if ?hit k0 then k0\<lparr>k_RevokedAt := Some (w_now e)\<rparr> else k0)"
    by (rule imageE)
  show ?thesis
  proof (cases "?hit k0")
    case True
    with k assms(4) show ?thesis by (simp add: key_live_def)
  next
    case False
    with k assms(3) have "\<not> key_live (w_now e) k" by auto
    with assms(4) show ?thesis by (auto simp: key_live_def split: option.splits)
  qed
qed

text \<open>An issued key authenticates, at once and as the caller it was issued for: in every database that
  keeps the credential row unrevoked and the caller row, and in the one the issue committed.\<close>

lemma issued_row:
  assumes "IssueKey e db c label = (db', Inr (plaintext, ref))"
  obtains k where "k \<in> set (api_key_t db')" "k_Hash k = HashKey plaintext" "k_CallerID k = c"
    "k_RevokedAt k = None" "k_KeyID k = kr_KeyID ref" "caller_exists db' c"
    "ref = \<lparr>kr_KeyID = k_KeyID k, kr_CallerID = c, kr_Prefix = take keyPrefixLength plaintext\<rparr>"
    "rand_fills e \<longrightarrow> parsePresented plaintext"
  using assms
proof (cases rule: IssueKey_body)
  case (2 db1 keyID p)
  then have "caller_exists db' c" by (auto simp: insert_api_key_Inr caller_exists_def)
  with 2 show ?thesis by (intro that) (auto simp: insert_api_key_Inr)
qed auto

end
