(* ===== verification/WithdrawalIntake.thy ===== *)
theory WithdrawalIntake
  imports WithdrawalAuth
begin

text \<open>
  Model of the receipt of withdrawal requests: \<^verbatim>\<open>internal/withdrawal/intake.go\<close> (\<^verbatim>\<open>SubmitWithdrawal\<close>, its
  receipt transaction, the fixed-order classification and the reject audit), \<^verbatim>\<open>query.go\<close>
  (\<^verbatim>\<open>GetWithdrawal\<close>) and the POST and GET handlers of \<^verbatim>\<open>internal/app/withdrawalhttp.go\<close> that call them.
  The handlers start from the decoded body and the header value and end at the response before it is
  rendered as JSON.

  A submission reads the database in several statements outside its transaction; each of them has a
  view of its own, so that whatever other sessions commit in between is covered. The receipt
  transaction is one atomic step: the grant row it validates is locked \<^verbatim>\<open>FOR SHARE\<close> up to the COMMIT.
\<close>

section \<open>intake.go: vocabulary\<close>

definition intakeRequestIDPrefix :: string where
  "intakeRequestIDPrefix = ''wr-''"

definition intakeRejectMarkerPrefix :: string where
  "intakeRejectMarkerPrefix = ''rej-''"

definition intakeUnavailableMessage :: string where
  "intakeUnavailableMessage =
     ''withdrawal storage unavailable or the submission outcome is unknown;'' @
     '' retry with the same idempotency key and the same parameters (never rotate the key)''"

definition intakeCapacityRefusedMessage :: string where
  "intakeCapacityRefusedMessage =
     ''withdrawal intake is temporarily paused while the event backlog is at the capacity boundary;'' @
     '' retry with the same idempotency key and the same parameters (never rotate the key)''"

definition intakeCapacityUnavailableMessage :: string where
  "intakeCapacityUnavailableMessage =
     ''withdrawal intake is temporarily unavailable while the event backlog state is unknown;'' @
     '' retry with the same idempotency key and the same parameters (never rotate the key)''"

text \<open>\<open>su_ResolveAllowlist\<close> and \<open>su_CapacityGate\<close> are the answers the two injected functions give when they
  are called; \<open>None\<close> is the nil function.\<close>

record submit_request =
  su_PresentedKey :: string
  su_IdempotencyKey :: string
  su_ChainID :: int
  su_ExpectedChainID :: int
  su_Asset :: string
  su_Recipient :: string
  su_Amount :: string
  su_AuthorizationID :: string
  su_Allowlist :: "string list"
  su_ResolveAllowlist :: "(policy_err + string list) option"
  su_CapacityGate :: "(capacity_err + capacity_admission) option"

record audit_intent =
  ai_CallerID :: int
  ai_RequestID :: string
  ai_Action :: string
  ai_Detail :: string

record submit_result =
  sr_Status :: int
  sr_Code :: "wd_code option"
  sr_Message :: string
  sr_RequestID :: string
  sr_Asset :: string
  sr_Recipient :: string
  sr_Amount :: string
  sr_Audit :: "audit_intent option"

record submit_params =
  pa_ChainID :: int
  pa_Asset :: string
  pa_Recipient :: string
  pa_Amount :: string
  pa_AuthorizationID :: string

definition row_matches :: "request_row \<Rightarrow> submit_params \<Rightarrow> bool" where
  "row_matches r p \<longleftrightarrow> rq_AuthorizationID r = pa_AuthorizationID p \<and> rq_ChainID r = pa_ChainID p \<and>
     rq_Asset r = pa_Asset p \<and> rq_Recipient r = pa_Recipient p \<and>
     int_text 10 (rq_Amount r) = pa_Amount p"

definition statusForCode :: "wd_code \<Rightarrow> int" where
  "statusForCode code = (case code of
     CodeMalformedRequest \<Rightarrow> 400 | CodeValidationFailed \<Rightarrow> 422 | CodeUnauthenticated \<Rightarrow> 401
   | CodeUnauthorized \<Rightarrow> 403 | CodeAuthorizationInvalid \<Rightarrow> 403
   | CodeIdempotencyConflict \<Rightarrow> 409 | CodeOperationConflict \<Rightarrow> 409
   | CodeNotFound \<Rightarrow> 404 | CodeTemporarilyUnavailable \<Rightarrow> 503)"

definition intakeErrorMessage :: "wd_error \<Rightarrow> string" where
  "intakeErrorMessage e =
     (if statusForCode (we_Code e) = 503 then intakeUnavailableMessage
      else if we_Field e \<noteq> [] then we_msg e @ '' (field: '' @ we_Field e @ '')''
      else we_msg e)"

definition auditIntent :: "int \<Rightarrow> string \<Rightarrow> string \<Rightarrow> string \<Rightarrow> audit_intent option" where
  "auditIntent callerID requestID action detail =
     (if callerID \<le> 0 then None
      else Some \<lparr>ai_CallerID = callerID, ai_RequestID = requestID, ai_Action = action,
                 ai_Detail = detail\<rparr>)"

text \<open>A result that carries no request.\<close>

definition refusal_result ::
  "int \<Rightarrow> wd_code \<Rightarrow> string \<Rightarrow> audit_intent option \<Rightarrow> submit_result" where
  "refusal_result status code msg audit =
     \<lparr>sr_Status = status, sr_Code = Some code, sr_Message = msg, sr_RequestID = [], sr_Asset = [],
      sr_Recipient = [], sr_Amount = [], sr_Audit = audit\<rparr>"

definition intakeResultFromError :: "wd_error \<Rightarrow> submit_result" where
  "intakeResultFromError e =
     refusal_result (statusForCode (we_Code e)) (we_Code e) (intakeErrorMessage e) None"

definition intakeUnavailableResult :: "int \<Rightarrow> submit_result" where
  "intakeUnavailableResult callerID =
     refusal_result 503 CodeTemporarilyUnavailable intakeUnavailableMessage
       (auditIntent callerID [] ''unavailable'' ''storage failure while submitting withdrawal'')"

definition intakeRejectResult :: "int \<Rightarrow> string \<Rightarrow> submit_result" where
  "intakeRejectResult callerID detail =
     refusal_result 403 CodeAuthorizationInvalid
       ''authorization is missing, inactive, or does not match the request''
       (auditIntent callerID [] ''rejected'' detail)"

definition replay_result :: "int \<Rightarrow> request_row \<Rightarrow> submit_result" where
  "replay_result callerID row =
     \<lparr>sr_Status = 200, sr_Code = None, sr_Message = ''withdrawal request already accepted'',
      sr_RequestID = rq_RequestID row, sr_Asset = rq_Asset row, sr_Recipient = rq_Recipient row,
      sr_Amount = int_text 10 (rq_Amount row),
      sr_Audit = auditIntent callerID (rq_RequestID row) ''replayed'' ''same key and parameters''\<rparr>"

definition conflict_result :: "int \<Rightarrow> request_row \<Rightarrow> submit_result" where
  "conflict_result callerID row =
     \<lparr>sr_Status = 409, sr_Code = Some CodeIdempotencyConflict,
      sr_Message = ''idempotency key already used with different parameters'',
      sr_RequestID = rq_RequestID row, sr_Asset = [], sr_Recipient = [], sr_Amount = [],
      sr_Audit = auditIntent callerID (rq_RequestID row) ''conflict''
        ''same idempotency key with different parameters''\<rparr>"

section \<open>intake.go: validation\<close>

definition canonicalAddressField :: "geth \<Rightarrow> string \<Rightarrow> string \<Rightarrow> wd_error + string" where
  "canonicalAddressField g raw field = map_err (WithField field) (CanonicalAddress g raw)"

definition normalizeSubmit :: "geth \<Rightarrow> submit_request \<Rightarrow> wd_error + submit_params" where
  "normalizeSubmit g req =
     rbind (ValidateIdempotencyKey (su_IdempotencyKey req)) (\<lambda>_.
     rbind (ValidateChainID (su_ChainID req) (su_ExpectedChainID req)) (\<lambda>_.
     if su_AuthorizationID req = [] then
       Inl (WithField ''authorization_id'' (wd_New CodeValidationFailed ''authorization_id is required''))
     else
     rbind (canonicalAddressField g (su_Asset req) ''asset'') (\<lambda>asset.
     rbind (canonicalAddressField g (su_Recipient req) ''recipient'') (\<lambda>recipient.
     rbind (ValidateAmount (su_Amount req)) (\<lambda>_.
     Inr \<lparr>pa_ChainID = su_ChainID req, pa_Asset = asset, pa_Recipient = recipient,
          pa_Amount = su_Amount req, pa_AuthorizationID = su_AuthorizationID req\<rparr>)))))"

definition intakeGrantValid :: "grant_row \<Rightarrow> int \<Rightarrow> submit_params \<Rightarrow> instant \<Rightarrow> bool" where
  "intakeGrantValid g callerID p tCheck \<longleftrightarrow>
     ga_State g = ''active'' \<and>
     (case ga_ExpiresAt g of None \<Rightarrow> True | Some x \<Rightarrow> x > tCheck) \<and>
     ga_CallerID g = callerID \<and> ga_ChainID g = pa_ChainID p \<and> ga_Asset g = pa_Asset p \<and>
     ga_Recipient g = pa_Recipient p \<and> int_text 10 (ga_Amount g) = pa_Amount p"

definition capacityAdmissionRefusal ::
  "int \<Rightarrow> (capacity_err + capacity_admission) option \<Rightarrow> submit_result option" where
  "capacityAdmissionRefusal callerID gate = (case gate of
     None \<Rightarrow> None
   | Some (Inl _) \<Rightarrow> Some (refusal_result 503 CodeTemporarilyUnavailable intakeCapacityUnavailableMessage
       (auditIntent callerID [] ''unavailable'' ''capacity state unreadable while admitting a new withdrawal''))
   | Some (Inr admission) \<Rightarrow>
       if \<not> ca_Refused admission then None
       else Some (refusal_result 503 CodeTemporarilyUnavailable intakeCapacityRefusedMessage
         (auditIntent callerID [] ''unavailable''
           (''capacity boundary reached (level='' @ capacity_level_str (ca_Level admission) @
            '' pending='' @ int_text 10 (ca_PendingTotal admission) @
            ''); new controllable write refused (PD-2)''))))"

section \<open>intake.go: reads and writes\<close>

definition mintRequestID :: "wd_env \<Rightarrow> string option" where
  "mintRequestID e = map_option (\<lambda>b. intakeRequestIDPrefix @ hex_encode b) (w_rand e MintRequestID)"

definition mintRejectMarker :: "wd_env \<Rightarrow> string" where
  "mintRejectMarker e = intakeRejectMarkerPrefix @
     (case w_rand e MintRejectMarker of None \<Rightarrow> ''unknown'' | Some b \<Rightarrow> hex_encode b)"

text \<open>The statement is a parameter because the classification repeats the read of the fast path.\<close>

definition readRequestByKey ::
  "wd_env \<Rightarrow> wd_stmt \<Rightarrow> wd_db \<Rightarrow> int \<Rightarrow> string \<Rightarrow> wd_error + request_row option" where
  "readRequestByKey e s db callerID key =
     map_err (\<lambda>_. storageUnavailable) (run_stmt e s
       (Inr (find (\<lambda>r. rq_CallerID r = callerID \<and> rq_IdempotencyKey r = key) (request_t db))))"

definition requestBoundToAuthorization :: "wd_env \<Rightarrow> wd_db \<Rightarrow> string \<Rightarrow> wd_error + bool" where
  "requestBoundToAuthorization e db authorizationID =
     map_err (\<lambda>_. storageUnavailable) (run_stmt e SelectByAuth
       (Inr (has_row (\<lambda>r. rq_AuthorizationID r = authorizationID) (request_t db))))"

definition intakeReadGrantForShare :: "wd_env \<Rightarrow> wd_db \<Rightarrow> string \<Rightarrow> pg_error + grant_row option" where
  "intakeReadGrantForShare e db authorizationID =
     run_stmt e SelectGrantForShare
       (Inr (find (\<lambda>g. ga_AuthorizationID g = authorizationID) (grant_t db)))"

definition received_event :: "instant \<Rightarrow> string \<Rightarrow> int \<Rightarrow> int \<Rightarrow> event" where
  "received_event now requestID callerID chainID =
     \<lparr>evt_EventType = ''withdrawal.request.received'', evt_SchemaVersion = 1,
      evt_IdentityKind = IdentityKindBusinessObject, evt_AggregateType = ''withdrawal_request'',
      evt_AggregateID = requestID, evt_AggregateVersion = 0,
      evt_Payload = Some [(''request_id'', JStr requestID), (''caller'', JNum callerID),
        (''state'', JStr ''accepted''), (''chain_id'', JNum chainID)],
      evt_OccurredAt = Some now, evt_ChainID = 0, evt_BlockNumber = 0, evt_BlockHash = [],
      evt_TxHash = [], evt_LogIndex = 0, evt_RecoveryVersion = 0, evt_RevisesEventID = None,
      evt_SourceKind = ''withdrawal_intake'', evt_SourceID = requestID, evt_SourceVersion = 0,
      evt_payloadJSON = None, evt_payloadHash = []\<rparr>"

abbreviation events_env :: "wd_env \<Rightarrow> ev_env" where
  "events_env e \<equiv> \<lparr>ev_fault = w_events e, ev_now = w_now e\<rparr>"

definition appendWithdrawalRequestReceivedEvent ::
  "(string \<Rightarrow> string) \<Rightarrow> wd_env \<Rightarrow> wd_db \<Rightarrow> string \<Rightarrow> int \<Rightarrow> int \<Rightarrow> ev_error + wd_db" where
  "appendWithdrawalRequestReceivedEvent uuid5 e db requestID callerID chainID =
     rbind (Append uuid5 (events_env e) (events_t db)
       (received_event (w_time e) requestID callerID chainID)) (\<lambda>(ev, _).
       Inr (db\<lparr>events_t := ev\<rparr>))"

definition insertReceiptAudit ::
  "wd_env \<Rightarrow> wd_db \<Rightarrow> string \<Rightarrow> int \<Rightarrow> string \<Rightarrow> string \<Rightarrow> pg_error + wd_db" where
  "insertReceiptAudit e db requestID callerID action detail =
     run_stmt e InsertRequestAudit (insert_request_audit db
       \<lparr>qa_RequestID = requestID, qa_CallerID = callerID, qa_Action = action, qa_Detail = detail\<rparr>)"

text \<open>\<^verbatim>\<open>$8::numeric\<close>: only amounts that \<^verbatim>\<open>ValidateAmount\<close> accepted reach the statement; any other text is
  refused here.\<close>

definition numeric_param :: "string \<Rightarrow> pg_error + int" where
  "numeric_param s = (case ValidateAmount s of Inl _ \<Rightarrow> Inl (PgError ''22P02'' []) | Inr v \<Rightarrow> Inr v)"

definition insertRequest ::
  "wd_env \<Rightarrow> wd_db \<Rightarrow> string \<Rightarrow> int \<Rightarrow> string \<Rightarrow> submit_params \<Rightarrow> pg_error + wd_db" where
  "insertRequest e db requestID callerID key p =
     run_stmt e InsertRequest (rbind (numeric_param (pa_Amount p)) (\<lambda>amount.
       insert_request db
         \<lparr>rq_RequestID = requestID, rq_CallerID = callerID, rq_IdempotencyKey = key,
          rq_AuthorizationID = pa_AuthorizationID p, rq_ChainID = pa_ChainID p, rq_Asset = pa_Asset p,
          rq_Recipient = pa_Recipient p, rq_Amount = amount, rq_Status = ''accepted'',
          rq_CreatedAt = w_now e\<rparr>))"

definition validAuditAction :: "string \<Rightarrow> bool" where
  "validAuditAction action \<longleftrightarrow>
     action \<in> {''created'', ''replayed'', ''conflict'', ''rejected'', ''auth_failed'', ''unavailable''}"

text \<open>One detached statement: an error it reports may have come after it took effect. \<open>None\<close> is the nil
  pool.\<close>

definition WriteRejectAudit ::
  "wd_env \<Rightarrow> bool \<Rightarrow> wd_db \<Rightarrow> int \<Rightarrow> string \<Rightarrow> string \<Rightarrow> string \<Rightarrow> wd_db \<times> (wd_error + unit)" where
  "WriteRejectAudit e pool db callerID requestID action detail =
     (if \<not> pool then (db, Inl storageUnavailable)
      else if callerID \<le> 0 then (db, Inl callerNotPositive)
      else if \<not> validAuditAction action then (db, Inl (WithField ''action''
        (wd_New CodeValidationFailed ''unknown withdrawal audit action'')))
      else
        let id = (if requestID = [] then mintRejectMarker e else requestID) in
        case insert_request_audit db
            \<lparr>qa_RequestID = id, qa_CallerID = callerID, qa_Action = action, qa_Detail = detail\<rparr> of
          Inl _ \<Rightarrow> (db, Inl storageUnavailable)
        | Inr db' \<Rightarrow> (case w_fault e InsertRejectAudit of
              Some _ \<Rightarrow> (if w_durable e then db' else db, Inl storageUnavailable)
            | None \<Rightarrow> (db', Inr ())))"

section \<open>intake.go: the receipt transaction\<close>

definition classifyFixedOrder ::
  "wd_env \<Rightarrow> wd_db \<times> wd_db \<Rightarrow> int \<Rightarrow> string \<Rightarrow> submit_params \<Rightarrow> submit_result" where
  "classifyFixedOrder e views callerID key p =
     (case readRequestByKey e ReselectByKey (fst views) callerID key of
        Inl _ \<Rightarrow> intakeUnavailableResult callerID
      | Inr (Some row) \<Rightarrow>
          if row_matches row p then replay_result callerID row else conflict_result callerID row
      | Inr None \<Rightarrow>
          (case requestBoundToAuthorization e (snd views) (pa_AuthorizationID p) of
             Inl _ \<Rightarrow> intakeUnavailableResult callerID
           | Inr True \<Rightarrow> refusal_result 403 CodeAuthorizationInvalid
               ''authorization is already bound to another withdrawal request''
               (auditIntent callerID [] ''auth_failed'' ''authorization already bound to another request'')
           | Inr False \<Rightarrow> intakeUnavailableResult callerID))"

text \<open>The transaction body, up to the COMMIT: \<open>Inl\<close> the answer of a body that is rolled back, with the
  rollbacks that classify still to do.\<close>

datatype receipt_stop = StopWith submit_result | StopClassify

definition receipt_body ::
  "(string \<Rightarrow> string) \<Rightarrow> wd_env \<Rightarrow> wd_db \<Rightarrow> int \<Rightarrow> string \<Rightarrow> submit_params \<Rightarrow> string
     \<Rightarrow> receipt_stop + wd_db" where
  "receipt_body uuid5 e db callerID key p requestID =
     (let unavailable = (\<lambda>_. StopWith (intakeUnavailableResult callerID)) in
      rbind (map_err unavailable (run_stmt e WBegin (Inr ()))) (\<lambda>_.
      rbind (map_err unavailable (run_stmt e WGuard (Inr ()))) (\<lambda>_.
      rbind (map_err unavailable (intakeReadGrantForShare e db (pa_AuthorizationID p))) (\<lambda>found.
      case found of
        None \<Rightarrow> Inl (StopWith (intakeRejectResult callerID ''authorization is missing''))
      | Some g \<Rightarrow>
          rbind (map_err unavailable (run_stmt e SelectClock (Inr (w_clock e)))) (\<lambda>tCheck.
          if \<not> intakeGrantValid g callerID p tCheck then
            Inl (StopWith (intakeRejectResult callerID
              ''authorization is not active or does not match the request''))
          else
            case insertRequest e db requestID callerID key p of
              Inl (PgError code name) \<Rightarrow>
                if code = ''23505'' then Inl StopClassify
                else if code = ''23514'' then
                  Inl (StopWith (refusal_result 422 CodeValidationFailed
                    ''withdrawal request failed storage validation''
                    (auditIntent callerID [] ''rejected'' ''request failed a storage constraint'')))
                else Inl (StopWith (intakeUnavailableResult callerID))
            | Inl (DriverError _) \<Rightarrow> Inl (StopWith (intakeUnavailableResult callerID))
            | Inr db1 \<Rightarrow>
                rbind (map_err unavailable
                  (insertReceiptAudit e db1 requestID callerID ''created'' ''first receipt'')) (\<lambda>db2.
                map_err (\<lambda>_. StopWith (intakeUnavailableResult callerID))
                  (appendWithdrawalRequestReceivedEvent uuid5 e db2 requestID callerID
                    (pa_ChainID p))))))))"

text \<open>\<open>after\<close> gives the two views the classification reads, from the database the transaction left.\<close>

definition submitInTx ::
  "(string \<Rightarrow> string) \<Rightarrow> wd_env \<Rightarrow> wd_db \<Rightarrow> (wd_db \<Rightarrow> wd_db \<times> wd_db) \<Rightarrow> int \<Rightarrow> submit_request
     \<Rightarrow> submit_params \<Rightarrow> wd_db \<times> (wd_error + submit_result)" where
  "submitInTx uuid5 e db after callerID req p =
     (case mintRequestID e of
        None \<Rightarrow> (db, Inl storageUnavailable)
      | Some requestID \<Rightarrow>
          (case receipt_body uuid5 e db callerID (su_IdempotencyKey req) p requestID of
             Inl (StopWith r) \<Rightarrow> (db, Inr r)
           | Inl StopClassify \<Rightarrow>
               (db, Inr (classifyFixedOrder e (after db) callerID (su_IdempotencyKey req) p))
           | Inr db' \<Rightarrow>
               (case w_fault e WCommit of
                  Some _ \<Rightarrow>
                    let left = (if w_durable e then db' else db) in
                    (left, Inr (classifyFixedOrder e (after left) callerID (su_IdempotencyKey req) p))
                | None \<Rightarrow>
                    (db', Inr \<lparr>sr_Status = 201, sr_Code = None, sr_Message = ''withdrawal request accepted'',
                       sr_RequestID = requestID, sr_Asset = pa_Asset p, sr_Recipient = pa_Recipient p,
                       sr_Amount = pa_Amount p, sr_Audit = None\<rparr>))))"

section \<open>intake.go: SubmitWithdrawal\<close>

text \<open>What the statements outside the transaction see: the two reads of the authentication, the lookup of
  the fast path, and the two reads of the classification.\<close>

record submit_views =
  sv_auth :: "wd_db \<times> wd_db"
  sv_fast :: wd_db
  sv_after :: "wd_db \<Rightarrow> wd_db \<times> wd_db"

definition first_create ::
  "geth \<Rightarrow> (string \<Rightarrow> string) \<Rightarrow> wd_env \<Rightarrow> submit_views \<Rightarrow> wd_db \<Rightarrow> int \<Rightarrow> submit_request
     \<Rightarrow> submit_params \<Rightarrow> wd_db \<times> (wd_error + submit_result)" where
  "first_create g uuid5 e v db callerID req norm =
     (case (case su_ResolveAllowlist req of None \<Rightarrow> Inr (su_Allowlist req) | Some r \<Rightarrow> r) of
        Inl _ \<Rightarrow> (db, Inr (refusal_result 503 CodeTemporarilyUnavailable intakeUnavailableMessage
          (auditIntent callerID [] ''unavailable'' ''storage failure while resolving withdrawal allowlist'')))
      | Inr allowlist \<Rightarrow>
          (case ValidateAssetWhitelisted (pa_Asset norm) allowlist of
             Inl verr \<Rightarrow> (db, Inr (refusal_result 422 CodeValidationFailed (intakeErrorMessage verr)
               (auditIntent callerID [] ''rejected'' (wd_Error verr))))
           | Inr _ \<Rightarrow>
               (case capacityAdmissionRefusal callerID (su_CapacityGate req) of
                  Some refusal \<Rightarrow> (db, Inr refusal)
                | None \<Rightarrow> submitInTx uuid5 e db (sv_after v) callerID req norm)))"

definition SubmitWithdrawal ::
  "geth \<Rightarrow> (string \<Rightarrow> string) \<Rightarrow> wd_env \<Rightarrow> bool \<Rightarrow> bool \<Rightarrow> submit_views \<Rightarrow> wd_db \<Rightarrow> submit_request
     \<Rightarrow> wd_db \<times> (wd_error + submit_result)" where
  "SubmitWithdrawal g uuid5 e pool ctx_dead v db req =
     (if \<not> pool then (db, Inl storageUnavailable)
      else if ctx_dead then (db, Inl storageUnavailable)
      else case Authenticate e (Some (sv_auth v)) (su_PresentedKey req) of
        Inl err \<Rightarrow> (db, Inr (intakeResultFromError err))
      | Inr auth \<Rightarrow>
          let callerID = cr_CallerID (au_Caller auth) in
          if \<not> cr_CanCreate (au_Caller auth) then
            (db, Inr (refusal_result 403 CodeUnauthorized
              ''caller lacks interface permission to create withdrawals''
              (auditIntent callerID [] ''rejected'' ''caller lacks interface permission'')))
          else case normalizeSubmit g req of
            Inl verr \<Rightarrow> (db, Inr (refusal_result 422 CodeValidationFailed (intakeErrorMessage verr)
              (auditIntent callerID [] ''rejected'' (wd_Error verr))))
          | Inr norm \<Rightarrow>
              (case readRequestByKey e SelectByKey (sv_fast v) callerID (su_IdempotencyKey req) of
                 Inl cerr \<Rightarrow> (db, Inr (intakeResultFromError cerr))
               | Inr (Some row) \<Rightarrow>
                   (db, Inr (if row_matches row norm then replay_result callerID row
                             else conflict_result callerID row))
               | Inr None \<Rightarrow> first_create g uuid5 e v db callerID req norm))"

section \<open>query.go\<close>

record recovery_signal =
  rs_State :: string
  rs_Execution :: string

record withdrawal_view =
  wv_RequestID :: string
  wv_CallerID :: int
  wv_ChainID :: int
  wv_Asset :: string
  wv_Recipient :: string
  wv_Amount :: string
  wv_Status :: string
  wv_CreatedAt :: instant
  wv_Recovery :: recovery_signal

definition queryReadRequest :: "wd_env \<Rightarrow> wd_db \<Rightarrow> int \<Rightarrow> string \<Rightarrow> wd_error + request_row" where
  "queryReadRequest e db callerID requestID =
     (case run_stmt e QuerySelectRequest
        (Inr (find (\<lambda>r. rq_RequestID r = requestID \<and> rq_CallerID r = callerID) (request_t db))) of
        Inl _ \<Rightarrow> Inl storageUnavailable
      | Inr None \<Rightarrow> Inl (wd_New CodeNotFound ''withdrawal not found'')
      | Inr (Some r) \<Rightarrow> Inr r)"

definition combineRecoveryState :: "bool \<Rightarrow> string \<Rightarrow> bool \<Rightarrow> bool \<Rightarrow> string" where
  "combineRecoveryState rowPresent phase released readErr =
     (if readErr then ''unknown''
      else if rowPresent then
        (if phase = ''reconcile_required'' then ''paused_reconcile'' else ''recovering'')
      else if released then ''released''
      else ''none'')"

definition queryRecoverySignal :: "string \<Rightarrow> recovery_signal" where
  "queryRecoverySignal state = \<lparr>rs_State = state, rs_Execution = ''not_started''\<rparr>"

text \<open>The recovery tables are those of chain re-organisation (\<^verbatim>\<open>internal/indexer\<close>): the phase of the active
  row per chain, and the log of recovery events per chain.\<close>

record recovery_view =
  rv_active :: "(int \<times> string) list"
  rv_events :: "(int \<times> string) list"

definition LoadRecoveryState :: "wd_env \<Rightarrow> recovery_view \<Rightarrow> int \<Rightarrow> pg_error + string option" where
  "LoadRecoveryState e rv chainID = run_stmt e RecoveryRowSelect (Inr (map_of (rv_active rv) chainID))"

definition RecoveryReleased :: "wd_env \<Rightarrow> recovery_view \<Rightarrow> int \<Rightarrow> pg_error + bool" where
  "RecoveryReleased e rv chainID = run_stmt e RecoveryReleasedSelect
     (Inr (has_row (\<lambda>(c, ev). c = chainID \<and> ev \<in> {''auto_completed'', ''released''}) (rv_events rv)))"

definition queryReadRecoverySignal :: "wd_env \<Rightarrow> recovery_view \<Rightarrow> int \<Rightarrow> recovery_signal" where
  "queryReadRecoverySignal e rv chainID =
     (case w_fault e SnapshotBegin of
        Some _ \<Rightarrow> queryRecoverySignal ''unknown''
      | None \<Rightarrow>
          (case LoadRecoveryState e rv chainID of
             Inl _ \<Rightarrow> queryRecoverySignal (combineRecoveryState False [] False True)
           | Inr row \<Rightarrow>
               let phase = (case row of None \<Rightarrow> [] | Some ph \<Rightarrow> ph) in
               (case RecoveryReleased e rv chainID of
                  Inl _ \<Rightarrow> queryRecoverySignal (combineRecoveryState (row \<noteq> None) phase False True)
                | Inr released \<Rightarrow>
                    queryRecoverySignal (combineRecoveryState (row \<noteq> None) phase released False))))"

definition GetWithdrawal ::
  "wd_env \<Rightarrow> wd_db \<Rightarrow> recovery_view \<Rightarrow> int \<Rightarrow> string \<Rightarrow> wd_error + withdrawal_view" where
  "GetWithdrawal e db rv callerID requestID =
     rbind (queryReadRequest e db callerID requestID) (\<lambda>r.
       Inr \<lparr>wv_RequestID = rq_RequestID r, wv_CallerID = rq_CallerID r, wv_ChainID = rq_ChainID r,
            wv_Asset = rq_Asset r, wv_Recipient = rq_Recipient r, wv_Amount = int_text 10 (rq_Amount r),
            wv_Status = rq_Status r, wv_CreatedAt = rq_CreatedAt r,
            wv_Recovery = queryReadRecoverySignal e rv (rq_ChainID r)\<rparr>)"

section \<open>withdrawalhttp.go\<close>

definition withdrawalBearerToken :: "string \<Rightarrow> string option" where
  "withdrawalBearerToken header =
     (if \<not> has_prefix header ''Bearer '' then None
      else let token = TrimSpace (drop (length ''Bearer '') header)
        in if token = [] then None else Some token)"

record withdrawal_body =
  wb_IdempotencyKey :: string
  wb_ChainID :: int
  wb_Asset :: string
  wb_Recipient :: string
  wb_Amount :: string
  wb_AuthorizationID :: string

text \<open>A response before it is rendered: status, machine code, request id, and the echoed facts.\<close>

datatype http_response =
    HttpError int string string string
  | HttpAccepted int string int string string string
  | HttpView withdrawal_view

definition unavailable_response :: http_response where
  "unavailable_response =
     HttpError 503 (code_text CodeTemporarilyUnavailable) intakeUnavailableMessage []"

definition unauthenticated_response :: http_response where
  "unauthenticated_response = HttpError 401 (code_text CodeUnauthenticated) ''missing or invalid API key'' []"

definition render_submit :: "int \<Rightarrow> submit_result \<Rightarrow> http_response" where
  "render_submit chainID r =
     (if sr_Status r = 201 \<or> sr_Status r = 200
      then HttpAccepted (sr_Status r) (sr_RequestID r) chainID (sr_Asset r) (sr_Recipient r) (sr_Amount r)
      else HttpError (sr_Status r) (case sr_Code r of None \<Rightarrow> [] | Some c \<Rightarrow> code_text c)
        (sr_Message r) (sr_RequestID r))"

text \<open>The environment of a POST: the policy history the resolver reads (and whether it reads), the gate of
  the capacity guard with what it observes, and the environment of the audit write that follows the
  response. \<open>body\<close> is \<open>None\<close> when the JSON does not decode.\<close>

record post_env =
  po_policies :: "bool \<times> deposit_policy list"
  po_gate :: "(capacity_limits \<times> pg_error option \<times> events_db) option"
  po_audit :: wd_env

definition ServePOST ::
  "geth \<Rightarrow> (string \<Rightarrow> string) \<Rightarrow> wd_env \<Rightarrow> post_env \<Rightarrow> bool \<Rightarrow> bool \<Rightarrow> int \<Rightarrow> submit_views \<Rightarrow> wd_db
     \<Rightarrow> bool \<Rightarrow> withdrawal_body option \<Rightarrow> string \<Rightarrow> wd_db \<times> http_response" where
  "ServePOST g uuid5 e pe pool ctx_dead chainID v db post decoded header =
     (if \<not> post then (db, HttpError 405 ''method_not_allowed'' ''method not allowed'' [])
      else case decoded of
        None \<Rightarrow> (db, HttpError 400 (code_text CodeMalformedRequest) ''request body is not valid JSON'' [])
      | Some body \<Rightarrow>
          (case withdrawalBearerToken header of
             None \<Rightarrow> (db, unauthenticated_response)
           | Some token \<Rightarrow>
               (case SubmitWithdrawal g uuid5 e pool ctx_dead v db
                  \<lparr>su_PresentedKey = token, su_IdempotencyKey = wb_IdempotencyKey body,
                   su_ChainID = wb_ChainID body, su_ExpectedChainID = chainID, su_Asset = wb_Asset body,
                   su_Recipient = wb_Recipient body, su_Amount = wb_Amount body,
                   su_AuthorizationID = wb_AuthorizationID body, su_Allowlist = [],
                   su_ResolveAllowlist =
                     Some (ResolveAssetAllowlist g (fst (po_policies pe)) (snd (po_policies pe)) chainID),
                   su_CapacityGate = map_option (\<lambda>(limits, fault, ev).
                     fst (AdmitNewControllable limits fault (w_now e) ev ''withdrawal_create'')) (po_gate pe)\<rparr> of
                  (db', Inl _) \<Rightarrow> (db', unavailable_response)
                | (db', Inr res) \<Rightarrow>
                    (case sr_Audit res of
                       None \<Rightarrow> (db', render_submit (wb_ChainID body) res)
                     | Some a \<Rightarrow>
                         (fst (WriteRejectAudit (po_audit pe) pool db' (ai_CallerID a) (ai_RequestID a)
                            (ai_Action a) (ai_Detail a)), render_submit (wb_ChainID body) res)))))"

definition ServeGET ::
  "wd_env \<Rightarrow> (wd_db \<times> wd_db) option \<Rightarrow> wd_db \<Rightarrow> recovery_view \<Rightarrow> bool \<Rightarrow> string \<Rightarrow> string
     \<Rightarrow> http_response" where
  "ServeGET e pool db rv get header requestID =
     (if \<not> get then HttpError 405 ''method_not_allowed'' ''method not allowed'' []
      else case withdrawalBearerToken header of
        None \<Rightarrow> unauthenticated_response
      | Some token \<Rightarrow>
          (case Authenticate e pool token of
             Inl err \<Rightarrow> if we_Code err = CodeUnauthenticated then unauthenticated_response
               else unavailable_response
           | Inr auth \<Rightarrow>
               (case GetWithdrawal e db rv (cr_CallerID (au_Caller auth)) requestID of
                  Inl err \<Rightarrow> if we_Code err = CodeNotFound
                    then HttpError 404 (code_text CodeNotFound) ''withdrawal not found'' []
                    else unavailable_response
                | Inr view \<Rightarrow> HttpView view)))"

end
