(* ===== verification/WithdrawalIntakeSpec.thy ===== *)
theory WithdrawalIntakeSpec
  imports WithdrawalIntake
begin

text \<open>
  Correctness of the receipt of withdrawal requests: what a receipt is and what it takes, that nothing
  else changes the tables, that a repeated submission is answered from the stored request whatever
  became of its grant, which answer a submission gets when nothing fails, and what a caller can read.
\<close>

section \<open>Receipts\<close>

definition authorised :: "wd_db \<Rightarrow> instant \<Rightarrow> request_row \<Rightarrow> bool" where
  "authorised db t r \<longleftrightarrow> (\<exists>g \<in> set (grant_t db).
     ga_AuthorizationID g = rq_AuthorizationID r \<and> ga_State g = ''active'' \<and>
     (case ga_ExpiresAt g of None \<Rightarrow> True | Some x \<Rightarrow> t < x) \<and>
     ga_CallerID g = rq_CallerID r \<and> ga_ChainID g = rq_ChainID r \<and> ga_Asset g = rq_Asset r \<and>
     ga_Recipient g = rq_Recipient r \<and> ga_Amount g = rq_Amount r)"

definition created_audit :: "request_row \<Rightarrow> request_audit" where
  "created_audit r = \<lparr>qa_RequestID = rq_RequestID r, qa_CallerID = rq_CallerID r,
     qa_Action = ''created'', qa_Detail = ''first receipt''\<rparr>"

definition announces :: "request_row \<Rightarrow> outbox_event \<Rightarrow> bool" where
  "announces r x \<longleftrightarrow> ob_EventType x = ''withdrawal.request.received'' \<and>
     ob_AggregateType x = ''withdrawal_request'' \<and> ob_AggregateID x = rq_RequestID r \<and>
     ob_PublishState x = PublishStatePending"

text \<open>One request, its audit row and its event, in one step.\<close>

definition receipt_of :: "wd_db \<Rightarrow> wd_db \<Rightarrow> request_row \<Rightarrow> bool" where
  "receipt_of db db' r \<longleftrightarrow>
     db' = db\<lparr>request_t := request_t db @ [r], request_audit_t := request_audit_t db @ [created_audit r],
              events_t := events_t db'\<rparr> \<and>
     (\<exists>x. outbox_t (events_t db') = outbox_t (events_t db) @ [x] \<and> announces r x)"

definition receipt_row :: "wd_env \<Rightarrow> int \<Rightarrow> string \<Rightarrow> submit_params \<Rightarrow> string \<Rightarrow> int \<Rightarrow> request_row" where
  "receipt_row e callerID key p requestID amount =
     \<lparr>rq_RequestID = requestID, rq_CallerID = callerID, rq_IdempotencyKey = key,
      rq_AuthorizationID = pa_AuthorizationID p, rq_ChainID = pa_ChainID p, rq_Asset = pa_Asset p,
      rq_Recipient = pa_Recipient p, rq_Amount = amount, rq_Status = ''accepted'',
      rq_CreatedAt = w_now e\<rparr>"

lemma normalizeSubmit_Inr:
  assumes "normalizeSubmit g req = Inr p"
  shows "ValidateIdempotencyKey (su_IdempotencyKey req) = Inr ()" and "0 < pa_ChainID p"
    and "pa_ChainID p = su_ChainID req" and "su_ChainID req = su_ExpectedChainID req"
    and "CanonicalAddress g (su_Asset req) = Inr (pa_Asset p)"
    and "CanonicalAddress g (su_Recipient req) = Inr (pa_Recipient p)"
    and "\<exists>v. ValidateAmount (pa_Amount p) = Inr v" and "pa_Amount p = su_Amount req"
    and "pa_AuthorizationID p = su_AuthorizationID req" and "su_AuthorizationID req \<noteq> []"
  using assms
  by (auto simp: normalizeSubmit_def rbind_rules canonicalAddressField_def ValidateChainID_iff
      split: if_splits)

lemma numeric_param_Inr: "numeric_param s = Inr v \<longleftrightarrow> ValidateAmount s = Inr v"
  by (auto simp: numeric_param_def split: sum.splits)

lemma receipt_body_steps:
  assumes "receipt_body uuid5 e db c key p rid = Inr db'"
  obtains gr v ev res where "gr \<in> set (grant_t db)" "ga_AuthorizationID gr = pa_AuthorizationID p"
    "intakeGrantValid gr c p (w_clock e)" "ValidateAmount (pa_Amount p) = Inr v"
    "insert_request db (receipt_row e c key p rid v) = Inr (db\<lparr>request_t := request_t db @ [receipt_row e c key p rid v]\<rparr>)"
    "Append uuid5 (events_env e) (events_t db) (received_event (w_time e) rid c (pa_ChainID p)) = Inr (ev, res)"
    "db' = db\<lparr>request_t := request_t db @ [receipt_row e c key p rid v],
       request_audit_t := request_audit_t db @ [created_audit (receipt_row e c key p rid v)], events_t := ev\<rparr>"
proof -
  from assms obtain gr where gr: "find (\<lambda>g. ga_AuthorizationID g = pa_AuthorizationID p) (grant_t db) = Some gr"
    and valid: "intakeGrantValid gr c p (w_clock e)"
    and rest: "(case insertRequest e db rid c key p of
              Inl (PgError code name) \<Rightarrow>
                if code = ''23505'' then Inl StopClassify
                else if code = ''23514'' then
                  Inl (StopWith (refusal_result 422 CodeValidationFailed
                    ''withdrawal request failed storage validation''
                    (auditIntent c [] ''rejected'' ''request failed a storage constraint'')))
                else Inl (StopWith (intakeUnavailableResult c))
            | Inl (DriverError _) \<Rightarrow> Inl (StopWith (intakeUnavailableResult c))
            | Inr db1 \<Rightarrow>
                rbind (map_err (\<lambda>_. StopWith (intakeUnavailableResult c))
                  (insertReceiptAudit e db1 rid c ''created'' ''first receipt'')) (\<lambda>db2.
                map_err (\<lambda>_. StopWith (intakeUnavailableResult c))
                  (appendWithdrawalRequestReceivedEvent uuid5 e db2 rid c (pa_ChainID p)))) = Inr db'"
    by (auto simp: receipt_body_def Let_def rbind_rules intakeReadGrantForShare_def
        split: option.splits if_splits)
  from rest obtain db1 where ins: "insertRequest e db rid c key p = Inr db1"
    and rest2: "rbind (map_err (\<lambda>_. StopWith (intakeUnavailableResult c))
                  (insertReceiptAudit e db1 rid c ''created'' ''first receipt'')) (\<lambda>db2.
                map_err (\<lambda>_. StopWith (intakeUnavailableResult c))
                  (appendWithdrawalRequestReceivedEvent uuid5 e db2 rid c (pa_ChainID p))) = Inr db'"
    by (auto split: sum.splits pg_error.splits if_splits)
  from ins obtain v where v: "ValidateAmount (pa_Amount p) = Inr v"
    and row: "insert_request db (receipt_row e c key p rid v) = Inr db1"
    by (auto simp: insertRequest_def rbind_rules numeric_param_Inr receipt_row_def)
  from row have db1: "db1 = db\<lparr>request_t := request_t db @ [receipt_row e c key p rid v]\<rparr>"
    by (simp add: insert_request_Inr)
  from rest2 obtain ev res where "Append uuid5 (events_env e) (events_t db)
      (received_event (w_time e) rid c (pa_ChainID p)) = Inr (ev, res)"
    "db' = db1\<lparr>request_audit_t := request_audit_t db @ [created_audit (receipt_row e c key p rid v)], events_t := ev\<rparr>"
    by (auto simp: rbind_rules insertReceiptAudit_def insert_request_audit_def db1 created_audit_def receipt_row_def
        appendWithdrawalRequestReceivedEvent_def split: if_splits)
  with that [OF _ _ valid v] gr row db1 show thesis by (auto dest: find_Some_set)
qed

lemma receipt_of_tables:
  assumes "receipt_of db db' r"
  shows "request_t db' = request_t db @ [r]" "request_audit_t db' = request_audit_t db @ [created_audit r]"
    "caller_t db' = caller_t db" "api_key_t db' = api_key_t db" "key_seq db' = key_seq db"
    "grant_t db' = grant_t db" "gscope_t db' = gscope_t db" "grant_audit_t db' = grant_audit_t db"
proof -
  obtain ev where "db' = db\<lparr>request_t := request_t db @ [r],
      request_audit_t := request_audit_t db @ [created_audit r], events_t := ev\<rparr>"
    using assms unfolding receipt_of_def by blast
  then show "request_t db' = request_t db @ [r]" "request_audit_t db' = request_audit_t db @ [created_audit r]"
    "caller_t db' = caller_t db" "api_key_t db' = api_key_t db" "key_seq db' = key_seq db"
    "grant_t db' = grant_t db" "gscope_t db' = gscope_t db" "grant_audit_t db' = grant_audit_t db"
    by simp_all
qed

lemma receipt_body_receipt:
  assumes "receipt_body uuid5 e db c key p rid = Inr db'" "wd_inv db"
  obtains v where "ValidateAmount (pa_Amount p) = Inr v" "receipt_of db db' (receipt_row e c key p rid v)"
    "authorised db (w_clock e) (receipt_row e c key p rid v)" "wd_inv db'"
    "insert_request db (receipt_row e c key p rid v) = Inr (db\<lparr>request_t := request_t db @ [receipt_row e c key p rid v]\<rparr>)"
proof -
  from receipt_body_steps [OF assms(1)] obtain gr v ev res where b:
    "gr \<in> set (grant_t db)" "ga_AuthorizationID gr = pa_AuthorizationID p"
    "intakeGrantValid gr c p (w_clock e)" "ValidateAmount (pa_Amount p) = Inr v"
    "insert_request db (receipt_row e c key p rid v) = Inr (db\<lparr>request_t := request_t db @ [receipt_row e c key p rid v]\<rparr>)"
    "Append uuid5 (events_env e) (events_t db) (received_event (w_time e) rid c (pa_ChainID p)) = Inr (ev, res)"
    "db' = db\<lparr>request_t := request_t db @ [receipt_row e c key p rid v],
       request_audit_t := request_audit_t db @ [created_audit (receipt_row e c key p rid v)], events_t := ev\<rparr>" .
  let ?r = "receipt_row e c key p rid v"
  have inv: "outbox_inv (events_t db)" using assms(2) by (rule wd_invD)
  have new: "\<not> ap_Noop res"
    by (rule Append_business_inserts [OF inv b(6)]) (simp add: received_event_def)
  from Append_Inr [OF b(6)] obtain q where q: "prepare (received_event (w_time e) rid c (pa_ChainID p)) = Inr q"
    "appended_as uuid5 (events_env e) (events_t db) q ev res" .
  have "announces ?r (new_row uuid5 (events_env e) (events_t db) q)"
    using prepare_columns [OF q(1)]
    by (simp add: announces_def new_row_def Let_def receipt_row_def received_event_def)
  with q(2) new b(7) have receipt: "receipt_of db db' ?r"
    by (simp add: receipt_of_def appended_as_def)
  have "ga_Amount gr = v"
  proof -
    have "int_text 10 (ga_Amount gr) = int_text 10 v" 
      using b(3) ValidateAmount_text(3) [OF b(4)] by (simp add: intakeGrantValid_def)
    then show ?thesis by (simp add: int_text_inj)
  qed
  with b have auth: "authorised db (w_clock e) ?r"
    by (auto simp: authorised_def intakeGrantValid_def receipt_row_def intro!: bexI [of _ gr])
  have "wd_inv (db\<lparr>request_t := request_t db @ [?r]\<rparr>)" using insert_request_inv [OF assms(2) b(5)] .
  then have "wd_inv db'" using Append_inv [OF inv b(6)] by (simp add: b(7) wd_inv_def caller_exists_def)
  with that b(4,5) receipt auth show thesis by blast
qed

section \<open>What a submission does\<close>

lemma result_statuses [simp]:
  "sr_Status (refusal_result n c m a) = n" "sr_Status (intakeUnavailableResult i) = 503"
  "sr_Status (intakeRejectResult i d) = 403" "sr_Status (replay_result i r) = 200"
  "sr_Status (conflict_result i r) = 409"
  by (simp_all add: refusal_result_def intakeUnavailableResult_def intakeRejectResult_def
      replay_result_def conflict_result_def)

lemma intakeResultFromError_status: "sr_Status (intakeResultFromError err) \<in> {400, 401, 403, 404, 409, 422, 503}"
  by (simp add: intakeResultFromError_def statusForCode_def split: wd_code.splits)

lemma classifyFixedOrder_status: "sr_Status (classifyFixedOrder e v c k p) \<in> {200, 403, 409, 503}"
  by (simp add: classifyFixedOrder_def split: sum.splits option.splits bool.splits)

lemma not_created [simp]:
  "sr_Status (classifyFixedOrder e v c k p) \<noteq> 201" "sr_Status (intakeResultFromError err) \<noteq> 201"
  using classifyFixedOrder_status [of e v c k p] intakeResultFromError_status [of err] by auto

lemma receipt_body_stop:
  "receipt_body uuid5 e db c key p rid = Inl (StopWith r) \<Longrightarrow> sr_Status r \<in> {403, 422, 503}"
  by (auto simp: receipt_body_def Let_def rbind_eq_Inl run_stmt_def intakeReadGrantForShare_def map_err_def
      split: option.splits if_splits sum.splits pg_error.splits)

lemma capacityAdmissionRefusal_status:
  "capacityAdmissionRefusal c gate = Some r \<Longrightarrow> sr_Status r = 503"
  by (auto simp: capacityAdmissionRefusal_def split: option.splits sum.splits if_splits)

lemma submitInTx_cases:
  assumes "submitInTx uuid5 e db after c req p = (db', out)"
  obtains "db' = db" "\<And>r. out = Inr r \<Longrightarrow> sr_Status r \<noteq> 201"
  | rid where "mintRequestID e = Some rid"
      "receipt_body uuid5 e db c (su_IdempotencyKey req) p rid = Inr db'" "w_fault e WCommit = None"
      "out = Inr \<lparr>sr_Status = 201, sr_Code = None, sr_Message = ''withdrawal request accepted'',
         sr_RequestID = rid, sr_Asset = pa_Asset p, sr_Recipient = pa_Recipient p,
         sr_Amount = pa_Amount p, sr_Audit = None\<rparr>"
  | rid where "mintRequestID e = Some rid"
      "receipt_body uuid5 e db c (su_IdempotencyKey req) p rid = Inr db'" "w_fault e WCommit \<noteq> None"
      "w_durable e" "out = Inr (classifyFixedOrder e (after db') c (su_IdempotencyKey req) p)"
proof (cases "mintRequestID e")
  case None
  with assms that(1) show ?thesis by (auto simp: submitInTx_def)
next
  case (Some rid)
  note mint = this
  show ?thesis
  proof (cases "receipt_body uuid5 e db c (su_IdempotencyKey req) p rid")
    case (Inl stop)
    have "db' = db \<and> (\<forall>r. out = Inr r \<longrightarrow> sr_Status r \<noteq> 201)"
    proof (cases stop)
      case (StopWith r)
      with Inl assms mint receipt_body_stop [of uuid5 e db c "su_IdempotencyKey req" p rid r] show ?thesis
        by (auto simp: submitInTx_def)
    next
      case StopClassify
      with Inl assms mint show ?thesis by (auto simp: submitInTx_def)
    qed
    then show ?thesis using that(1) by blast
  next
    case (Inr db1)
    show ?thesis
    proof (cases "w_fault e WCommit")
      case None
      with assms mint Inr show ?thesis by (intro that(2)) (auto simp: submitInTx_def)
    next
      case (Some f)
      show ?thesis
      proof (cases "w_durable e")
        case True
        with assms mint Inr Some show ?thesis by (intro that(3)) (auto simp: submitInTx_def Let_def)
      next
        case False
        with assms mint Inr Some show ?thesis by (intro that(1)) (auto simp: submitInTx_def Let_def)
      qed
    qed
  qed
qed

text \<open>A submission either leaves the database alone and does not say 201, or went through every gate and
  committed its transaction.\<close>

lemma SubmitWithdrawal_cases:
  assumes "SubmitWithdrawal g uuid5 e pool dead v db req = (db', out)"
  obtains "db' = db" "\<And>r. out = Inr r \<Longrightarrow> sr_Status r \<noteq> 201"
  | auth norm allow where "Authenticate e (Some (sv_auth v)) (su_PresentedKey req) = Inr auth"
      "cr_CanCreate (au_Caller auth)" "normalizeSubmit g req = Inr norm"
      "(case su_ResolveAllowlist req of None \<Rightarrow> Inr (su_Allowlist req) | Some r \<Rightarrow> r) = Inr allow"
      "pa_Asset norm \<in> set allow"
      "capacityAdmissionRefusal (cr_CallerID (au_Caller auth)) (su_CapacityGate req) = None"
      "submitInTx uuid5 e db (sv_after v) (cr_CallerID (au_Caller auth)) req norm = (db', out)"
proof -
  consider (early) "db' = db" "\<And>r. out = Inr r \<Longrightarrow> sr_Status r \<noteq> 201"
    | (create) auth norm where "Authenticate e (Some (sv_auth v)) (su_PresentedKey req) = Inr auth"
      "cr_CanCreate (au_Caller auth)" "normalizeSubmit g req = Inr norm"
      "first_create g uuid5 e v db (cr_CallerID (au_Caller auth)) req norm = (db', out)"
    using assms unfolding SubmitWithdrawal_def Let_def
    by (auto split: if_splits sum.splits option.splits)
  then show ?thesis
  proof cases
    case early
    then show ?thesis by (rule that(1))
  next
    case create
    note tail = create(4) [unfolded first_create_def]
    show ?thesis
    proof (cases "case su_ResolveAllowlist req of None \<Rightarrow> Inr (su_Allowlist req) | Some r \<Rightarrow> r")
      case (Inl x)
      with tail show ?thesis by (intro that(1)) auto
    next
      case (Inr allow)
      show ?thesis
      proof (cases "ValidateAssetWhitelisted (pa_Asset norm) allow")
        case (Inl y)
        with tail Inr show ?thesis by (intro that(1)) auto
      next
        case (Inr u)
        then have member: "pa_Asset norm \<in> set allow"
          by (auto simp: ValidateAssetWhitelisted_def list_ex_iff split: if_splits)
        show ?thesis
        proof (cases "capacityAdmissionRefusal (cr_CallerID (au_Caller auth)) (su_CapacityGate req)")
          case None
          with create member Inr tail
            \<open>(case su_ResolveAllowlist req of None \<Rightarrow> Inr (su_Allowlist req) | Some r \<Rightarrow> r) = Inr allow\<close>
          show ?thesis by (intro that(2) [where allow = allow and norm = norm]) auto
        next
          case (Some r)
          with tail Inr
            \<open>(case su_ResolveAllowlist req of None \<Rightarrow> Inr (su_Allowlist req) | Some r \<Rightarrow> r) = Inr allow\<close>
            capacityAdmissionRefusal_status [OF Some]
          show ?thesis by (intro that(1)) auto
        qed
      qed
    qed
  qed
qed

text \<open>C9: Funds safety of the receipt. A submission that changes the database or answers 201 was
  presented with a live API key of a caller with the create permission; the asset is in the whitelist
  resolved for it; at the clock read under the lock the database held an active, unexpired grant for
  exactly this caller, chain, asset, recipient and amount; and the whole change is one request that
  carries these facts and a fresh identity, its audit row and its pending event. If the answer is not
  the 201 of this request, the COMMIT reported an error: every other answer leaves the database as it
  was, whatever other sessions do between the reads.\<close>

theorem receipts_authorised:
  assumes "SubmitWithdrawal g uuid5 e pool dead v db req = (db', out)" and "wd_inv db"
    and "db' \<noteq> db \<or> (\<exists>res. out = Inr res \<and> sr_Status res = 201)"
  shows "\<exists>r k w allow.
     k \<in> set (api_key_t (fst (sv_auth v))) \<and> k_Hash k = HashKey (su_PresentedKey req) \<and>
     key_live (w_now e) k \<and> w \<in> set (caller_t (snd (sv_auth v))) \<and> cr_CallerID w = k_CallerID k \<and>
     cr_CanCreate w \<and>
     (case su_ResolveAllowlist req of None \<Rightarrow> Inr (su_Allowlist req) | Some a \<Rightarrow> a) = Inr allow \<and>
     rq_Asset r \<in> set allow \<and>
     rq_CallerID r = k_CallerID k \<and> rq_IdempotencyKey r = su_IdempotencyKey req \<and>
     rq_AuthorizationID r = su_AuthorizationID req \<and> rq_ChainID r = su_ExpectedChainID req \<and>
     CanonicalAddress g (su_Asset req) = Inr (rq_Asset r) \<and>
     CanonicalAddress g (su_Recipient req) = Inr (rq_Recipient r) \<and>
     int_text 10 (rq_Amount r) = su_Amount req \<and>
     authorised db (w_clock e) r \<and> receipt_of db db' r \<and>
     (\<forall>s \<in> set (request_t db). rq_RequestID s \<noteq> rq_RequestID r \<and> rq_AuthorizationID s \<noteq> rq_AuthorizationID r
        \<and> (rq_CallerID s, rq_IdempotencyKey s) \<noteq> (rq_CallerID r, rq_IdempotencyKey r)) \<and>
     ((\<exists>res. out = Inr res \<and> sr_Status res = 201 \<and> sr_RequestID res = rq_RequestID r) \<or>
      w_fault e WCommit \<noteq> None \<and> w_durable e)"
  using assms(1)
proof (cases rule: SubmitWithdrawal_cases)
  case 1
  with assms(3) show ?thesis by auto
next
  case (2 auth norm allow)
  let ?c = "cr_CallerID (au_Caller auth)" and ?key = "su_IdempotencyKey req"
  from 2(7) assms(3) obtain rid where body: "receipt_body uuid5 e db ?c ?key norm rid = Inr db'"
    and ans: "(\<exists>res. out = Inr res \<and> sr_Status res = 201 \<and> sr_RequestID res = rid) \<or>
      w_fault e WCommit \<noteq> None \<and> w_durable e"
    by (cases rule: submitInTx_cases) auto
  from receipt_body_receipt [OF body assms(2)] obtain amount where r:
    "ValidateAmount (pa_Amount norm) = Inr amount" "receipt_of db db' (receipt_row e ?c ?key norm rid amount)"
    "authorised db (w_clock e) (receipt_row e ?c ?key norm rid amount)"
    "insert_request db (receipt_row e ?c ?key norm rid amount) =
       Inr (db\<lparr>request_t := request_t db @ [receipt_row e ?c ?key norm rid amount]\<rparr>)" by blast
  obtain vk vc where views: "sv_auth v = (vk, vc)" by (cases "sv_auth v")
  from Authenticate_Inr [OF 2(1) [unfolded views]] obtain k where k: "k \<in> set (api_key_t vk)"
    "k_Hash k = HashKey (su_PresentedKey req)" "key_live (w_now e) k" "au_Caller auth \<in> set (caller_t vc)"
    "?c = k_CallerID k" by blast
  note n = normalizeSubmit_Inr [OF 2(3)]
  have fresh: "\<forall>s \<in> set (request_t db). rq_RequestID s \<noteq> rid \<and> rq_AuthorizationID s \<noteq> pa_AuthorizationID norm
      \<and> (rq_CallerID s, rq_IdempotencyKey s) \<noteq> (?c, ?key)"
    using r(4) by (auto simp: insert_request_Inr has_row_iff receipt_row_def)
  show ?thesis
    by (rule exI [of _ "receipt_row e ?c ?key norm rid amount"], rule exI [of _ k],
        rule exI [of _ "au_Caller auth"], rule exI [of _ allow])
      (use k 2(2,4,5) n(3-6,8,9) r(2,3) fresh ans ValidateAmount_text(3) [OF r(1)] in
        \<open>simp add: views receipt_row_def\<close>)
qed

lemma SubmitWithdrawal_inv:
  assumes "SubmitWithdrawal g uuid5 e pool dead v db req = (db', out)" and "wd_inv db"
  shows "wd_inv db'"
  using assms(1)
proof (cases rule: SubmitWithdrawal_cases)
  case 2
  from 2(7) assms(2) show ?thesis
    by (cases rule: submitInTx_cases) (auto elim: receipt_body_receipt)
qed (use assms in simp)

section \<open>Replays\<close>

lemma find_request:
  assumes "wd_inv db" "r \<in> set (request_t db)" "rq_CallerID r = c" "rq_IdempotencyKey r = key"
  shows "find (\<lambda>r. rq_CallerID r = c \<and> rq_IdempotencyKey r = key) (request_t db) = Some r"
  by (rule find_unique [OF wd_invD(7) [OF assms(1)] assms(2)]) (use assms in auto)

text \<open>C22: Replay immunity. Once a request is stored under a caller and an idempotency key, a submission
  of that caller with that key is answered from the stored row and nothing else: 200 with its identity
  and facts when the parameters are the same, 409 when they are not. The grant, the whitelist, the
  capacity gate and the clock play no part, and no table changes.\<close>

theorem replay_immune:
  assumes "Authenticate e (Some (sv_auth v)) (su_PresentedKey req) = Inr auth"
    and "cr_CanCreate (au_Caller auth)" and "normalizeSubmit g req = Inr norm"
    and "wd_inv (sv_fast v)" and "r \<in> set (request_t (sv_fast v))"
    and "rq_CallerID r = cr_CallerID (au_Caller auth)" and "rq_IdempotencyKey r = su_IdempotencyKey req"
    and "w_fault e SelectByKey = None"
  shows "SubmitWithdrawal g uuid5 e True False v db req =
     (db, Inr (if rq_AuthorizationID r = su_AuthorizationID req \<and> rq_ChainID r = su_ChainID req \<and>
                  CanonicalAddress g (su_Asset req) = Inr (rq_Asset r) \<and>
                  CanonicalAddress g (su_Recipient req) = Inr (rq_Recipient r) \<and>
                  int_text 10 (rq_Amount r) = su_Amount req
               then replay_result (rq_CallerID r) r else conflict_result (rq_CallerID r) r))"
proof -
  note n = normalizeSubmit_Inr [OF assms(3)]
  have "row_matches r norm \<longleftrightarrow> rq_AuthorizationID r = su_AuthorizationID req \<and> rq_ChainID r = su_ChainID req \<and>
      CanonicalAddress g (su_Asset req) = Inr (rq_Asset r) \<and>
      CanonicalAddress g (su_Recipient req) = Inr (rq_Recipient r) \<and> int_text 10 (rq_Amount r) = su_Amount req"
    by (auto simp: row_matches_def n(3,5,6,8,9))
  then show ?thesis
    using assms find_request [OF assms(4-7)]
    by (simp add: SubmitWithdrawal_def Let_def readRequestByKey_def run_stmt_def)
qed

section \<open>Queries\<close>

lemma find_conj_filter: "find (\<lambda>r. P r \<and> Q r) xs = find P (filter Q xs)"
  by (induction xs) auto

text \<open>C21: Non-interference of the query. What GET answers an authenticated caller depends on the
  requests of that caller only: two databases that agree on them get the same response for every id, so
  the id of another caller's request is answered exactly as an id that does not exist.\<close>

theorem query_noninterference:
  assumes "withdrawalBearerToken header = Some token" and "Authenticate e pool token = Inr auth"
    and "filter (\<lambda>r. rq_CallerID r = cr_CallerID (au_Caller auth)) (request_t db1) =
         filter (\<lambda>r. rq_CallerID r = cr_CallerID (au_Caller auth)) (request_t db2)"
  shows "ServeGET e pool db1 rv get header requestID = ServeGET e pool db2 rv get header requestID"
  using assms
  by (simp add: ServeGET_def GetWithdrawal_def queryReadRequest_def find_conj_filter)

section \<open>When nothing fails\<close>

lemma Contains_set: "Contains s t \<Longrightarrow> set t \<subseteq> set s"
proof (induction s t rule: Contains.induct)
  case (2 c s t)
  have "set (take n (c # s)) \<subseteq> set (c # s)" for n by (rule set_take_subset)
  with 2 show ?case by (auto simp: has_prefix_def) (metis set_ConsD in_set_takeD)+
qed (simp add: has_prefix_def)

lemma lower_hex_chars: "list_all is_lower_hex s \<Longrightarrow> CHR ''B'' \<notin> set s"
  by (auto simp: list_all_iff is_lower_hex_def is_dec_def)

text \<open>The id a submission mints, and when the tables have never seen it.\<close>

definition unseen :: "(string \<Rightarrow> string) \<Rightarrow> wd_db \<Rightarrow> string \<Rightarrow> bool" where
  "unseen uuid5 db rid \<longleftrightarrow>
     \<not> has_row (\<lambda>r. rq_RequestID r = rid) (request_t db) \<and>
     \<not> has_row (\<lambda>x. ob_AggregateType x = ''withdrawal_request'' \<and> ob_AggregateID x = rid
         \<or> ob_EventID x = uuid5 (BusinessObjectNaturalKey ''withdrawal_request'' rid 1)) (outbox_t (events_t db))"

lemma mintRequestID_text:
  assumes "mintRequestID e = Some rid" "rand_fills e"
  shows "rid \<noteq> []" "CHR ''B'' \<notin> set rid" "char_length rid \<le> 512" "1 \<le> char_length rid"
proof -
  from assms obtain b where b: "rid = ''wr-'' @ hex_encode b" "length b = 16"
    by (auto simp: mintRequestID_def intakeRequestIDPrefix_def rand_fills_def)
  show "rid \<noteq> []" using b by simp
  show "CHR ''B'' \<notin> set rid" using b lower_hex_chars [OF hex_encode_lower_hex [of b]] by simp
  have "char_length rid \<le> length rid" by (simp add: char_length_def)
  with b show "char_length rid \<le> 512" by simp
  show "1 \<le> char_length rid" by (simp add: b(1) char_length_def utf8_cont_def)
qed

lemma received_event_valid:
  assumes "rid \<noteq> []" "CHR ''B'' \<notin> set rid"
  shows "validateEvent (received_event t rid c chain) False = Inr ()"
proof -
  have "\<not> Contains rid ''-----BEGIN''" using Contains_set [of rid "''-----BEGIN''"] assms(2) by auto
  with assms(1) show ?thesis
    by (simp add: validateEvent_def received_event_def LookupEventSpec_def catalogV1_def
      SupportsSchemaVersion_def envelope_violation_def missing_key_def ForbiddenPayload_def
      isForbiddenPayloadKey_def forbiddenPayloadKeyTokens_def to_lower_def has_prefix_def)
qed

lemma received_event_appends:
  assumes "outbox_inv db" "\<forall>s. ev_fault e s = None" "rid \<noteq> []" "CHR ''B'' \<notin> set rid"
    "1 \<le> char_length rid" "char_length rid \<le> 512"
    "\<not> has_row (\<lambda>x. ob_AggregateType x = ''withdrawal_request'' \<and> ob_AggregateID x = rid
         \<or> ob_EventID x = uuid5 (BusinessObjectNaturalKey ''withdrawal_request'' rid 1)) (outbox_t db)"
  shows "\<exists>db' res. Append uuid5 e db (received_event t rid c chain) = Inr (db', res)"
proof -
  let ?ev = "received_event t rid c chain"
  define p where "p = ?ev\<lparr>evt_payloadJSON := Some (marshal (JObj (the (evt_Payload ?ev)))),
    evt_payloadHash := PayloadHash (marshal (JObj (the (evt_Payload ?ev))))\<rparr>"
  have prep: "prepare ?ev = Inr p"
    using received_event_valid [OF assms(3,4)]
    by (simp add: prepare_def freeze_payload_def CanonicalPayload_def received_event_def p_def)
  have cols: "evt_AggregateType p = ''withdrawal_request''" "evt_AggregateID p = rid"
    "evt_IdentityKind p = IdentityKindBusinessObject" "evt_SchemaVersion p = 1"
    "evt_RevisesEventID p = None" "evt_EventType p = ''withdrawal.request.received''"
    "evt_SourceKind p = ''withdrawal_intake''" "evt_SourceID p = rid" "evt_SourceVersion p = 0"
    by (simp_all add: p_def received_event_def)
  have none: "aggregate_rows db ''withdrawal_request'' rid = []"
    using assms(7) by (auto simp: aggregate_rows_def has_row_iff filter_empty_conv)
  have m: "aggregate_max db (evt_AggregateType p) (evt_AggregateID p) = 0"
    by (simp add: aggregate_max_eq cols none)
  then have v: "next_version db p = 1" by (simp add: next_version_def int64_def)
  have clash: "find (identity_clash (new_row uuid5 e db p)) (outbox_t db) = None"
    by (rule fresh_version_no_clash [OF assms(1) cols(3)]) (simp add: v m)
  have chk: "outbox_check (new_row uuid5 e db p) = None"
    by (simp add: outbox_check_None new_row_def v Let_def cols IdentityKind_Valid_def PublishState_Valid_def)
      (simp add: appendArgs_def Let_def cols)
  have ob: "obligation_check (obligation_of p 1) = None"
    using assms(5,6)
    by (simp add: obligation_check_def obligation_of_def cols obligation_mapping_def nullableInt64_def
        char_length_def utf8_cont_def)
  have "naturalKeyFor p 1 = BusinessObjectNaturalKey ''withdrawal_request'' rid 1"
    by (simp add: naturalKeyFor_def cols)
  with assms(7) have "\<not> has_row (\<lambda>s. ob_EventID s = uuid5 (naturalKeyFor p (next_version db p))) (outbox_t db)"
    by (auto simp: v has_row_iff)
  with Append_inserts [OF prep assms(2) _ chk clash] m v ob show ?thesis by fastforce
qed

text \<open>The rule the receipt implements, on the state alone.\<close>

definition intake_decision ::
  "wd_db \<Rightarrow> instant \<Rightarrow> int \<Rightarrow> string \<Rightarrow> submit_params \<Rightarrow> string list \<Rightarrow> bool \<Rightarrow> int" where
  "intake_decision db t c key p allow refused =
     (if has_row (\<lambda>r. rq_CallerID r = c \<and> rq_IdempotencyKey r = key) (request_t db)
      then (if has_row (\<lambda>r. rq_CallerID r = c \<and> rq_IdempotencyKey r = key \<and> row_matches r p) (request_t db)
            then 200 else 409)
      else if pa_Asset p \<notin> set allow then 422
      else if refused then 503
      else if \<not> has_row (\<lambda>g. ga_AuthorizationID g = pa_AuthorizationID p \<and> intakeGrantValid g c p t) (grant_t db)
        \<or> has_row (\<lambda>r. rq_AuthorizationID r = pa_AuthorizationID p) (request_t db) then 403
      else 201)"

definition gate_refuses :: "(capacity_err + capacity_admission) option \<Rightarrow> bool" where
  "gate_refuses gate = (case gate of None \<Rightarrow> False | Some (Inl _) \<Rightarrow> True | Some (Inr a) \<Rightarrow> ca_Refused a)"

definition faultless :: "wd_env \<Rightarrow> bool" where
  "faultless e \<longleftrightarrow> (\<forall>s. w_fault e s = None) \<and> (\<forall>s. w_events e s = None)"

lemma run_stmt_faultless [simp]: "faultless e \<Longrightarrow> run_stmt e s r = r"
  by (simp add: run_stmt_def faultless_def)

lemma capacityAdmissionRefusal_iff:
  "capacityAdmissionRefusal c gate = None \<longleftrightarrow> \<not> gate_refuses gate"
  by (auto simp: capacityAdmissionRefusal_def gate_refuses_def split: option.splits sum.splits)

lemma normalized_row_ok:
  assumes "normalizeSubmit g req = Inr p" "ValidateAmount (pa_Amount p) = Inr v"
  shows "first_violation (request_checks (receipt_row e c (su_IdempotencyKey req) p rid v)) = None"
proof -
  note n = normalizeSubmit_Inr [OF assms(1)]
  have "matches_lower_hex 40 (pa_Asset p)" "matches_lower_hex 40 (pa_Recipient p)"
    using CanonicalAddress_Inr [OF n(5)] CanonicalAddress_Inr [OF n(6)] by (auto simp: addressShape_ToLower)
  moreover have "amount_column v" using ValidateAmount_text(1,2) [OF assms(2)] by (simp add: amount_column_def)
  moreover note n(1) [unfolded ValidateIdempotencyKey_iff] n(2)
  ultimately show ?thesis by (simp add: request_checks_def receipt_row_def address_column_def)
qed

lemma receipt_body_fresh:
  assumes "wd_inv db" "faultless e" "rand_fills e" "mintRequestID e = Some rid" "unseen uuid5 db rid"
    "normalizeSubmit g req = Inr p" "caller_exists db c"
    "gr \<in> set (grant_t db)" "ga_AuthorizationID gr = pa_AuthorizationID p" "intakeGrantValid gr c p (w_clock e)"
    "\<not> has_row (\<lambda>r. rq_CallerID r = c \<and> rq_IdempotencyKey r = su_IdempotencyKey req) (request_t db)"
  shows "if has_row (\<lambda>r. rq_AuthorizationID r = pa_AuthorizationID p) (request_t db)
    then receipt_body uuid5 e db c (su_IdempotencyKey req) p rid = Inl StopClassify
    else \<exists>db'. receipt_body uuid5 e db c (su_IdempotencyKey req) p rid = Inr db'"
proof -
  have gr: "find (\<lambda>g. ga_AuthorizationID g = pa_AuthorizationID p) (grant_t db) = Some gr"
    by (rule find_unique [OF wd_invD(10) [OF assms(1)] assms(8)]) (use assms in auto)
  obtain v where v: "ValidateAmount (pa_Amount p) = Inr v" using normalizeSubmit_Inr(7) [OF assms(6)] by blast
  let ?r = "receipt_row e c (su_IdempotencyKey req) p rid v"
  have ins: "insertRequest e db rid c (su_IdempotencyKey req) p = insert_request db ?r"
    using assms(2) v by (simp add: insertRequest_def numeric_param_def receipt_row_def)
  have chk: "first_violation (request_checks ?r) = None" by (rule normalized_row_ok [OF assms(6) v])
  have rid: "\<not> has_row (\<lambda>s. rq_RequestID s = rid) (request_t db)" using assms(5) by (simp add: unseen_def)
  note idtext = mintRequestID_text [OF assms(4,3)]
  obtain ev res where app: "Append uuid5 (events_env e) (events_t db)
      (received_event (w_time e) rid c (pa_ChainID p)) = Inr (ev, res)"
    using received_event_appends [OF wd_invD(15) [OF assms(1)], of "events_env e" rid uuid5] idtext assms(2,5)
    by (fastforce simp: unseen_def faultless_def)
  note steps = receipt_body_def Let_def intakeReadGrantForShare_def gr assms(2,10) ins
  show ?thesis
  proof (cases "has_row (\<lambda>r. rq_AuthorizationID r = pa_AuthorizationID p) (request_t db)")
    case True
    with rid assms(11) chk have "insert_request db ?r = Inl (PgError ''23505'' ''withdrawal_requests_authorization_uniq'')"
      by (simp add: insert_request_def unique_or_def receipt_row_def)
    with True assms(2,10) show ?thesis by (simp add: steps)
  next
    case False
    with rid assms(7,11) chk have "insert_request db ?r = Inr (db\<lparr>request_t := request_t db @ [?r]\<rparr>)"
      by (simp add: insert_request_Inr) (simp add: receipt_row_def)
    with False assms(2,10) app show ?thesis
      by (simp add: steps insertReceiptAudit_def insert_request_audit_def appendWithdrawalRequestReceivedEvent_def)
  qed
qed

lemma submitInTx_decides:
  assumes "wd_inv db" "faultless e" "rand_fills e" "mintRequestID e = Some rid" "unseen uuid5 db rid"
    "normalizeSubmit g req = Inr p" "caller_exists db c"
    "\<not> has_row (\<lambda>r. rq_CallerID r = c \<and> rq_IdempotencyKey r = su_IdempotencyKey req) (request_t db)"
  shows "\<exists>db' res. submitInTx uuid5 e db (\<lambda>d. (d, d)) c req p = (db', Inr res) \<and> sr_Status res =
    (if \<not> has_row (\<lambda>g. ga_AuthorizationID g = pa_AuthorizationID p \<and> intakeGrantValid g c p (w_clock e)) (grant_t db)
       \<or> has_row (\<lambda>r. rq_AuthorizationID r = pa_AuthorizationID p) (request_t db) then 403 else 201)"
proof (cases "find (\<lambda>g. ga_AuthorizationID g = pa_AuthorizationID p) (grant_t db)")
  case None
  then have "\<not> has_row (\<lambda>g. ga_AuthorizationID g = pa_AuthorizationID p \<and> intakeGrantValid g c p (w_clock e)) (grant_t db)"
    by (auto simp: find_None_set has_row_iff)
  with None assms(2,4) show ?thesis
    by (simp add: submitInTx_def receipt_body_def Let_def intakeReadGrantForShare_def)
next
  case (Some gr)
  then have gr: "gr \<in> set (grant_t db)" "ga_AuthorizationID gr = pa_AuthorizationID p"
    by (auto dest: find_Some_set)
  have only: "has_row (\<lambda>g. ga_AuthorizationID g = pa_AuthorizationID p \<and> intakeGrantValid g c p (w_clock e)) (grant_t db)
      \<longleftrightarrow> intakeGrantValid gr c p (w_clock e)"
    using gr wd_invD(10) [OF assms(1)] unfolding has_row_iff distinct_map inj_on_def by metis
  show ?thesis
  proof (cases "intakeGrantValid gr c p (w_clock e)")
    case False
    with only Some assms(2,4) show ?thesis
      by (simp add: submitInTx_def receipt_body_def Let_def intakeReadGrantForShare_def)
  next
    case True
    note body = receipt_body_fresh [OF assms(1-7) gr True assms(8)]
    have "find (\<lambda>r. rq_CallerID r = c \<and> rq_IdempotencyKey r = su_IdempotencyKey req) (request_t db) = None"
      using assms(8) by (auto simp: find_None_set has_row_iff)
    then have spent: "sr_Status (classifyFixedOrder e (db, db) c (su_IdempotencyKey req) p) = 403"
      if "has_row (\<lambda>r. rq_AuthorizationID r = pa_AuthorizationID p) (request_t db)"
      using that assms(2)
      by (simp add: classifyFixedOrder_def readRequestByKey_def requestBoundToAuthorization_def)
    from body spent only True assms(2,4) show ?thesis
      by (auto simp: submitInTx_def faultless_def split: if_splits)
  qed
qed

text \<open>C10: The receipt decides. When no statement fails, an authenticated caller with the create permission
  and a well-formed request always gets the answer of the rule: 200 or 409 under a key that is in use,
  otherwise 422, 503, 403 or 201 in that order for an asset outside the whitelist, a refusing capacity
  gate, a grant that is missing, invalid or spent, and the receipt. So a valid request under an unspent
  grant is accepted.\<close>

theorem submit_decides:
  assumes "wd_inv db" and "faultless e" and "rand_fills e" and "mintRequestID e = Some rid"
    and "unseen uuid5 db rid"
    and "Authenticate e (Some (db, db)) (su_PresentedKey req) = Inr auth"
    and "cr_CanCreate (au_Caller auth)" and "normalizeSubmit g req = Inr p"
    and "(case su_ResolveAllowlist req of None \<Rightarrow> Inr (su_Allowlist req) | Some a \<Rightarrow> a) = Inr allow"
  shows "\<exists>db' res. SubmitWithdrawal g uuid5 e True False
       \<lparr>sv_auth = (db, db), sv_fast = db, sv_after = (\<lambda>d. (d, d))\<rparr> db req = (db', Inr res) \<and>
     sr_Status res = intake_decision db (w_clock e) (cr_CallerID (au_Caller auth)) (su_IdempotencyKey req) p
       allow (gate_refuses (su_CapacityGate req))"
    (is "\<exists>db' res. ?submit = (db', Inr res) \<and> sr_Status res = ?decision")
proof -
  let ?c = "cr_CallerID (au_Caller auth)" and ?key = "su_IdempotencyKey req"
  let ?v = "\<lparr>sv_auth = (db, db), sv_fast = db, sv_after = (\<lambda>d. (d, d))\<rparr>"
  let ?used = "\<lambda>r. rq_CallerID r = ?c \<and> rq_IdempotencyKey r = ?key"
  show ?thesis
  proof (cases "has_row ?used (request_t db)")
    case True
    then obtain r where r: "r \<in> set (request_t db)" "?used r" by (auto simp: has_row_iff)
    have find: "find ?used (request_t db) = Some r" using find_request [OF assms(1) r(1)] r(2) by blast
    have "s = r" if "s \<in> set (request_t db)" "?used s" for s
      using find_request [OF assms(1) that(1)] that(2) find by force
    then have "has_row (\<lambda>r. rq_CallerID r = ?c \<and> rq_IdempotencyKey r = ?key \<and> row_matches r p) (request_t db)
        \<longleftrightarrow> row_matches r p" unfolding has_row_iff using r by blast
    with True assms(2,6-8) find show ?thesis
      by (simp add: SubmitWithdrawal_def Let_def readRequestByKey_def intake_decision_def)
  next
    case False
    then have find: "find ?used (request_t db) = None" by (auto simp: find_None_set has_row_iff)
    have go: "?submit = first_create g uuid5 e ?v db ?c req p"
      using assms(2,6-8) find by (simp add: SubmitWithdrawal_def Let_def readRequestByKey_def)
    show ?thesis
    proof (cases "pa_Asset p \<in> set allow \<and> \<not> gate_refuses (su_CapacityGate req)")
      case gates: False
      then show ?thesis
        using False assms(9) capacityAdmissionRefusal_status [of ?c "su_CapacityGate req"]
          capacityAdmissionRefusal_iff [of ?c "su_CapacityGate req"]
        by (auto simp: go first_create_def ValidateAssetWhitelisted_def list_ex_iff intake_decision_def
            split: option.splits)
    next
      case gates: True
      then have tx: "?submit = submitInTx uuid5 e db (\<lambda>d. (d, d)) ?c req p"
        using assms(9) capacityAdmissionRefusal_iff [of ?c "su_CapacityGate req"]
        by (simp add: go first_create_def ValidateAssetWhitelisted_def list_ex_iff)
      from Authenticate_Inr [OF assms(6)] have "caller_exists db ?c"
        by (auto simp: caller_exists_def has_row_iff)
      from submitInTx_decides [OF assms(1-5,8) this False] gates False show ?thesis
        by (simp add: tx intake_decision_def)
    qed
  qed
qed
section \<open>A concrete intake\<close>

definition demo_key :: string where
  "demo_key = keyPrefix @ b64_encode (replicate 32 0)"

definition demo_grant :: grant_row where
  "demo_grant = \<lparr>ga_AuthorizationID = ''grant-1'', ga_CallerID = 7, ga_ChainID = 1, ga_Asset = lower_demo,
     ga_Recipient = lower_demo, ga_Amount = 5, ga_State = ''active'', ga_ExpiresAt = Some 100,
     ga_SuppliedBy = ''ops''\<rparr>"

definition demo_wd :: "grant_audit list \<Rightarrow> wd_db" where
  "demo_wd audit = \<lparr>caller_t = [\<lparr>cr_CallerID = 7, cr_Label = ''desk'', cr_CanCreate = True\<rparr>],
     api_key_t = [\<lparr>k_KeyID = 1, k_CallerID = 7, k_Hash = HashKey demo_key, k_Prefix = ''txh_AAAA'', k_RevokedAt = None\<rparr>],
     key_seq = 1, request_t = [], grant_t = [demo_grant], gscope_t = [], request_audit_t = [],
     grant_audit_t = audit, events_t = no_events\<rparr>"

definition demo_wd_env :: wd_env where
  "demo_wd_env = \<lparr>w_fault = (\<lambda>_. None), w_now = 10, w_clock = 11, w_time = 12,
     w_rand = (\<lambda>m. Some (replicate (case m of MintKey \<Rightarrow> 32 | MintRequestID \<Rightarrow> 16 | MintRejectMarker \<Rightarrow> 8) 0)),
     w_durable = True, w_events = (\<lambda>_. None)\<rparr>"

definition demo_submit :: submit_request where
  "demo_submit = \<lparr>su_PresentedKey = demo_key, su_IdempotencyKey = ''k1'', su_ChainID = 1, su_ExpectedChainID = 1,
     su_Asset = lower_demo, su_Recipient = upper_demo, su_Amount = ''5'', su_AuthorizationID = ''grant-1'',
     su_Allowlist = [lower_demo], su_ResolveAllowlist = None, su_CapacityGate = None\<rparr>"

abbreviation one_view :: "wd_db \<Rightarrow> submit_views" where
  "one_view db \<equiv> \<lparr>sv_auth = (db, db), sv_fast = db, sv_after = (\<lambda>d. (d, d))\<rparr>"

definition demo_params :: submit_params where
  "demo_params = \<lparr>pa_ChainID = 1, pa_Asset = lower_demo, pa_Recipient = lower_demo, pa_Amount = ''5'',
     pa_AuthorizationID = ''grant-1''\<rparr>"

lemma demo_fields [simp]:
  "su_PresentedKey demo_submit = demo_key" "su_IdempotencyKey demo_submit = ''k1''"
  "su_Allowlist demo_submit = [lower_demo]" "su_ResolveAllowlist demo_submit = None"
  "su_CapacityGate demo_submit = None" "pa_Asset demo_params = lower_demo"
  by (simp_all add: demo_submit_def demo_params_def)

lemma demo_lower: "matches_lower_hex 40 lower_demo"
  by (simp add: matches_lower_hex_def lower_demo_def is_lower_hex_def is_dec_def)

lemma int_text_5: "int_text 10 5 = ''5''"
  by (simp add: int_text_def num_text.simps digit_char_def char_of_def bit_0)

lemma demo_amount: "ValidateAmount ''5'' = Inr 5"
  by (simp add: ValidateAmount_def amountShape_def big_set_string_dec is_dec_def num_val_def digit_val_def
      maxUint256_eq)

lemma demo_normalized: "normalizeSubmit lower_geth demo_submit = Inr demo_params"
  by (simp add: normalizeSubmit_def demo_submit_def demo_params_def canonicalAddressField_def
      CanonicalAddress_demo demo_amount ValidateChainID_def ValidateIdempotencyKey_def)

lemma demo_key_shape: "parsePresented demo_key"
  by (simp add: demo_key_def parsePresented_def b64_round_trip keyEntropyBytes_def)

lemma demo_wd_env_facts: "faultless demo_wd_env" "rand_fills demo_wd_env" "mintRequestID demo_wd_env = Some (''wr-'' @ hex_encode (replicate 16 0))"
  by (simp_all add: faultless_def rand_fills_def demo_wd_env_def mintRequestID_def intakeRequestIDPrefix_def)

lemma demo_wd_inv: "distinct (map gu_OperationID audit) \<Longrightarrow> wd_inv (demo_wd audit)"
  using demo_lower
  by (simp add: wd_inv_def demo_wd_def demo_grant_def caller_exists_def has_row_def grant_checks_def
      amount_column_def address_column_def)

lemma demo_no_audit: "distinct (map gu_OperationID [])"
  by simp

lemma demo_auth:
  assumes "api_key_t db = api_key_t (demo_wd audit)" "caller_t db = caller_t (demo_wd audit)"
  shows "Authenticate demo_wd_env (Some (db, db)) demo_key =
    Inr \<lparr>au_Caller = \<lparr>cr_CallerID = 7, cr_Label = ''desk'', cr_CanCreate = True\<rparr>,
         au_Key = \<lparr>kr_KeyID = 1, kr_CallerID = 7, kr_Prefix = take 8 demo_key\<rparr>\<rparr>"
  using demo_key_shape assms
  by (simp add: Authenticate_def Let_def run_stmt_def demo_wd_env_def demo_wd_def key_live_def keyPrefixLength_def)

theorem submit_decides_witness:
  "\<exists>db' res. SubmitWithdrawal lower_geth id demo_wd_env True False (one_view (demo_wd [])) (demo_wd []) demo_submit = (db', Inr res)
     \<and> sr_Status res = 201"
proof -
  have key: "su_PresentedKey demo_submit = demo_key" by (simp add: demo_submit_def)
  have unseen: "unseen id (demo_wd []) (''wr-'' @ hex_encode (replicate 16 0))"
    by (simp add: unseen_def demo_wd_def no_events_def has_row_def)
  have "intake_decision (demo_wd []) (w_clock demo_wd_env) 7 (su_IdempotencyKey demo_submit) demo_params [lower_demo]
      (gate_refuses (su_CapacityGate demo_submit)) = 201"
    by (simp add: intake_decision_def demo_wd_def has_row_def demo_params_def demo_submit_def gate_refuses_def
        demo_grant_def intakeGrantValid_def demo_wd_env_def int_text_5)
  with submit_decides [OF demo_wd_inv [OF demo_no_audit] demo_wd_env_facts unseen, of demo_submit, unfolded key,
      OF demo_auth [OF refl refl, of "[]"] _ demo_normalized, of "[lower_demo]"]
  show ?thesis by (simp add: demo_submit_def)
qed

lemma demo_accepted:
  assumes "distinct (map gu_OperationID audit)"
  obtains db' res where
    "SubmitWithdrawal lower_geth id demo_wd_env True False (one_view (demo_wd audit)) (demo_wd audit) demo_submit = (db', Inr res)"
    "sr_Status res = 201" "wd_inv db'" "api_key_t db' = api_key_t (demo_wd audit)" "caller_t db' = caller_t (demo_wd audit)"
    "\<exists>r. request_t db' = [r] \<and> rq_CallerID r = 7 \<and> rq_IdempotencyKey r = ''k1'' \<and>
      rq_AuthorizationID r = ''grant-1''"
proof -
  have unseen: "unseen id (demo_wd audit) (''wr-'' @ hex_encode (replicate 16 0))"
    by (simp add: unseen_def demo_wd_def no_events_def has_row_def)
  have caller: "caller_exists (demo_wd audit) 7" by (simp add: caller_exists_def demo_wd_def has_row_def)
  have valid: "intakeGrantValid demo_grant 7 demo_params (w_clock demo_wd_env)" "demo_grant \<in> set (grant_t (demo_wd audit))"
    "ga_AuthorizationID demo_grant = pa_AuthorizationID demo_params" "request_t (demo_wd audit) = []"
    by (simp_all add: demo_wd_def demo_params_def demo_grant_def intakeGrantValid_def demo_wd_env_def int_text_5)
  obtain db' where body: "receipt_body id demo_wd_env (demo_wd audit) 7 ''k1'' demo_params (''wr-'' @ hex_encode (replicate 16 0)) = Inr db'"
    using receipt_body_fresh [OF demo_wd_inv [OF assms] demo_wd_env_facts unseen demo_normalized caller valid(2,3,1)] valid(4)
    by (auto simp: has_row_def)
  from receipt_body_receipt [OF body demo_wd_inv [OF assms]] obtain v where
    v: "receipt_of (demo_wd audit) db' (receipt_row demo_wd_env 7 ''k1'' demo_params (''wr-'' @ hex_encode (replicate 16 0)) v)"
    "wd_inv db'" by blast
  have "SubmitWithdrawal lower_geth id demo_wd_env True False (one_view (demo_wd audit)) (demo_wd audit) demo_submit =
      submitInTx id demo_wd_env (demo_wd audit) (\<lambda>d. (d, d)) 7 demo_submit demo_params"
    using demo_auth [OF refl refl] demo_normalized valid(4)
    by (simp add: SubmitWithdrawal_def Let_def readRequestByKey_def demo_wd_env_facts(1) first_create_def
        ValidateAssetWhitelisted_def capacityAdmissionRefusal_def)
  moreover have "\<exists>res. submitInTx id demo_wd_env (demo_wd audit) (\<lambda>d. (d, d)) 7 demo_submit demo_params = (db', Inr res) \<and>
      sr_Status res = 201"
    using body demo_wd_env_facts(1) by (simp add: submitInTx_def demo_wd_env_facts(3) faultless_def)
  ultimately obtain res where res:
    "SubmitWithdrawal lower_geth id demo_wd_env True False (one_view (demo_wd audit)) (demo_wd audit) demo_submit = (db', Inr res)"
    "sr_Status res = 201" by auto
  have rows: "api_key_t db' = api_key_t (demo_wd audit)" "caller_t db' = caller_t (demo_wd audit)"
    "\<exists>r. request_t db' = [r] \<and> rq_CallerID r = 7 \<and> rq_IdempotencyKey r = ''k1'' \<and> rq_AuthorizationID r = ''grant-1''"
    using receipt_of_tables [OF v(1)] valid(4) by (simp_all add: receipt_row_def demo_params_def)
  show thesis by (rule that [OF res v(2) rows])
qed

theorem receipts_authorised_witness:
  "\<exists>db' res r. SubmitWithdrawal lower_geth id demo_wd_env True False (one_view (demo_wd [])) (demo_wd []) demo_submit =
     (db', Inr res) \<and> sr_Status res = 201 \<and> authorised (demo_wd []) 11 r \<and> receipt_of (demo_wd []) db' r \<and>
     rq_CallerID r = 7 \<and> rq_AuthorizationID r = ''grant-1''"
proof (rule demo_accepted [OF demo_no_audit])
  fix db' res
  assume s: "SubmitWithdrawal lower_geth id demo_wd_env True False (one_view (demo_wd [])) (demo_wd []) demo_submit = (db', Inr res)"
    "sr_Status res = 201"
  with receipts_authorised [OF s(1) demo_wd_inv [OF demo_no_audit]] show ?thesis
    by (force simp: demo_wd_def demo_submit_def demo_wd_env_def)
qed

theorem replay_immune_witness:
  "\<exists>db1 r. request_t db1 = [r] \<and>
     SubmitWithdrawal lower_geth id demo_wd_env True False (one_view db1) (db1\<lparr>grant_t := []\<rparr>)
       (demo_submit\<lparr>su_AuthorizationID := ''other''\<rparr>) = (db1\<lparr>grant_t := []\<rparr>, Inr (conflict_result 7 r))"
proof (rule demo_accepted [OF demo_no_audit])
  fix db1 res
  assume s: "SubmitWithdrawal lower_geth id demo_wd_env True False (one_view (demo_wd [])) (demo_wd []) demo_submit = (db1, Inr res)"
    "sr_Status res = 201" "wd_inv db1" "api_key_t db1 = api_key_t (demo_wd [])" "caller_t db1 = caller_t (demo_wd [])"
    "\<exists>r. request_t db1 = [r] \<and> rq_CallerID r = 7 \<and> rq_IdempotencyKey r = ''k1'' \<and> rq_AuthorizationID r = ''grant-1''"
  then obtain r where r: "request_t db1 = [r]" "rq_CallerID r = 7" "rq_IdempotencyKey r = ''k1''"
    "rq_AuthorizationID r = ''grant-1''" by blast
  let ?req = "demo_submit\<lparr>su_AuthorizationID := ''other''\<rparr>"
  have norm: "normalizeSubmit lower_geth ?req = Inr (demo_params\<lparr>pa_AuthorizationID := ''other''\<rparr>)"
    by (simp add: normalizeSubmit_def demo_submit_def demo_params_def canonicalAddressField_def
      CanonicalAddress_demo demo_amount ValidateChainID_def ValidateIdempotencyKey_def)
  from replay_immune [of demo_wd_env "one_view db1" ?req _ _ _ r id "db1\<lparr>grant_t := []\<rparr>", OF _ _ norm]
    demo_auth [OF s(4,5)] s(3) r show ?thesis by (auto simp: demo_wd_env_def)
qed

lemma demo_key_text: "demo_key = ''txh_'' @ replicate 43 (CHR ''A'')"
proof -
  have "b64_digits (map unat (replicate 32 (0 :: u8))) = replicate 43 0" by code_simp
  then show ?thesis
    by (simp add: demo_key_def keyPrefix_def b64_encode_def b64_char_def char_of_def bit_0)
qed

lemma demo_header: "withdrawalBearerToken (''Bearer '' @ demo_key) = Some demo_key"
proof -
  have "TrimSpace demo_key = demo_key"
    by (rule TrimSpace_id) (simp_all add: space_runes_def demo_key_text char_of_def bit_0)
  then show ?thesis by (simp add: withdrawalBearerToken_def has_prefix_def demo_key_text)
qed

theorem query_noninterference_witness:
  "ServeGET demo_wd_env (Some ((demo_wd []), (demo_wd []))) (demo_wd []) \<lparr>rv_active = [], rv_events = []\<rparr> True (''Bearer '' @ demo_key) ''wr-x'' =
   ServeGET demo_wd_env (Some ((demo_wd []), (demo_wd []))) ((demo_wd [])\<lparr>request_t := [receipt_row demo_wd_env 8 ''k'' demo_params ''wr-x'' 5]\<rparr>)
     \<lparr>rv_active = [], rv_events = []\<rparr> True (''Bearer '' @ demo_key) ''wr-x''"
  by (rule query_noninterference [OF demo_header demo_auth [OF refl refl, of "[]"]]) (simp add: demo_wd_def receipt_row_def)

end
