(* ===== verification/WithdrawalGrant.thy ===== *)
theory WithdrawalGrant
  imports WithdrawalIntake
begin

text \<open>
  Model of grant supply, \<^verbatim>\<open>internal/withdrawal/grant.go\<close>: the op-input and its canonical text, its
  validation, the supply, revoke and re-issue transactions with the in-transaction authority check, and
  the recovery by operation id after a unique violation or an uncertain COMMIT.

  The transactions lock the rows they read, the grant \<^verbatim>\<open>FOR UPDATE\<close> and the authority rows \<^verbatim>\<open>FOR SHARE\<close>; a
  missing row locks nothing, so between the reads and the writes another session may supply it. The
  reads therefore have a view \<open>seen\<close> of their own, and \<open>locks\<close> is what the row lock guarantees of it. The
  recovery reads outside any transaction, and each of its reads has its own view too.
\<close>

section \<open>strconv.Quote\<close>

text \<open>\<open>tbl\<close> is the table of printable runes above \<^verbatim>\<open>0xFF\<close> that \<^verbatim>\<open>strconv.IsPrint\<close> searches.\<close>

definition IsPrint :: "(nat \<Rightarrow> bool) \<Rightarrow> nat \<Rightarrow> bool" where
  "IsPrint tbl r = (if r \<le> 255 then 32 \<le> r \<and> r < 127 \<or> 161 \<le> r \<and> r \<noteq> 173 else tbl r)"

definition rune_val :: "nat list \<Rightarrow> nat" where
  "rune_val bs = (case bs of
     [a] \<Rightarrow> a
   | [a, b] \<Rightarrow> (a - 192) * 64 + (b - 128)
   | [a, b, c] \<Rightarrow> ((a - 224) * 64 + (b - 128)) * 64 + (c - 128)
   | [a, b, c, d] \<Rightarrow> (((a - 240) * 64 + (b - 128)) * 64 + (c - 128)) * 64 + (d - 128)
   | _ \<Rightarrow> 0)"

definition hex_width :: "nat \<Rightarrow> nat \<Rightarrow> string" where
  "hex_width n r = pad_left n (num_text 16 r)"

definition quote_rune :: "(nat \<Rightarrow> bool) \<Rightarrow> string \<Rightarrow> string" where
  "quote_rune tbl s = (let r = rune_val (map byte s) in
     if r = 34 \<or> r = 92 then CHR 0x5C # s
     else if IsPrint tbl r then s
     else if r = 7 then CHR 0x5C # ''a'' else if r = 8 then CHR 0x5C # ''b''
     else if r = 12 then CHR 0x5C # ''f'' else if r = 10 then CHR 0x5C # ''n''
     else if r = 13 then CHR 0x5C # ''r'' else if r = 9 then CHR 0x5C # ''t''
     else if r = 11 then CHR 0x5C # ''v''
     else if r < 32 \<or> r = 127 then CHR 0x5C # ''x'' @ hex_width 2 r
     else if r < 65536 then CHR 0x5C # ''u'' @ hex_width 4 r
     else CHR 0x5C # ''U'' @ hex_width 8 r)"

function quote_text :: "(nat \<Rightarrow> bool) \<Rightarrow> string \<Rightarrow> string" where
  "quote_text tbl s = (case s of [] \<Rightarrow> []
     | c # cs \<Rightarrow>
         let n = rune_len (map byte s) in
         if n = 0 then CHR 0x5C # ''x'' @ hex_width 2 (byte c) @ quote_text tbl cs
         else quote_rune tbl (take n s) @ quote_text tbl (drop n s))"
  by pat_completeness auto
termination
  by (relation "measure (length \<circ> snd)") auto

declare quote_text.simps [simp del]

definition Quote :: "(nat \<Rightarrow> bool) \<Rightarrow> string \<Rightarrow> string" where
  "Quote tbl s = CHR 0x22 # quote_text tbl s @ [CHR 0x22]"

section \<open>Op-input\<close>

record op_input =
  op_OperationID :: string
  op_Action :: string
  op_AuthorizationID :: string
  op_CallerID :: int
  op_ChainID :: int
  op_Asset :: string
  op_Recipient :: string
  op_Amount :: string
  op_ExpiresAt :: "instant option"
  op_IntentID :: string
  op_RequestID :: string
  op_Sender :: string
  op_FeeMaxTotal :: int
  op_FeeMaxPerGas :: int
  op_FeeMaxPriority :: int
  op_AllowsFeeReplacement :: bool
  op_AttestedBy :: string

definition scoped :: "op_input \<Rightarrow> bool" where
  "scoped op \<longleftrightarrow> op_IntentID op \<noteq> [] \<or> op_RequestID op \<noteq> [] \<or> op_Sender op \<noteq> [] \<or>
     op_FeeMaxTotal op \<noteq> 0 \<or> op_FeeMaxPerGas op \<noteq> 0 \<or> op_FeeMaxPriority op \<noteq> 0 \<or>
     op_AllowsFeeReplacement op"

record grant_outcome =
  go_Action :: string
  go_AuthorizationID :: string

record supply_authority =
  sa_PresentedKey :: string
  sa_Issuers :: "int list option"

definition opInputDetail :: "(nat \<Rightarrow> bool) \<Rightarrow> op_input \<Rightarrow> string" where
  "opInputDetail tbl op =
     (let expires = (case op_ExpiresAt op of None \<Rightarrow> [] | Some t \<Rightarrow> rfc3339_nano t) in
      Join (CHR '';'') [
        ''action='' @ Quote tbl (op_Action op),
        ''authorization_id='' @ Quote tbl (op_AuthorizationID op),
        ''caller_id='' @ int_text 10 (op_CallerID op),
        ''chain_id='' @ int_text 10 (op_ChainID op),
        ''asset='' @ Quote tbl (op_Asset op),
        ''recipient='' @ Quote tbl (op_Recipient op),
        ''amount='' @ Quote tbl (op_Amount op),
        ''expires_at='' @ Quote tbl expires,
        ''intent_id='' @ Quote tbl (op_IntentID op),
        ''request_id='' @ Quote tbl (op_RequestID op),
        ''sender='' @ Quote tbl (op_Sender op),
        ''fee_max_total='' @ int_text 10 (op_FeeMaxTotal op),
        ''fee_max_per_gas='' @ int_text 10 (op_FeeMaxPerGas op),
        ''fee_max_priority='' @ int_text 10 (op_FeeMaxPriority op),
        ''allows_fee_replacement='' @ (if op_AllowsFeeReplacement op then ''true'' else ''false''),
        ''attested_by='' @ Quote tbl (op_AttestedBy op)])"

definition grant_matchesOp :: "grant_row \<Rightarrow> op_input \<Rightarrow> bool" where
  "grant_matchesOp g op \<longleftrightarrow> ga_CallerID g = op_CallerID op \<and> ga_ChainID g = op_ChainID op \<and>
     ga_Asset g = op_Asset op \<and> ga_Recipient g = op_Recipient op \<and>
     int_text 10 (ga_Amount g) = op_Amount op \<and> ga_ExpiresAt g = op_ExpiresAt op"

definition scope_matchesOp :: "grant_scope \<Rightarrow> op_input \<Rightarrow> bool" where
  "scope_matchesOp s op \<longleftrightarrow> ws_IntentID s = op_IntentID op \<and> ws_RequestID s = op_RequestID op \<and>
     ws_Sender s = op_Sender op \<and> ws_FeeMaxTotal s = op_FeeMaxTotal op \<and>
     ws_FeeMaxPerGas s = op_FeeMaxPerGas op \<and> ws_FeeMaxPriority s = op_FeeMaxPriority op \<and>
     ws_AllowsFeeReplacement s = op_AllowsFeeReplacement op \<and> ws_AttestedBy s = op_AttestedBy op"

section \<open>Validation\<close>

definition vfail :: "string \<Rightarrow> string \<Rightarrow> wd_error" where
  "vfail field msg = WithField field (wd_New CodeValidationFailed msg)"

definition validateFeeScope :: "op_input \<Rightarrow> wd_error + unit" where
  "validateFeeScope op =
     (if op_FeeMaxTotal op < 0 then Inl (vfail ''fee_max_total'' ''fee_max_total must not be negative'')
      else if op_FeeMaxPerGas op < 0 then Inl (vfail ''fee_max_per_gas'' ''fee_max_per_gas must not be negative'')
      else if op_FeeMaxPriority op < 0 then
        Inl (vfail ''fee_max_priority'' ''fee_max_priority must not be negative'')
      else if op_FeeMaxTotal op = 0 \<and> op_FeeMaxPerGas op = 0 \<and> op_FeeMaxPriority op = 0 then Inr ()
      else if op_FeeMaxTotal op = 0 then Inl (vfail ''fee_max_total''
        (''fee_max_total is required once a scope carries a fee dimension;'' @
         '' a missing applicable cap is refused''))
      else if op_FeeMaxPerGas op = 0 then Inl (vfail ''fee_max_per_gas''
        (''fee_max_per_gas is required once a scope carries a fee dimension;'' @
         '' a missing applicable cap is refused''))
      else if op_FeeMaxPriority op > op_FeeMaxPerGas op then Inl (vfail ''fee_max_priority''
        (''fee_max_priority must not exceed fee_max_per_gas (the EIP-1559 priority cap stays'' @
         '' within the max_fee cap); use 0 for the legacy gas_price path''))
      else Inr ())"

text \<open>\<^verbatim>\<open>Truncate(time.Microsecond)\<close>.\<close>

definition truncate_us :: "instant \<Rightarrow> instant" where
  "truncate_us t = t div 1000 * 1000"

definition validateSupplyOpInput :: "geth \<Rightarrow> op_input \<Rightarrow> instant \<Rightarrow> wd_error + op_input" where
  "validateSupplyOpInput g op now =
     (if op_OperationID op = [] then Inl (vfail ''operation_id''
        ''operation_id is required; mint one and capture it before supply/revoke'')
      else if op_Action op \<noteq> ''supply'' then Inl (vfail ''action''
        (''action must be '' @ [CHR 0x22] @ ''supply'' @ [CHR 0x22] @ '' for SupplyGrant''))
      else if op_AuthorizationID op = [] then Inl (vfail ''authorization_id'' ''authorization_id is required'')
      else if op_CallerID op \<le> 0 then Inl (vfail ''caller_id'' ''caller_id must be positive'')
      else if op_ChainID op \<le> 0 then Inl (vfail ''chain_id''
        (''chain_id must be positive; deployment-chain equality is enforced by the'' @
         '' withdrawal-authz caller''))
      else
        rbind (canonicalAddressField g (op_Asset op) ''asset'') (\<lambda>asset.
        rbind (canonicalAddressField g (op_Recipient op) ''recipient'') (\<lambda>recipient.
        rbind (ValidateAmount (op_Amount op)) (\<lambda>_.
        rbind (case op_ExpiresAt op of
                 None \<Rightarrow> Inr None
               | Some x \<Rightarrow> let t = truncate_us x in
                   if \<not> t > now then Inl (vfail ''expires_at'' ''expires_at must be in the future'')
                   else Inr (Some t)) (\<lambda>expires.
        let op1 = op\<lparr>op_ExpiresAt := expires, op_Asset := asset, op_Recipient := recipient\<rparr> in
        rbind (if scoped op1 then
                 rbind (canonicalAddressField g (op_Sender op1) ''sender'') (\<lambda>sender.
                   if op_AttestedBy op1 = [] then Inl (vfail ''attested_by''
                     (''attested_by is required on a scoped supply; it is the server-resolved issuance'' @
                      '' principal, never caller-supplied nor the operator''))
                   else Inr (op1\<lparr>op_Sender := sender\<rparr>))
               else Inr op1) (\<lambda>op2.
        rbind (validateFeeScope op2) (\<lambda>_. Inr op2)))))))"

definition validateRevokeInput :: "string \<Rightarrow> string \<Rightarrow> wd_error + unit" where
  "validateRevokeInput operationID authorizationID =
     (if operationID = [] then Inl (vfail ''operation_id''
        ''operation_id is required; mint one and capture it before supply/revoke'')
      else if authorizationID = [] then Inl (vfail ''authorization_id'' ''authorization_id is required'')
      else Inr ())"

record reissue_input =
  ri_Op :: op_input
  ri_OldAuthorizationID :: string
  ri_OldRequestID :: string

definition reissueDetail :: "(nat \<Rightarrow> bool) \<Rightarrow> op_input \<Rightarrow> string \<Rightarrow> string \<Rightarrow> string" where
  "reissueDetail tbl op oldAuthorizationID oldRequestID =
     opInputDetail tbl op @ '';reissued_from_authorization_id='' @ Quote tbl oldAuthorizationID @
     '';reissued_from_request_id='' @ Quote tbl oldRequestID"

definition validateReissueInput :: "geth \<Rightarrow> instant \<Rightarrow> reissue_input \<Rightarrow> wd_error + reissue_input" where
  "validateReissueInput g now inp =
     (if ri_OldAuthorizationID inp = [] then Inl (vfail ''reissue_from_authorization_id''
        ''reissue requires the old authorization_id so the attempt can link it'')
      else if op_AuthorizationID (ri_Op inp) = ri_OldAuthorizationID inp then Inl (vfail ''authorization_id''
        ''re-issue must mint a NEW authorization_id; rewriting the old grant row is forbidden'')
      else rbind (validateSupplyOpInput g (ri_Op inp) now) (\<lambda>op.
        if \<not> scoped op then Inl (vfail ''sender''
          ''re-issue writes a new authorization scope; the scope payload is required'')
        else Inr (inp\<lparr>ri_Op := op\<rparr>)))"

section \<open>Statements\<close>

text \<open>The errors of a transaction: a storage error, a classified one, and the COMMIT whose outcome is not
  known.\<close>

datatype grant_tx_err = GStorage pg_error | GClassified wd_error | GCommitUnknown

definition grantRetryable :: "grant_tx_err \<Rightarrow> wd_error" where
  "grantRetryable err = (case err of GClassified e \<Rightarrow> e
     | _ \<Rightarrow> wd_New CodeTemporarilyUnavailable
         (''grant operation outcome is unknown or storage is unavailable;'' @
          '' retry with the same operation_id''))"

definition notYetVisible :: wd_error where
  "notYetVisible = wd_New CodeTemporarilyUnavailable
     ''operation outcome is not yet visible; retry with the same operation_id''"

definition recordedDifferently :: wd_error where
  "recordedDifferently = WithField ''operation_id''
     (wd_New CodeOperationConflict ''operation_id was already recorded with a different op-input'')"

definition callerMissing :: wd_error where
  "callerMissing = vfail ''caller_id'' ''caller_id does not exist''"

definition grantStmt :: "wd_env \<Rightarrow> wd_stmt \<Rightarrow> (pg_error + 'a) \<Rightarrow> grant_tx_err + 'a" where
  "grantStmt e s r = map_err GStorage (run_stmt e s r)"

definition grant_named :: "wd_db \<Rightarrow> string \<Rightarrow> grant_row option" where
  "grant_named db a = find (\<lambda>g. ga_AuthorizationID g = a) (grant_t db)"

definition scope_named :: "wd_db \<Rightarrow> string \<Rightarrow> grant_scope option" where
  "scope_named db a = find (\<lambda>s. ws_AuthorizationID s = a) (gscope_t db)"

definition locks :: "wd_db \<Rightarrow> wd_db \<Rightarrow> string \<Rightarrow> bool" where
  "locks seen db a \<longleftrightarrow> (\<forall>g. grant_named seen a = Some g \<longrightarrow> grant_named db a = Some g)"

definition insertGrant :: "wd_db \<Rightarrow> op_input \<Rightarrow> string \<Rightarrow> pg_error + wd_db" where
  "insertGrant db op operator =
     rbind (numeric_param (op_Amount op)) (\<lambda>amount.
       insert_grant db
         \<lparr>ga_AuthorizationID = op_AuthorizationID op, ga_CallerID = op_CallerID op,
          ga_ChainID = op_ChainID op, ga_Asset = op_Asset op, ga_Recipient = op_Recipient op,
          ga_Amount = amount, ga_State = ''active'', ga_ExpiresAt = op_ExpiresAt op,
          ga_SuppliedBy = operator\<rparr>)"

text \<open>The rows \<^verbatim>\<open>grantUnchangedSQL\<close> would change; the caller refuses unless there are none.\<close>

definition grantUnchanged :: "wd_db \<Rightarrow> op_input \<Rightarrow> pg_error + nat" where
  "grantUnchanged db op =
     rbind (numeric_param (op_Amount op)) (\<lambda>amount.
       Inr (count_where (\<lambda>g. ga_AuthorizationID g = op_AuthorizationID op \<and>
         (ga_CallerID g \<noteq> op_CallerID op \<or> ga_ChainID g \<noteq> op_ChainID op \<or> ga_Asset g \<noteq> op_Asset op \<or>
          ga_Recipient g \<noteq> op_Recipient op \<or> ga_Amount g \<noteq> amount \<or> ga_ExpiresAt g \<noteq> op_ExpiresAt op))
         (grant_t db)))"

definition revokeGrantRow :: "wd_db \<Rightarrow> string \<Rightarrow> wd_db" where
  "revokeGrantRow db a =
     db\<lparr>grant_t := update_where (\<lambda>g. ga_AuthorizationID g = a) (\<lambda>g. g\<lparr>ga_State := ''revoked''\<rparr>) (grant_t db)\<rparr>"

definition insertScope :: "wd_db \<Rightarrow> op_input \<Rightarrow> int \<Rightarrow> pg_error + wd_db" where
  "insertScope db op version =
     insert_scope db
       \<lparr>ws_AuthorizationID = op_AuthorizationID op, ws_IntentID = op_IntentID op,
        ws_RequestID = op_RequestID op, ws_Sender = op_Sender op, ws_FeeMaxTotal = op_FeeMaxTotal op,
        ws_FeeMaxPerGas = op_FeeMaxPerGas op, ws_FeeMaxPriority = op_FeeMaxPriority op,
        ws_AllowsFeeReplacement = op_AllowsFeeReplacement op, ws_AuthorizationVersion = version,
        ws_AttestedBy = op_AttestedBy op\<rparr>"

text \<open>\<^verbatim>\<open>authorization_version + 1\<close> on a \<^verbatim>\<open>BIGINT\<close> column: PostgreSQL refuses the value that does not fit.\<close>

definition bumpScopeVersion :: "wd_db \<Rightarrow> string \<Rightarrow> pg_error + wd_db" where
  "bumpScopeVersion db a =
     (if has_row (\<lambda>s. ws_AuthorizationID s = a \<and> ws_AuthorizationVersion s \<ge> 2 ^ 63 - 1) (gscope_t db)
      then Inl (PgError ''22003'' [])
      else Inr (db\<lparr>gscope_t := update_where (\<lambda>s. ws_AuthorizationID s = a)
        (\<lambda>s. s\<lparr>ws_AuthorizationVersion := ws_AuthorizationVersion s + 1\<rparr>) (gscope_t db)\<rparr>))"

definition insertAudit ::
  "wd_db \<Rightarrow> op_input \<Rightarrow> int \<Rightarrow> string \<Rightarrow> string \<Rightarrow> string \<Rightarrow> string \<Rightarrow> pg_error + wd_db" where
  "insertAudit db op callerID operator reason action detail =
     insert_grant_audit db
       \<lparr>gu_OperationID = op_OperationID op, gu_AuthorizationID = op_AuthorizationID op,
        gu_CallerID = callerID, gu_Action = action, gu_Operator = operator, gu_Reason = reason,
        gu_Detail = detail\<rparr>"

section \<open>Transactions\<close>

definition verifySupplyAuthority ::
  "wd_env \<Rightarrow> wd_db \<Rightarrow> supply_authority \<Rightarrow> grant_tx_err + string option" where
  "verifySupplyAuthority e db auth =
     rbind (grantStmt e KeyAuthoritySelect
       (Inr (find (\<lambda>k. k_Hash k = HashKey (sa_PresentedKey auth) \<and> key_live (w_now e) k) (api_key_t db)))) (\<lambda>found.
     case found of
       None \<Rightarrow> Inr (Some ''api_key'')
     | Some k \<Rightarrow>
         rbind (grantStmt e CallerAuthoritySelect
           (Inr (find (\<lambda>r. cr_CallerID r = k_CallerID k) (caller_t db)))) (\<lambda>caller.
         case caller of
           None \<Rightarrow> Inr (Some ''caller'')
         | Some _ \<Rightarrow>
             if \<not> PermitIssue (sa_Issuers auth) (k_CallerID k) then Inr (Some ''issuer_allowlist'')
             else Inr None))"

definition authorityRefused :: "string \<Rightarrow> wd_error" where
  "authorityRefused check = wd_New CodeUnauthorized (''supply refused: authority check failed: '' @ check)"

text \<open>COMMIT of a body that produced a database and an answer.\<close>

definition grant_commit ::
  "wd_env \<Rightarrow> wd_db \<Rightarrow> (grant_tx_err + wd_db \<times> (wd_error + grant_outcome))
     \<Rightarrow> wd_db \<times> (grant_tx_err + grant_outcome)" where
  "grant_commit e db body = (case body of
     Inl err \<Rightarrow> (db, Inl err)
   | Inr (db', ans) \<Rightarrow>
       (case w_fault e WCommit of
          Some _ \<Rightarrow> (if w_durable e then db' else db, Inl GCommitUnknown)
        | None \<Rightarrow> (db', map_err GClassified ans)))"

definition open_tx :: "wd_env \<Rightarrow> grant_tx_err + unit" where
  "open_tx e = rbind (grantStmt e WBegin (Inr ())) (\<lambda>_. grantStmt e WGuard (Inr ()))"

text \<open>The authority check in front of a body: a refusal records the attempt and answers with the failed
  check.\<close>

definition under_authority ::
  "wd_env \<Rightarrow> wd_db \<Rightarrow> supply_authority option \<Rightarrow> (string \<Rightarrow> grant_tx_err + wd_db)
     \<Rightarrow> (grant_tx_err + wd_db \<times> (wd_error + grant_outcome))
     \<Rightarrow> grant_tx_err + wd_db \<times> (wd_error + grant_outcome)" where
  "under_authority e seen auth record_refusal body = (case auth of
     None \<Rightarrow> body
   | Some a \<Rightarrow>
       rbind (verifySupplyAuthority e seen a) (\<lambda>check.
       case check of
         None \<Rightarrow> body
       | Some c \<Rightarrow> rbind (record_refusal (''supply authority: '' @ c)) (\<lambda>db'.
           Inr (db', Inl (authorityRefused c)))))"

definition supply_change ::
  "wd_env \<Rightarrow> wd_db \<Rightarrow> wd_db \<Rightarrow> op_input \<Rightarrow> string \<Rightarrow> grant_tx_err + wd_db \<times> string" where
  "supply_change e seen db op operator =
     rbind (grantStmt e GrantSelectForUpdate (Inr (grant_named seen (op_AuthorizationID op)))) (\<lambda>grant.
     case grant of
       None \<Rightarrow>
         rbind (grantStmt e GrantInsert (insertGrant db op operator)) (\<lambda>db1.
         rbind (if scoped op then grantStmt e ScopeInsert (insertScope db1 op 1) else Inr db1) (\<lambda>db2.
         Inr (db2, ''supplied'')))
     | Some g \<Rightarrow>
         if grant_matchesOp g op then
           rbind (grantStmt e GrantUnchanged (grantUnchanged db op)) (\<lambda>affected.
           if affected \<noteq> 0 then Inl (GClassified (WithField ''authorization_id''
             (wd_New CodeOperationConflict ''grant parameters changed under the equality check'')))
           else
             rbind (if scoped op then
                 rbind (grantStmt e ScopeSelect (Inr (scope_named db (op_AuthorizationID op)))) (\<lambda>scope.
                 if (case scope of None \<Rightarrow> True | Some s \<Rightarrow> \<not> scope_matchesOp s op)
                 then Inl (GClassified (WithField ''authorization_id''
                   (wd_New CodeOperationConflict ''grant scope parameters changed under the equality check'')))
                 else if ga_State g \<noteq> ''active''
                 then grantStmt e ScopeBump (bumpScopeVersion db (op_AuthorizationID op))
                 else Inr db)
               else Inr db) (\<lambda>db1. Inr (db1, ''resupplied'')))
         else Inr (db, ''supply_refused''))"

definition runSupplyTx ::
  "(nat \<Rightarrow> bool) \<Rightarrow> wd_env \<Rightarrow> wd_db \<Rightarrow> wd_db \<Rightarrow> op_input \<Rightarrow> supply_authority option \<Rightarrow> string \<Rightarrow> string
     \<Rightarrow> wd_db \<times> (grant_tx_err + grant_outcome)" where
  "runSupplyTx tbl e seen db op auth operator reason =
     grant_commit e db
       (rbind (open_tx e) (\<lambda>_.
        under_authority e seen auth
          (\<lambda>why. grantStmt e GrantAuditInsert
             (insertAudit db op (op_CallerID op) operator why ''supply_refused'' (opInputDetail tbl op)))
          (rbind (supply_change e seen db op operator) (\<lambda>(db1, action).
           rbind (grantStmt e GrantAuditInsert
             (insertAudit db1 op (op_CallerID op) operator reason action (opInputDetail tbl op))) (\<lambda>db2.
           Inr (db2, Inr \<lparr>go_Action = action, go_AuthorizationID = op_AuthorizationID op\<rparr>))))))"

definition revoke_change ::
  "wd_env \<Rightarrow> wd_db \<Rightarrow> wd_db \<Rightarrow> string \<Rightarrow> grant_tx_err + wd_db \<times> string \<times> int" where
  "revoke_change e seen db a =
     rbind (grantStmt e GrantSelectForUpdate (Inr (grant_named seen a))) (\<lambda>grant.
     case grant of
       None \<Rightarrow> Inr (db, ''supply_refused'', 0)
     | Some g \<Rightarrow>
         if ga_State g = ''active'' then
           rbind (grantStmt e GrantRevoke (Inr (revokeGrantRow db a))) (\<lambda>db1.
           rbind (grantStmt e ScopeBump (bumpScopeVersion db1 a)) (\<lambda>db2.
           Inr (db2, ''revoked'', ga_CallerID g)))
         else Inr (db, ''revoke_nop'', ga_CallerID g))"

definition runRevokeTx ::
  "(nat \<Rightarrow> bool) \<Rightarrow> wd_env \<Rightarrow> wd_db \<Rightarrow> wd_db \<Rightarrow> op_input \<Rightarrow> string \<Rightarrow> string
     \<Rightarrow> wd_db \<times> (grant_tx_err + grant_outcome)" where
  "runRevokeTx tbl e seen db op operator reason =
     grant_commit e db
       (rbind (open_tx e) (\<lambda>_.
        rbind (revoke_change e seen db (op_AuthorizationID op)) (\<lambda>(db1, action, callerID).
        rbind (grantStmt e GrantAuditInsert
          (insertAudit db1 op callerID operator reason action (opInputDetail tbl op))) (\<lambda>db2.
        Inr (db2, Inr \<lparr>go_Action = action, go_AuthorizationID = op_AuthorizationID op\<rparr>)))))"

definition runReissueTx ::
  "(nat \<Rightarrow> bool) \<Rightarrow> wd_env \<Rightarrow> wd_db \<Rightarrow> wd_db \<Rightarrow> reissue_input \<Rightarrow> supply_authority option \<Rightarrow> string \<Rightarrow> string
     \<Rightarrow> wd_db \<times> (grant_tx_err + grant_outcome)" where
  "runReissueTx tbl e seen db inp auth operator reason =
     (let op = ri_Op inp;
          detail = reissueDetail tbl op (ri_OldAuthorizationID inp) (ri_OldRequestID inp) in
      grant_commit e db
       (rbind (open_tx e) (\<lambda>_.
        under_authority e seen auth
          (\<lambda>why. grantStmt e GrantAuditInsert
             (insertAudit db op (op_CallerID op) operator why ''supply_refused'' detail))
          (rbind (grantStmt e OldGrantSelect (Inr (grant_named seen (ri_OldAuthorizationID inp)))) (\<lambda>old.
           if old = None then Inl (GClassified (vfail ''reissue_from_authorization_id''
             ''reissue_from_authorization_id does not exist; re-issue links an existing grant''))
           else
           rbind (grantStmt e GrantInsert (insertGrant db op operator)) (\<lambda>db1.
           rbind (grantStmt e ScopeInsert (insertScope db1 op 1)) (\<lambda>db2.
           rbind (grantStmt e GrantAuditInsert
             (insertAudit db2 op (op_CallerID op) operator reason ''supplied'' detail)) (\<lambda>db3.
           Inr (db3, Inr \<lparr>go_Action = ''supplied'', go_AuthorizationID = op_AuthorizationID op\<rparr>)))))))))"

section \<open>Recovery by operation id\<close>

text \<open>The environment of a recovery, and what its reads of the attempt, the grant and the scope see.\<close>

record recovery_reads =
  rr_env :: wd_env
  rr_attempt :: wd_db
  rr_grant :: wd_db
  rr_scope :: wd_db

definition readAttemptPool :: "wd_env \<Rightarrow> wd_db \<Rightarrow> string \<Rightarrow> grant_tx_err + grant_audit option" where
  "readAttemptPool e db operationID =
     grantStmt e AttemptSelect (Inr (find (\<lambda>a. gu_OperationID a = operationID) (grant_audit_t db)))"

definition outcome_of :: "grant_audit \<Rightarrow> grant_outcome" where
  "outcome_of a = \<lparr>go_Action = gu_Action a, go_AuthorizationID = gu_AuthorizationID a\<rparr>"

definition resolveByOperationID ::
  "(nat \<Rightarrow> bool) \<Rightarrow> recovery_reads \<Rightarrow> op_input \<Rightarrow> wd_error + grant_outcome" where
  "resolveByOperationID tbl rr op =
     rbind (map_err grantRetryable (readAttemptPool (rr_env rr) (rr_attempt rr) (op_OperationID op))) (\<lambda>found.
     case found of
       None \<Rightarrow> Inl notYetVisible
     | Some row \<Rightarrow>
         if gu_Detail row \<noteq> opInputDetail tbl op then Inl recordedDifferently
         else if scoped op then
           rbind (map_err grantRetryable (grantStmt (rr_env rr) ScopeReadOnlySelect
             (Inr (scope_named (rr_scope rr) (op_AuthorizationID op))))) (\<lambda>scope.
           case scope of
             None \<Rightarrow> Inl notYetVisible
           | Some s \<Rightarrow> if \<not> scope_matchesOp s op then Inl notYetVisible else Inr (outcome_of row))
         else Inr (outcome_of row))"

definition resolveReissueByOperationID ::
  "(nat \<Rightarrow> bool) \<Rightarrow> recovery_reads \<Rightarrow> reissue_input \<Rightarrow> wd_error + grant_outcome" where
  "resolveReissueByOperationID tbl rr inp =
     rbind (map_err grantRetryable
       (readAttemptPool (rr_env rr) (rr_attempt rr) (op_OperationID (ri_Op inp)))) (\<lambda>found.
     case found of
       None \<Rightarrow> Inl notYetVisible
     | Some row \<Rightarrow>
         if gu_Detail row \<noteq> reissueDetail tbl (ri_Op inp) (ri_OldAuthorizationID inp) (ri_OldRequestID inp)
         then Inl recordedDifferently
         else Inr (outcome_of row))"

text \<open>One statement in a transaction of its own.\<close>

definition boundedAudit ::
  "(nat \<Rightarrow> bool) \<Rightarrow> wd_env \<Rightarrow> recovery_reads \<Rightarrow> wd_db \<Rightarrow> op_input \<Rightarrow> int \<Rightarrow> string \<Rightarrow> string \<Rightarrow> string
     \<Rightarrow> wd_db \<times> (wd_error + grant_outcome)" where
  "boundedAudit tbl e rr db op callerID operator reason action =
     (let written = insertAudit db op callerID operator reason action (opInputDetail tbl op);
          left = (case written of Inr db' \<Rightarrow> if w_fault e BoundedAuditInsert = None \<or> w_durable e then db' else db
                  | Inl _ \<Rightarrow> db) in
      case run_stmt e BoundedAuditInsert written of
        Inr _ \<Rightarrow> (left, Inr \<lparr>go_Action = action, go_AuthorizationID = op_AuthorizationID op\<rparr>)
      | Inl err \<Rightarrow>
          if err = PgError ''23505'' ''withdrawal_grant_audit_operation_id_uniq''
          then (left, resolveByOperationID tbl rr op)
          else (left, Inl (grantRetryable (GStorage err))))"

definition resolveGrantPKRace ::
  "(nat \<Rightarrow> bool) \<Rightarrow> recovery_reads \<Rightarrow> wd_env \<Rightarrow> recovery_reads \<Rightarrow> wd_db \<Rightarrow> op_input \<Rightarrow> string \<Rightarrow> string
     \<Rightarrow> wd_db \<times> (wd_error + grant_outcome)" where
  "resolveGrantPKRace tbl rr e rr2 db op operator reason =
     (case readAttemptPool (rr_env rr) (rr_attempt rr) (op_OperationID op) of
        Inl err \<Rightarrow> (db, Inl (grantRetryable err))
      | Inr (Some row) \<Rightarrow>
          (db, if gu_Detail row = opInputDetail tbl op then Inr (outcome_of row) else Inl recordedDifferently)
      | Inr None \<Rightarrow>
          (case grantStmt (rr_env rr) GrantReadOnlySelect (Inr (grant_named (rr_grant rr) (op_AuthorizationID op))) of
             Inl err \<Rightarrow> (db, Inl (grantRetryable err))
           | Inr grant \<Rightarrow>
               let matched = (case grant of None \<Rightarrow> False | Some g \<Rightarrow> grant_matchesOp g op) in
               (case (if matched \<and> scoped op
                      then rbind (grantStmt (rr_env rr) ScopeReadOnlySelect
                        (Inr (scope_named (rr_scope rr) (op_AuthorizationID op)))) (\<lambda>scope.
                        Inr (case scope of None \<Rightarrow> False | Some s \<Rightarrow> scope_matchesOp s op))
                      else Inr matched) of
                  Inl err \<Rightarrow> (db, Inl (grantRetryable err))
                | Inr ok \<Rightarrow> boundedAudit tbl e rr2 db op (op_CallerID op) operator reason
                    (if ok then ''resupplied'' else ''supply_refused''))))"

section \<open>Operations\<close>

text \<open>The two recoveries of an operation and the database its bounded re-execution finds; \<open>later\<close> is what
  other sessions make of the database the transaction left.\<close>

record recovery_env =
  re_first :: recovery_reads
  re_retry :: wd_env
  re_second :: recovery_reads
  re_later :: "wd_db \<Rightarrow> wd_db"

definition supply_grant ::
  "geth \<Rightarrow> (nat \<Rightarrow> bool) \<Rightarrow> wd_env \<Rightarrow> recovery_env \<Rightarrow> wd_db \<Rightarrow> wd_db \<Rightarrow> op_input
     \<Rightarrow> supply_authority option \<Rightarrow> string \<Rightarrow> string \<Rightarrow> wd_db \<times> (wd_error + grant_outcome)" where
  "supply_grant g tbl e re seen db op auth operator reason =
     (case validateSupplyOpInput g op (w_time e) of
        Inl err \<Rightarrow> (db, Inl err)
      | Inr norm \<Rightarrow>
          (case runSupplyTx tbl e seen db norm auth operator reason of
             (db', Inr out) \<Rightarrow> (db', Inr out)
           | (db', Inl GCommitUnknown) \<Rightarrow> (db', resolveByOperationID tbl (re_first re) norm)
           | (db', Inl (GStorage (PgError code name))) \<Rightarrow>
               if code = ''23505'' \<and> name = ''withdrawal_grant_audit_operation_id_uniq''
               then (db', resolveByOperationID tbl (re_first re) norm)
               else if code = ''23505'' \<and> name = ''withdrawal_authorizations_pkey''
               then resolveGrantPKRace tbl (re_first re) (re_retry re) (re_second re) (re_later re db')
                 norm operator reason
               else if code = ''23503'' then (db', Inl callerMissing)
               else (db', Inl (grantRetryable (GStorage (PgError code name))))
           | (db', Inl err) \<Rightarrow> (db', Inl (grantRetryable err))))"

definition SupplyGrant ::
  "geth \<Rightarrow> (nat \<Rightarrow> bool) \<Rightarrow> wd_env \<Rightarrow> recovery_env \<Rightarrow> wd_db \<Rightarrow> wd_db \<Rightarrow> op_input \<Rightarrow> string \<Rightarrow> string
     \<Rightarrow> wd_db \<times> (wd_error + grant_outcome)" where
  "SupplyGrant g tbl e re seen db op operator reason = supply_grant g tbl e re seen db op None operator reason"

definition SupplyGrantAuthorized ::
  "geth \<Rightarrow> (nat \<Rightarrow> bool) \<Rightarrow> wd_env \<Rightarrow> recovery_env \<Rightarrow> wd_db \<Rightarrow> wd_db \<Rightarrow> op_input \<Rightarrow> supply_authority
     \<Rightarrow> string \<Rightarrow> string \<Rightarrow> wd_db \<times> (wd_error + grant_outcome)" where
  "SupplyGrantAuthorized g tbl e re seen db op auth operator reason =
     supply_grant g tbl e re seen db op (Some auth) operator reason"

definition reissue ::
  "geth \<Rightarrow> (nat \<Rightarrow> bool) \<Rightarrow> wd_env \<Rightarrow> recovery_reads \<Rightarrow> wd_db \<Rightarrow> wd_db \<Rightarrow> reissue_input
     \<Rightarrow> supply_authority option \<Rightarrow> string \<Rightarrow> string \<Rightarrow> wd_db \<times> (wd_error + grant_outcome)" where
  "reissue g tbl e rr seen db inp auth operator reason =
     (case validateReissueInput g (w_time e) inp of
        Inl err \<Rightarrow> (db, Inl err)
      | Inr norm \<Rightarrow>
          (case runReissueTx tbl e seen db norm auth operator reason of
             (db', Inr out) \<Rightarrow> (db', Inr out)
           | (db', Inl GCommitUnknown) \<Rightarrow> (db', resolveReissueByOperationID tbl rr norm)
           | (db', Inl (GStorage (PgError code name))) \<Rightarrow>
               if code = ''23505'' \<and> name = ''withdrawal_grant_audit_operation_id_uniq''
               then (db', resolveReissueByOperationID tbl rr norm)
               else if code = ''23505'' \<and> name = ''withdrawal_authorizations_pkey''
               then (db', Inl (WithField ''authorization_id'' (wd_New CodeOperationConflict
                 ''authorization_id already has a grant; re-issue must mint a NEW grant id'')))
               else if code = ''23503'' then (db', Inl callerMissing)
               else (db', Inl (grantRetryable (GStorage (PgError code name))))
           | (db', Inl err) \<Rightarrow> (db', Inl (grantRetryable err))))"

definition ReissueGrant ::
  "geth \<Rightarrow> (nat \<Rightarrow> bool) \<Rightarrow> wd_env \<Rightarrow> recovery_reads \<Rightarrow> wd_db \<Rightarrow> wd_db \<Rightarrow> reissue_input \<Rightarrow> string \<Rightarrow> string
     \<Rightarrow> wd_db \<times> (wd_error + grant_outcome)" where
  "ReissueGrant g tbl e rr seen db inp operator reason = reissue g tbl e rr seen db inp None operator reason"

definition ReissueGrantAuthorized ::
  "geth \<Rightarrow> (nat \<Rightarrow> bool) \<Rightarrow> wd_env \<Rightarrow> recovery_reads \<Rightarrow> wd_db \<Rightarrow> wd_db \<Rightarrow> reissue_input \<Rightarrow> supply_authority
     \<Rightarrow> string \<Rightarrow> string \<Rightarrow> wd_db \<times> (wd_error + grant_outcome)" where
  "ReissueGrantAuthorized g tbl e rr seen db inp auth operator reason =
     reissue g tbl e rr seen db inp (Some auth) operator reason"

definition revoke_op :: "string \<Rightarrow> string \<Rightarrow> op_input" where
  "revoke_op operationID authorizationID =
     \<lparr>op_OperationID = operationID, op_Action = ''revoke'', op_AuthorizationID = authorizationID,
      op_CallerID = 0, op_ChainID = 0, op_Asset = [], op_Recipient = [], op_Amount = [],
      op_ExpiresAt = None, op_IntentID = [], op_RequestID = [], op_Sender = [], op_FeeMaxTotal = 0,
      op_FeeMaxPerGas = 0, op_FeeMaxPriority = 0, op_AllowsFeeReplacement = False, op_AttestedBy = []\<rparr>"

definition RevokeGrant ::
  "(nat \<Rightarrow> bool) \<Rightarrow> wd_env \<Rightarrow> recovery_reads \<Rightarrow> wd_db \<Rightarrow> wd_db \<Rightarrow> string \<Rightarrow> string \<Rightarrow> string \<Rightarrow> string
     \<Rightarrow> wd_db \<times> (wd_error + grant_outcome)" where
  "RevokeGrant tbl e rr seen db operationID authorizationID operator reason =
     (case validateRevokeInput operationID authorizationID of
        Inl err \<Rightarrow> (db, Inl err)
      | Inr _ \<Rightarrow>
          let op = revoke_op operationID authorizationID in
          (case runRevokeTx tbl e seen db op operator reason of
             (db', Inr out) \<Rightarrow> (db', Inr out)
           | (db', Inl GCommitUnknown) \<Rightarrow> (db', resolveByOperationID tbl rr op)
           | (db', Inl (GStorage (PgError code name))) \<Rightarrow>
               if code = ''23505'' \<and> name = ''withdrawal_grant_audit_operation_id_uniq''
               then (db', resolveByOperationID tbl rr op)
               else (db', Inl (grantRetryable (GStorage (PgError code name))))
           | (db', Inl err) \<Rightarrow> (db', Inl (grantRetryable err))))"

definition ReadAttempt :: "wd_env \<Rightarrow> wd_db \<Rightarrow> string \<Rightarrow> grant_tx_err + grant_outcome option" where
  "ReadAttempt e db operationID =
     rbind (readAttemptPool e db operationID) (\<lambda>found. Inr (map_option outcome_of found))"

end
