(* ===== verification/WithdrawalSystem.thy ===== *)
theory WithdrawalSystem
  imports WithdrawalIntakeSpec WithdrawalGrant
begin

text \<open>
  Withdrawal creation as one system: the credential operations, the grant transactions, the receipt of
  requests, the reject audit and the event publisher as steps of one transition relation over the
  shared tables, in any order and from any number of sessions. The lemmas give what every step keeps
  and how rows may move; the theorems are the guarantees that hold along every trace.
\<close>

section \<open>How rows move\<close>

definition grant_moves :: "grant_row \<Rightarrow> grant_row \<Rightarrow> bool" where
  "grant_moves g g' \<longleftrightarrow> g'\<lparr>ga_State := ga_State g\<rparr> = g \<and>
     (ga_State g' = ga_State g \<or> ga_State g = ''active'' \<and> ga_State g' = ''revoked'')"

definition scope_moves :: "grant_scope \<Rightarrow> grant_scope \<Rightarrow> bool" where
  "scope_moves s s' \<longleftrightarrow> s'\<lparr>ws_AuthorizationVersion := ws_AuthorizationVersion s\<rparr> = s \<and>
     ws_AuthorizationVersion s \<le> ws_AuthorizationVersion s'"

lemma grant_moves_columns:
  assumes "grant_moves g g'"
  shows "ga_AuthorizationID g' = ga_AuthorizationID g" "ga_CallerID g' = ga_CallerID g"
    "ga_ChainID g' = ga_ChainID g" "ga_Asset g' = ga_Asset g" "ga_Recipient g' = ga_Recipient g"
    "ga_Amount g' = ga_Amount g" "ga_ExpiresAt g' = ga_ExpiresAt g"
    "ga_State g \<noteq> ''active'' \<Longrightarrow> ga_State g' = ga_State g"
  using assms by (cases g; cases g'; auto simp: grant_moves_def)+

lemma scope_moves_columns:
  assumes "scope_moves s s'"
  shows "ws_AuthorizationID s' = ws_AuthorizationID s" "scope_matchesOp s' op = scope_matchesOp s op"
    "ws_AuthorizationVersion s \<le> ws_AuthorizationVersion s'"
  using assms by (cases s; cases s'; auto simp: scope_moves_def scope_matchesOp_def)+

interpretation grant_rows: keyed_evolution grant_moves ga_AuthorizationID
proof
  fix x y z :: grant_row
  show "grant_moves x x" by (simp add: grant_moves_def)
  show "grant_moves x z" if "grant_moves x y" "grant_moves y z"
    using that by (cases x; cases y; cases z) (auto simp: grant_moves_def)
  show "ga_AuthorizationID y = ga_AuthorizationID x" if "grant_moves x y"
    using that by (rule grant_moves_columns)
qed

interpretation gscope_rows: keyed_evolution scope_moves ws_AuthorizationID
proof
  fix x y z :: grant_scope
  show "scope_moves x x" by (simp add: scope_moves_def)
  show "scope_moves x z" if "scope_moves x y" "scope_moves y z"
    using that by (cases x; cases y; cases z) (auto simp: scope_moves_def)
  show "ws_AuthorizationID y = ws_AuthorizationID x" if "scope_moves x y"
    using that by (rule scope_moves_columns)
qed

text \<open>Nothing is ever removed; requests, callers and both audits never change; credentials, grants and
  scopes move along their own order; and a scope only appears together with its grant.\<close>

definition wd_evolves :: "wd_db \<Rightarrow> wd_db \<Rightarrow> bool" where
  "wd_evolves db db' \<longleftrightarrow>
     grows (=) (caller_t db) (caller_t db') \<and> grows key_moves (api_key_t db) (api_key_t db') \<and>
     grows (=) (request_t db) (request_t db') \<and> grows grant_moves (grant_t db) (grant_t db') \<and>
     grows scope_moves (gscope_t db) (gscope_t db') \<and>
     grows (=) (request_audit_t db) (request_audit_t db') \<and> grows (=) (grant_audit_t db) (grant_audit_t db') \<and>
     (\<forall>s \<in> set (gscope_t db'). ws_AuthorizationID s \<in> ws_AuthorizationID ` set (gscope_t db) \<or>
        ws_AuthorizationID s \<notin> ga_AuthorizationID ` set (grant_t db))"

lemmas grows_refls = fixed_rows.grows_refl credential.grows_refl grant_rows.grows_refl gscope_rows.grows_refl

lemma wd_evolves_refl: "wd_evolves db db"
  by (simp add: wd_evolves_def grows_refls)

lemma wd_evolves_trans:
  assumes "wd_evolves a b" "wd_evolves b c"
  shows "wd_evolves a c"
proof -
  have tables: "grows (=) (caller_t a) (caller_t c)" "grows key_moves (api_key_t a) (api_key_t c)"
     "grows (=) (request_t a) (request_t c)" "grows grant_moves (grant_t a) (grant_t c)"
     "grows scope_moves (gscope_t a) (gscope_t c)" "grows (=) (request_audit_t a) (request_audit_t c)"
     "grows (=) (grant_audit_t a) (grant_audit_t c)"
    using assms unfolding wd_evolves_def
    by (blast intro: fixed_rows.grows_trans credential.grows_trans grant_rows.grows_trans gscope_rows.grows_trans)+
  have "ga_AuthorizationID ` set (grant_t a) \<subseteq> ga_AuthorizationID ` set (grant_t b)"
    using assms(1) by (intro grant_rows.keys_grow) (simp add: wd_evolves_def)
  then have "ws_AuthorizationID s \<in> ws_AuthorizationID ` set (gscope_t a) \<or>
        ws_AuthorizationID s \<notin> ga_AuthorizationID ` set (grant_t a)" if s: "s \<in> set (gscope_t c)" for s
  proof (cases "ws_AuthorizationID s \<in> ws_AuthorizationID ` set (gscope_t b)")
    case True
    then obtain s1 where "s1 \<in> set (gscope_t b)" "ws_AuthorizationID s1 = ws_AuthorizationID s" by auto
    with assms(1) show ?thesis unfolding wd_evolves_def by metis
  next
    case False
    with s assms(2) have "ws_AuthorizationID s \<notin> ga_AuthorizationID ` set (grant_t b)"
      by (auto simp: wd_evolves_def)
    with \<open>ga_AuthorizationID ` set (grant_t a) \<subseteq> _\<close> show ?thesis by blast
  qed
  with tables show ?thesis by (simp add: wd_evolves_def)
qed

interpretation wd_states: evolution wd_evolves
  by unfold_locales (auto intro: wd_evolves_refl wd_evolves_trans)

lemma credentials_change_evolves: "credentials_change db db' \<Longrightarrow> wd_evolves db db'"
  by (simp add: credentials_change_def wd_evolves_def grows_refls)

section \<open>Grant transactions\<close>

lemma grantStmt_Inr [rbind_rules]: "grantStmt e s r = Inr x \<longleftrightarrow> w_fault e s = None \<and> r = Inr x"
  by (simp add: grantStmt_def rbind_rules)

lemma grant_commit_cases:
  assumes "grant_commit e db body = (db', r)"
  obtains "db' = db" "\<exists>err. r = Inl err"
  | ans where "body = Inr (db', ans)" "r = map_err GClassified ans \<or> r = Inl GCommitUnknown"
  using assms by (auto simp: grant_commit_def split: sum.splits option.splits if_splits)

text \<open>What the insert of a grant, of a scope, of an audit row, a bump and a revocation do.\<close>

lemma insertGrant_Inr:
  assumes "insertGrant db op operator = Inr db'"
  obtains g where "insert_grant db g = Inr db'" "db' = db\<lparr>grant_t := grant_t db @ [g]\<rparr>"
    "ga_AuthorizationID g = op_AuthorizationID op" "ga_State g = ''active''" "grant_matchesOp g op"
    "\<not> has_row (\<lambda>s. ga_AuthorizationID s = op_AuthorizationID op) (grant_t db)"
proof -
  from assms obtain v where v: "ValidateAmount (op_Amount op) = Inr v"
    by (auto simp: insertGrant_def rbind_rules numeric_param_Inr)
  define g where "g = \<lparr>ga_AuthorizationID = op_AuthorizationID op, ga_CallerID = op_CallerID op,
    ga_ChainID = op_ChainID op, ga_Asset = op_Asset op, ga_Recipient = op_Recipient op, ga_Amount = v,
    ga_State = ''active'', ga_ExpiresAt = op_ExpiresAt op, ga_SuppliedBy = operator\<rparr>"
  have ins: "insert_grant db g = Inr db'"
    using assms v by (simp add: insertGrant_def numeric_param_def g_def)
  from ins have "db' = db\<lparr>grant_t := grant_t db @ [g]\<rparr>"
    "\<not> has_row (\<lambda>s. ga_AuthorizationID s = op_AuthorizationID op) (grant_t db)"
    by (simp_all add: insert_grant_Inr) (simp add: g_def)
  with ins ValidateAmount_text(3) [OF v] show thesis
    by (intro that [of g]) (simp_all add: g_def grant_matchesOp_def)
qed

lemma insertScope_Inr:
  assumes "insertScope db op v = Inr db'"
  obtains s where "insert_scope db s = Inr db'" "db' = db\<lparr>gscope_t := gscope_t db @ [s]\<rparr>"
    "ws_AuthorizationID s = op_AuthorizationID op" "scope_matchesOp s op" "ws_AuthorizationVersion s = v"
  using assms by (auto simp: insertScope_def insert_scope_Inr scope_matchesOp_def)

lemma insertAudit_Inr:
  assumes "insertAudit db op c operator reason action detail = Inr db'"
  shows "db' = db\<lparr>grant_audit_t := grant_audit_t db @ [\<lparr>gu_OperationID = op_OperationID op,
     gu_AuthorizationID = op_AuthorizationID op, gu_CallerID = c, gu_Action = action, gu_Operator = operator,
     gu_Reason = reason, gu_Detail = detail\<rparr>]\<rparr>"
    and "wd_inv db \<Longrightarrow> wd_inv db'"
  using assms insert_grant_audit_inv by (auto simp: insertAudit_def insert_grant_audit_Inr)

lemma has_row_key: "has_row (\<lambda>r. f r = x) t \<longleftrightarrow> x \<in> f ` set t"
  by (auto simp: has_row_iff)

lemma revoked_ok: "first_violation (grant_checks g) = None \<Longrightarrow>
    first_violation (grant_checks (g\<lparr>ga_State := ''revoked''\<rparr>)) = None"
  by (auto simp: grant_checks_def split: if_splits)

lemma bumped_ok: "first_violation (scope_checks s) = None \<Longrightarrow>
    first_violation (scope_checks (s\<lparr>ws_AuthorizationVersion := ws_AuthorizationVersion s + 1\<rparr>)) = None"
  by (auto simp: scope_checks_def split: if_splits)

lemma update_rows_inv:
  assumes "wd_inv db"
  shows "wd_inv (revokeGrantRow db a)" and "bumpScopeVersion db a = Inr db' \<Longrightarrow> wd_inv db'"
proof -
  let ?gs = "update_where (\<lambda>g. ga_AuthorizationID g = a) (\<lambda>g. g\<lparr>ga_State := ''revoked''\<rparr>) (grant_t db)"
  have ids: "map ga_AuthorizationID ?gs = map ga_AuthorizationID (grant_t db)"
    by (rule map_update_where) simp
  then have set_ids: "ga_AuthorizationID ` set ?gs = ga_AuthorizationID ` set (grant_t db)"
    by (metis list.set_map)
  have grants: "\<forall>g \<in> set (grant_t db). first_violation (grant_checks g) = None \<and> caller_exists db (ga_CallerID g)"
    and scopes: "\<forall>s \<in> set (gscope_t db). first_violation (scope_checks s) = None
      \<and> has_row (\<lambda>g. ga_AuthorizationID g = ws_AuthorizationID s) (grant_t db)"
    using assms by (simp_all add: wd_inv_def)
  have "\<forall>g \<in> set ?gs. first_violation (grant_checks g) = None \<and> caller_exists db (ga_CallerID g)"
    using grants revoked_ok by (auto simp: set_update_where)
  moreover have "has_row (\<lambda>g. ga_AuthorizationID g = x) ?gs = has_row (\<lambda>g. ga_AuthorizationID g = x) (grant_t db)" for x
    by (simp only: has_row_key set_ids)
  ultimately show "wd_inv (revokeGrantRow db a)"
    using assms ids by (simp add: wd_inv_def revokeGrantRow_def)
  let ?ss = "update_where (\<lambda>s. ws_AuthorizationID s = a)
    (\<lambda>s. s\<lparr>ws_AuthorizationVersion := ws_AuthorizationVersion s + 1\<rparr>) (gscope_t db)"
  have sids: "map ws_AuthorizationID ?ss = map ws_AuthorizationID (gscope_t db)"
    by (rule map_update_where) simp
  have "\<forall>s \<in> set ?ss. first_violation (scope_checks s) = None
      \<and> has_row (\<lambda>g. ga_AuthorizationID g = ws_AuthorizationID s) (grant_t db)"
    using scopes bumped_ok by (auto simp: set_update_where)
  then show "wd_inv db'" if "bumpScopeVersion db a = Inr db'"
    using that assms sids by (auto simp: wd_inv_def bumpScopeVersion_def split: if_splits)
qed

text \<open>An audit row that reports a revocation tells the truth about its grant.\<close>

definition inactive :: "wd_db \<Rightarrow> string \<Rightarrow> bool" where
  "inactive db a \<longleftrightarrow> (\<exists>g \<in> set (grant_t db). ga_AuthorizationID g = a \<and> ga_State g \<noteq> ''active'')"

definition audit_truth :: "wd_db \<Rightarrow> bool" where
  "audit_truth db \<longleftrightarrow> (\<forall>x \<in> set (grant_audit_t db).
     gu_Action x \<in> {''revoked'', ''revoke_nop''} \<longrightarrow> inactive db (gu_AuthorizationID x))"

lemma inactive_evolves: "wd_evolves db db' \<Longrightarrow> inactive db a \<Longrightarrow> inactive db' a"
  unfolding inactive_def wd_evolves_def
  by (metis grant_moves_columns(1,8) grant_rows.grows_row)

text \<open>What every grant transaction does: it keeps the invariant, moves rows forward, leaves the tables of
  requests, credentials and events alone, and records no false revocation.\<close>

definition grant_step :: "wd_db \<Rightarrow> wd_db \<Rightarrow> bool" where
  "grant_step db db' \<longleftrightarrow> wd_evolves db db' \<and> wd_inv db' \<and> request_t db' = request_t db \<and>
     caller_t db' = caller_t db \<and> api_key_t db' = api_key_t db \<and> events_t db' = events_t db \<and>
     request_audit_t db' = request_audit_t db \<and> (audit_truth db \<longrightarrow> audit_truth db')"

lemma grant_step_refl: "wd_inv db \<Longrightarrow> grant_step db db"
  by (simp add: grant_step_def wd_evolves_refl)

lemma grant_step_trans: "grant_step a b \<Longrightarrow> grant_step b c \<Longrightarrow> grant_step a c"
  by (auto simp: grant_step_def intro: wd_evolves_trans)

lemma audit_truth_kept: "wd_evolves db db' \<Longrightarrow> grant_audit_t db' = grant_audit_t db \<Longrightarrow> audit_truth db \<Longrightarrow> audit_truth db'"
  by (auto simp: audit_truth_def intro: inactive_evolves)

lemma audit_step:
  assumes "insertAudit db op c operator reason action detail = Inr db'" "wd_inv db"
    "action \<in> {''revoked'', ''revoke_nop''} \<Longrightarrow> inactive db (op_AuthorizationID op)"
  shows "grant_step db db'"
proof -
  note db' = insertAudit_Inr(1) [OF assms(1)]
  have "wd_evolves db db'" by (simp add: db' wd_evolves_def grows_refls fixed_rows.grows_append)
  moreover have "audit_truth db \<longrightarrow> audit_truth db'"
    using assms(3) by (auto simp: audit_truth_def db' inactive_def)
  ultimately show ?thesis using insertAudit_Inr(2) [OF assms(1,2)] by (simp add: grant_step_def db')
qed

lemma supplied_step:
  assumes "wd_inv db" "insertGrant db op operator = Inr db1"
    "db2 = db1 \<or> (\<exists>v. insertScope db1 op v = Inr db2)"
  shows "grant_step db db2"
proof -
  from assms(2) obtain gr where gr: "insert_grant db gr = Inr db1" "db1 = db\<lparr>grant_t := grant_t db @ [gr]\<rparr>"
    "\<not> has_row (\<lambda>s. ga_AuthorizationID s = op_AuthorizationID op) (grant_t db)" by (rule insertGrant_Inr)
  have inv1: "wd_inv db1" using insert_grant_inv [OF assms(1) gr(1)] .
  have ev1: "wd_evolves db db1" by (simp add: gr(2) wd_evolves_def grows_refls grant_rows.grows_append)
  have "wd_evolves db db2 \<and> wd_inv db2 \<and> grant_audit_t db2 = grant_audit_t db \<and> request_t db2 = request_t db \<and>
     caller_t db2 = caller_t db \<and> api_key_t db2 = api_key_t db \<and> events_t db2 = events_t db \<and>
     request_audit_t db2 = request_audit_t db"
    using assms(3)
  proof
    assume "db2 = db1"
    with inv1 ev1 show ?thesis by (simp add: gr(2))
  next
    assume "\<exists>v. insertScope db1 op v = Inr db2"
    then obtain v where "insertScope db1 op v = Inr db2" ..
    then obtain s where s: "insert_scope db1 s = Inr db2" "db2 = db1\<lparr>gscope_t := gscope_t db1 @ [s]\<rparr>"
      "ws_AuthorizationID s = op_AuthorizationID op" by (rule insertScope_Inr)
    have "wd_evolves db db2"
      using gr(3) s(3)
      by (auto simp: s(2) gr(2) wd_evolves_def grows_refls grant_rows.grows_append gscope_rows.grows_append has_row_iff)
    with insert_scope_inv [OF inv1 s(1)] show ?thesis by (simp add: s(2) gr(2))
  qed
  then show ?thesis using audit_truth_kept [of db db2] by (simp add: grant_step_def)
qed

lemma bump_step:
  assumes "wd_inv db" "bumpScopeVersion db a = Inr db'"
  shows "grant_step db db'"
proof -
  let ?ss = "update_where (\<lambda>s. ws_AuthorizationID s = a)
    (\<lambda>s. s\<lparr>ws_AuthorizationVersion := ws_AuthorizationVersion s + 1\<rparr>) (gscope_t db)"
  from assms(2) have db': "db' = db\<lparr>gscope_t := ?ss\<rparr>" by (simp add: bumpScopeVersion_def split: if_splits)
  have "map ws_AuthorizationID ?ss = map ws_AuthorizationID (gscope_t db)" by (rule map_update_where) simp
  then have ids: "ws_AuthorizationID ` set ?ss = ws_AuthorizationID ` set (gscope_t db)" by (metis list.set_map)
  have "grows scope_moves (gscope_t db) ?ss"
    by (rule gscope_rows.grows_update_where) (simp add: scope_moves_def)
  then have "wd_evolves db db'" using ids by (auto simp: db' wd_evolves_def grows_refls)
  then show ?thesis using update_rows_inv(2) [OF assms] audit_truth_kept [of db db']
    by (simp add: grant_step_def db')
qed

lemma revoke_step:
  assumes "wd_inv db" "grant_named db a = Some gr" "ga_State gr = ''active''"
  shows "grant_step db (revokeGrantRow db a)" and "inactive (revokeGrantRow db a) a"
proof -
  have gr: "gr \<in> set (grant_t db)" "ga_AuthorizationID gr = a"
    using assms(2) by (auto simp: grant_named_def dest: find_Some_set)
  have "ga_State g = ''active''" if "g \<in> set (grant_t db)" "ga_AuthorizationID g = a" for g
  proof -
    from that gr wd_invD(10) [OF assms(1)] have "g = gr" by (auto simp: distinct_map dest: inj_onD)
    with assms(3) show ?thesis by simp
  qed
  then have "grows grant_moves (grant_t db) (grant_t (revokeGrantRow db a))"
    unfolding revokeGrantRow_def
    by simp (rule grant_rows.grows_update_where, simp add: grant_moves_def)
  then have "wd_evolves db (revokeGrantRow db a)"
    by (simp add: wd_evolves_def revokeGrantRow_def grows_refls)
  then show "grant_step db (revokeGrantRow db a)"
    using update_rows_inv(1) [OF assms(1)] audit_truth_kept [of db "revokeGrantRow db a"]
    by (simp add: grant_step_def revokeGrantRow_def)
  show "inactive (revokeGrantRow db a) a"
    unfolding inactive_def revokeGrantRow_def
    by (rule bexI [of _ "gr\<lparr>ga_State := ''revoked''\<rparr>"]) (use gr in \<open>force simp: set_update_where\<close>)+
qed

lemma supply_change_cases:
  assumes "supply_change e seen db op operator = Inr (db1, action)"
  obtains db0 where "grant_named seen (op_AuthorizationID op) = None" "action = ''supplied''"
      "insertGrant db op operator = Inr db0"
      "if scoped op then insertScope db0 op 1 = Inr db1 else db1 = db0"
  | g where "grant_named seen (op_AuthorizationID op) = Some g" "grant_matchesOp g op" "action = ''resupplied''"
      "db1 = db \<or> bumpScopeVersion db (op_AuthorizationID op) = Inr db1"
  | g where "grant_named seen (op_AuthorizationID op) = Some g" "\<not> grant_matchesOp g op"
      "action = ''supply_refused''" "db1 = db"
proof (cases "grant_named seen (op_AuthorizationID op)")
  case None
  with assms obtain db0 where "insertGrant db op operator = Inr db0" "action = ''supplied''"
    "if scoped op then insertScope db0 op 1 = Inr db1 else db1 = db0"
    by (auto simp: supply_change_def rbind_rules split: if_splits)
  with None show ?thesis by (intro that(1)) auto
next
  case (Some g)
  show ?thesis
  proof (cases "grant_matchesOp g op")
    case True
    with Some assms have "action = ''resupplied'' \<and> (db1 = db \<or> bumpScopeVersion db (op_AuthorizationID op) = Inr db1)"
      by (auto simp: supply_change_def rbind_rules split: if_splits)
    with Some True show ?thesis by (intro that(2)) auto
  next
    case False
    with Some assms show ?thesis by (intro that(3)) (auto simp: supply_change_def rbind_rules)
  qed
qed

lemma supply_change_step:
  assumes "supply_change e seen db op operator = Inr (db1, action)" "wd_inv db"
  shows "grant_step db db1" and "action \<in> {''supplied'', ''resupplied'', ''supply_refused''}"
proof -
  have "grant_step db db1 \<and> action \<in> {''supplied'', ''resupplied'', ''supply_refused''}"
    using assms(1)
  proof (cases rule: supply_change_cases)
    case (1 db0)
    then have "db1 = db0 \<or> (\<exists>v. insertScope db0 op v = Inr db1)" by (auto split: if_splits)
    with supplied_step [OF assms(2) 1(3)] 1(2) show ?thesis by simp
  next
    case 2
    then show ?thesis using bump_step [OF assms(2)] grant_step_refl [OF assms(2)] by auto
  next
    case 3
    then show ?thesis using grant_step_refl [OF assms(2)] by simp
  qed
  then show "grant_step db db1" "action \<in> {''supplied'', ''resupplied'', ''supply_refused''}" by simp_all
qed

lemma under_authority_cases:
  assumes "under_authority e seen auth record_refusal body = Inr (db', ans)"
  obtains (refused) c a err where "auth = Some a" "verifySupplyAuthority e seen a = Inr (Some c)"
      "record_refusal (''supply authority: '' @ c) = Inr db'" "ans = Inl err"
  | (passed) "body = Inr (db', ans)" "\<And>a. auth = Some a \<Longrightarrow> verifySupplyAuthority e seen a = Inr None"
proof (cases auth)
  case None
  with assms show ?thesis by (intro passed) (auto simp: under_authority_def)
next
  case (Some a)
  with assms obtain check where check: "verifySupplyAuthority e seen a = Inr check"
    by (auto simp: under_authority_def rbind_rules)
  show ?thesis
  proof (cases check)
    case None
    with assms Some check show ?thesis by (intro passed) (auto simp: under_authority_def)
  next
    case (Some c)
    with assms \<open>auth = Some a\<close> check have "record_refusal (''supply authority: '' @ c) = Inr db'"
      "ans = Inl (authorityRefused c)"
      by (auto simp: under_authority_def rbind_rules simp del: append.simps)
    with \<open>auth = Some a\<close> check Some show ?thesis by (intro refused [of a c]) auto
  qed
qed

lemma runSupplyTx_cases:
  assumes "runSupplyTx tbl e seen db op auth operator reason = (db', r)"
  obtains (none) "db' = db" "\<exists>err. r = Inl err"
  | (refused) why where "insertAudit db op (op_CallerID op) operator why ''supply_refused'' (opInputDetail tbl op) = Inr db'"
      "\<exists>err. r = Inl err"
  | (changed) db1 action where "supply_change e seen db op operator = Inr (db1, action)"
      "insertAudit db1 op (op_CallerID op) operator reason action (opInputDetail tbl op) = Inr db'"
      "\<And>a. auth = Some a \<Longrightarrow> verifySupplyAuthority e seen a = Inr None"
      "r = Inr \<lparr>go_Action = action, go_AuthorizationID = op_AuthorizationID op\<rparr> \<or> r = Inl GCommitUnknown"
  using assms unfolding runSupplyTx_def
proof (cases rule: grant_commit_cases)
  case 1
  then show ?thesis by (rule none)
next
  case (2 ans)
  then have "under_authority e seen auth
      (\<lambda>why. grantStmt e GrantAuditInsert
         (insertAudit db op (op_CallerID op) operator why ''supply_refused'' (opInputDetail tbl op)))
      (rbind (supply_change e seen db op operator) (\<lambda>(db1, action).
       rbind (grantStmt e GrantAuditInsert
         (insertAudit db1 op (op_CallerID op) operator reason action (opInputDetail tbl op))) (\<lambda>db2.
       Inr (db2, Inr \<lparr>go_Action = action, go_AuthorizationID = op_AuthorizationID op\<rparr>)))) = Inr (db', ans)"
    by (simp add: rbind_rules)
  then show ?thesis
  proof (cases rule: under_authority_cases)
    case (refused c a err)
    then have "insertAudit db op (op_CallerID op) operator (''supply authority: '' @ c) ''supply_refused''
        (opInputDetail tbl op) = Inr db'" "\<exists>err. r = Inl err" using 2(2) by (auto simp: rbind_rules)
    then show ?thesis by (rule that(2))
  next
    case passed
    then obtain db1 action where c: "supply_change e seen db op operator = Inr (db1, action)"
      "insertAudit db1 op (op_CallerID op) operator reason action (opInputDetail tbl op) = Inr db'"
      "ans = Inr \<lparr>go_Action = action, go_AuthorizationID = op_AuthorizationID op\<rparr>"
      by (auto simp: rbind_rules)
    with 2(2) passed(2) show ?thesis by (intro changed [OF c(1,2)]) auto
  qed
qed

lemma runSupplyTx_step:
  assumes "runSupplyTx tbl e seen db op auth operator reason = (db', r)" "wd_inv db"
  shows "grant_step db db'"
  using assms(1)
proof (cases rule: runSupplyTx_cases)
  case none
  then show ?thesis using grant_step_refl [OF assms(2)] by simp
next
  case (refused why)
  then show ?thesis by (intro audit_step [OF _ assms(2)]) auto
next
  case (changed db1 action)
  note s = supply_change_step [OF changed(1) assms(2)]
  have "grant_step db1 db'" using s by (intro audit_step [OF changed(2)]) (auto simp: grant_step_def)
  with s(1) show ?thesis by (rule grant_step_trans)
qed

lemma revoke_change_cases:
  assumes "revoke_change e seen db a = Inr (db1, action, c)"
  obtains (missing) "grant_named seen a = None" "db1 = db" "action = ''supply_refused''" "c = 0"
  | (revoked) g where "grant_named seen a = Some g" "ga_State g = ''active''" "action = ''revoked''"
      "bumpScopeVersion (revokeGrantRow db a) a = Inr db1"
  | (nop) g where "grant_named seen a = Some g" "ga_State g \<noteq> ''active''" "action = ''revoke_nop''" "db1 = db"
  using assms
  by (cases "grant_named seen a") (auto simp: revoke_change_def rbind_rules split: if_splits)

lemma runRevokeTx_cases:
  assumes "runRevokeTx tbl e seen db op operator reason = (db', r)"
  obtains (none) "db' = db" "\<exists>err. r = Inl err"
  | (changed) db1 action c where "revoke_change e seen db (op_AuthorizationID op) = Inr (db1, action, c)"
      "insertAudit db1 op c operator reason action (opInputDetail tbl op) = Inr db'"
      "r = Inr \<lparr>go_Action = action, go_AuthorizationID = op_AuthorizationID op\<rparr> \<or> r = Inl GCommitUnknown"
  using assms unfolding runRevokeTx_def
proof (cases rule: grant_commit_cases)
  case 1
  then show ?thesis by (rule none)
next
  case (2 ans)
  then obtain db1 action c where "revoke_change e seen db (op_AuthorizationID op) = Inr (db1, action, c)"
    "insertAudit db1 op c operator reason action (opInputDetail tbl op) = Inr db'"
    "ans = Inr \<lparr>go_Action = action, go_AuthorizationID = op_AuthorizationID op\<rparr>"
    by (auto simp: rbind_rules)
  with 2(2) show ?thesis by (intro changed) auto
qed

lemma revoke_change_step:
  assumes "revoke_change e seen db a = Inr (db1, action, c)" "wd_inv db" "locks seen db a"
  shows "grant_step db db1" and "action \<in> {''revoked'', ''revoke_nop''} \<Longrightarrow> inactive db1 a"
proof -
  have "grant_step db db1 \<and> (action \<in> {''revoked'', ''revoke_nop''} \<longrightarrow> inactive db1 a)"
    using assms(1)
  proof (cases rule: revoke_change_cases)
    case missing
    then show ?thesis using grant_step_refl [OF assms(2)] by simp
  next
    case (revoked g)
    then have "grant_named db a = Some g" using assms(3) by (simp add: locks_def)
    note r = revoke_step [OF assms(2) this revoked(2)]
    have b: "grant_step (revokeGrantRow db a) db1"
      using r(1) by (intro bump_step [OF _ revoked(4)]) (simp add: grant_step_def)
    then have "inactive db1 a" using r(2) inactive_evolves by (auto simp: grant_step_def)
    with grant_step_trans [OF r(1) b] show ?thesis by simp
  next
    case (nop g)
    then have "grant_named db a = Some g" using assms(3) by (simp add: locks_def)
    then have "inactive db a" using nop(2) by (auto simp: inactive_def grant_named_def dest: find_Some_set)
    then show ?thesis using grant_step_refl [OF assms(2)] nop(4) by simp
  qed
  then show "grant_step db db1" "action \<in> {''revoked'', ''revoke_nop''} \<Longrightarrow> inactive db1 a" by simp_all
qed

lemma runRevokeTx_step:
  assumes "runRevokeTx tbl e seen db op operator reason = (db', r)" "wd_inv db" "locks seen db (op_AuthorizationID op)"
  shows "grant_step db db'"
  using assms(1)
proof (cases rule: runRevokeTx_cases)
  case none
  then show ?thesis using grant_step_refl [OF assms(2)] by simp
next
  case (changed db1 action c)
  note s = revoke_change_step [OF changed(1) assms(2,3)]
  have "grant_step db1 db'" using s by (intro audit_step [OF changed(2)]) (auto simp: grant_step_def)
  with s(1) show ?thesis by (rule grant_step_trans)
qed

lemma runReissueTx_cases:
  assumes "runReissueTx tbl e seen db inp auth operator reason = (db', r)"
  obtains (none) "db' = db" "\<exists>err. r = Inl err"
  | (refused) why detail where "insertAudit db (ri_Op inp) (op_CallerID (ri_Op inp)) operator why ''supply_refused'' detail = Inr db'"
      "\<exists>err. r = Inl err"
  | (changed) db1 db2 detail where "insertGrant db (ri_Op inp) operator = Inr db1"
      "insertScope db1 (ri_Op inp) 1 = Inr db2"
      "insertAudit db2 (ri_Op inp) (op_CallerID (ri_Op inp)) operator reason ''supplied'' detail = Inr db'"
      "\<And>a. auth = Some a \<Longrightarrow> verifySupplyAuthority e seen a = Inr None"
  using assms unfolding runReissueTx_def Let_def
proof (cases rule: grant_commit_cases)
  case 1
  then show ?thesis by (rule none)
next
  case (2 ans)
  let ?op = "ri_Op inp"
  let ?detail = "reissueDetail tbl ?op (ri_OldAuthorizationID inp) (ri_OldRequestID inp)"
  from 2(1) have "under_authority e seen auth
      (\<lambda>why. grantStmt e GrantAuditInsert
         (insertAudit db ?op (op_CallerID ?op) operator why ''supply_refused'' ?detail))
      (rbind (grantStmt e OldGrantSelect (Inr (grant_named seen (ri_OldAuthorizationID inp)))) (\<lambda>old.
       if old = None then Inl (GClassified (vfail ''reissue_from_authorization_id''
         ''reissue_from_authorization_id does not exist; re-issue links an existing grant''))
       else
       rbind (grantStmt e GrantInsert (insertGrant db ?op operator)) (\<lambda>db1.
       rbind (grantStmt e ScopeInsert (insertScope db1 ?op 1)) (\<lambda>db2.
       rbind (grantStmt e GrantAuditInsert
         (insertAudit db2 ?op (op_CallerID ?op) operator reason ''supplied'' ?detail)) (\<lambda>db3.
       Inr (db3, Inr \<lparr>go_Action = ''supplied'', go_AuthorizationID = op_AuthorizationID ?op\<rparr>)))))) = Inr (db', ans)"
    by (simp add: rbind_rules)
  then show ?thesis
  proof (cases rule: under_authority_cases)
    case (refused c a err)
    then have "insertAudit db ?op (op_CallerID ?op) operator (''supply authority: '' @ c) ''supply_refused''
        ?detail = Inr db'" "\<exists>err. r = Inl err" using 2(2) by (auto simp: rbind_rules)
    then show ?thesis by (rule that(2))
  next
    case passed
    then obtain db1 db2 where "insertGrant db ?op operator = Inr db1" "insertScope db1 ?op 1 = Inr db2"
      "insertAudit db2 ?op (op_CallerID ?op) operator reason ''supplied'' ?detail = Inr db'"
      by (auto simp: rbind_rules split: if_splits)
    then show ?thesis using passed(2) by (rule changed)
  qed
qed

lemma runReissueTx_step:
  assumes "runReissueTx tbl e seen db inp auth operator reason = (db', r)" "wd_inv db"
  shows "grant_step db db'"
  using assms(1)
proof (cases rule: runReissueTx_cases)
  case none
  then show ?thesis using grant_step_refl [OF assms(2)] by simp
next
  case (refused why detail)
  then show ?thesis by (intro audit_step [OF _ assms(2)]) auto
next
  case (changed db1 db2 detail)
  have s: "grant_step db db2" using supplied_step [OF assms(2) changed(1)] changed(2) by blast
  have "grant_step db2 db'" using s by (intro audit_step [OF changed(3)]) (auto simp: grant_step_def)
  with s show ?thesis by (rule grant_step_trans)
qed

lemma boundedAudit_step:
  assumes "boundedAudit tbl e rr db op c operator reason action = (db', r)" "wd_inv db"
    "action \<in> {''resupplied'', ''supply_refused''}"
  shows "grant_step db db'"
proof -
  have "db' = db \<or> insertAudit db op c operator reason action (opInputDetail tbl op) = Inr db'"
    using assms(1) by (auto simp: boundedAudit_def Let_def split: sum.splits if_splits)
  then show ?thesis using assms(3) grant_step_refl [OF assms(2)] audit_step [OF _ assms(2)] by blast
qed

section \<open>The system\<close>

datatype wd_op = WSubmit | WRejectAudit | WIssue | WRotate | WRevokeKey | WSupply | WRevoke | WReissue
  | WBoundedAudit | WPublish outbox_op

text \<open>Every step is a transaction of the code in an environment of its own. The receipts and the grant
  transactions read through any views; of the grant row that a supply or a revocation locks, \<open>locks\<close> says
  that it is still the one that was read.\<close>

inductive wd_step ::
  "geth \<Rightarrow> (string \<Rightarrow> string) \<Rightarrow> (nat \<Rightarrow> bool) \<Rightarrow> wd_db \<Rightarrow> wd_op \<Rightarrow> wd_db \<Rightarrow> bool"
  for g :: geth and uuid5 :: "string \<Rightarrow> string" and tbl :: "nat \<Rightarrow> bool" where
  submit_tx: "SubmitWithdrawal g uuid5 e pool dead v db req = (db', out) \<Longrightarrow> wd_step g uuid5 tbl db WSubmit db'"
| reject_audit: "WriteRejectAudit e pool db c i act detail = (db', r) \<Longrightarrow> wd_step g uuid5 tbl db WRejectAudit db'"
| issue_tx: "IssueKey e db c label = (db', k) \<Longrightarrow> wd_step g uuid5 tbl db WIssue db'"
| rotate_tx: "RotateKey e db c grace = (db', k) \<Longrightarrow> wd_step g uuid5 tbl db WRotate db'"
| revoke_key: "RevokeKey e db keyID = (db', u) \<Longrightarrow> wd_step g uuid5 tbl db WRevokeKey db'"
| supply_tx: "runSupplyTx tbl e seen db op auth operator reason = (db', o1) \<Longrightarrow> locks seen db (op_AuthorizationID op) \<Longrightarrow>
    wd_step g uuid5 tbl db WSupply db'"
| revoke_tx: "runRevokeTx tbl e seen db op operator reason = (db', o1) \<Longrightarrow> locks seen db (op_AuthorizationID op) \<Longrightarrow>
    wd_step g uuid5 tbl db WRevoke db'"
| reissue_tx: "runReissueTx tbl e seen db inp auth operator reason = (db', o1) \<Longrightarrow> wd_step g uuid5 tbl db WReissue db'"
| bounded_tx: "boundedAudit tbl e rr db op c operator reason act = (db', o2) \<Longrightarrow>
    act \<in> {''resupplied'', ''supply_refused''} \<Longrightarrow> wd_step g uuid5 tbl db WBoundedAudit db'"
| publish_tx: "outbox_step uuid5 (events_t db) x ev \<Longrightarrow> wd_step g uuid5 tbl db (WPublish x) (db\<lparr>events_t := ev\<rparr>)"

fun wd_trace ::
  "geth \<Rightarrow> (string \<Rightarrow> string) \<Rightarrow> (nat \<Rightarrow> bool) \<Rightarrow> wd_db \<Rightarrow> wd_op list \<Rightarrow> wd_db \<Rightarrow> bool" where
  "wd_trace g uuid5 tbl db [] db' \<longleftrightarrow> db' = db"
| "wd_trace g uuid5 tbl db (x # xs) db' \<longleftrightarrow> (\<exists>db1. wd_step g uuid5 tbl db x db1 \<and> wd_trace g uuid5 tbl db1 xs db')"

text \<open>Every request is backed by a grant with its facts.\<close>

definition backs :: "grant_row \<Rightarrow> request_row \<Rightarrow> bool" where
  "backs gr r \<longleftrightarrow> ga_AuthorizationID gr = rq_AuthorizationID r \<and> ga_CallerID gr = rq_CallerID r \<and>
     ga_ChainID gr = rq_ChainID r \<and> ga_Asset gr = rq_Asset r \<and> ga_Recipient gr = rq_Recipient r \<and>
     ga_Amount gr = rq_Amount r"

definition sys_inv :: "wd_db \<Rightarrow> bool" where
  "sys_inv db \<longleftrightarrow> wd_inv db \<and> audit_truth db \<and>
     (\<forall>r \<in> set (request_t db). \<exists>gr \<in> set (grant_t db). backs gr r)"

lemma backs_moves: "grant_moves gr gr' \<Longrightarrow> backs gr r \<Longrightarrow> backs gr' r"
  by (simp add: backs_def grant_moves_columns)

lemma backed_kept:
  assumes "wd_evolves db db'" "\<forall>r \<in> set (request_t db). \<exists>gr \<in> set (grant_t db). backs gr r"
    "request_t db' = request_t db"
  shows "\<forall>r \<in> set (request_t db'). \<exists>gr \<in> set (grant_t db'). backs gr r"
  using assms backs_moves grant_rows.grows_row unfolding wd_evolves_def by metis

lemma authorised_backs: "authorised db t r \<Longrightarrow> \<exists>gr \<in> set (grant_t db). backs gr r \<and> ga_State gr = ''active''"
  by (auto simp: authorised_def backs_def)

text \<open>What a step may do to the requests: nothing, or a receipt under an active grant.\<close>

definition receipt_step :: "wd_db \<Rightarrow> wd_db \<Rightarrow> bool" where
  "receipt_step db db' \<longleftrightarrow> request_t db' = request_t db \<or>
     (\<exists>r t. request_t db' = request_t db @ [r] \<and> authorised db t r \<and> grant_t db' = grant_t db)"

lemma submit_step:
  assumes "SubmitWithdrawal g uuid5 e pool dead v db req = (db', out)" "wd_inv db"
  shows "wd_evolves db db'" "receipt_step db db'" "grant_t db' = grant_t db" "grant_audit_t db' = grant_audit_t db"
proof -
  have "db' = db \<or> (\<exists>r. receipt_of db db' r \<and> authorised db (w_clock e) r)"
    using assms(1)
  proof (cases rule: SubmitWithdrawal_cases)
    case 2
    from 2(7) show ?thesis by (cases rule: submitInTx_cases) (auto elim: receipt_body_receipt [OF _ assms(2)])
  qed simp
  then have "wd_evolves db db' \<and> receipt_step db db' \<and> grant_t db' = grant_t db \<and> grant_audit_t db' = grant_audit_t db"
    by (auto simp: wd_evolves_refl receipt_step_def receipt_of_tables wd_evolves_def grows_refls
        fixed_rows.grows_append)
  then show "wd_evolves db db'" "receipt_step db db'" "grant_t db' = grant_t db" "grant_audit_t db' = grant_audit_t db"
    by simp_all
qed

lemma reject_audit_step:
  assumes "WriteRejectAudit e pool db c i act detail = (db', r)"
  shows "wd_evolves db db'" "wd_inv db \<Longrightarrow> wd_inv db'" "request_t db' = request_t db" "grant_t db' = grant_t db"
    "grant_audit_t db' = grant_audit_t db"
proof -
  have "db' = db \<or> (\<exists>a. insert_request_audit db a = Inr db')"
    using assms by (auto simp: WriteRejectAudit_def Let_def split: if_splits sum.splits option.splits)
  then have "wd_evolves db db' \<and> (wd_inv db \<longrightarrow> wd_inv db') \<and> request_t db' = request_t db \<and> grant_t db' = grant_t db
      \<and> grant_audit_t db' = grant_audit_t db"
  proof
    assume "\<exists>a. insert_request_audit db a = Inr db'"
    then obtain a where a: "insert_request_audit db a = Inr db'" ..
    then have "db' = db\<lparr>request_audit_t := request_audit_t db @ [a]\<rparr>"
      by (simp add: insert_request_audit_def split: if_splits)
    then show ?thesis using insert_request_audit_inv [OF _ a]
      by (simp add: wd_evolves_def grows_refls fixed_rows.grows_append)
  qed (simp add: wd_evolves_refl)
  then show "wd_evolves db db'" "wd_inv db \<Longrightarrow> wd_inv db'" "request_t db' = request_t db" "grant_t db' = grant_t db"
    "grant_audit_t db' = grant_audit_t db"
    by simp_all
qed

text \<open>Every step keeps the invariant, moves rows forward, and receives at most one request.\<close>

lemma quiet_step:
  assumes "sys_inv db" "wd_evolves db db'" "wd_inv db'" "request_t db' = request_t db"
    "audit_truth db \<Longrightarrow> audit_truth db'"
  shows "sys_inv db' \<and> wd_evolves db db' \<and> receipt_step db db'"
  using assms backed_kept [OF assms(2) _ assms(4)] by (simp add: sys_inv_def receipt_step_def)

lemma grant_step_quiet:
  assumes "sys_inv db" "grant_step db db'"
  shows "sys_inv db' \<and> wd_evolves db db' \<and> receipt_step db db'"
  using assms(2) by (intro quiet_step [OF assms(1)]) (auto simp: grant_step_def)

lemma credentials_quiet:
  assumes "sys_inv db" "credentials_change db db'" "wd_inv db \<Longrightarrow> wd_inv db'"
  shows "sys_inv db' \<and> wd_evolves db db' \<and> receipt_step db db'"
  using assms credentials_change_evolves [OF assms(2)] audit_truth_kept [of db db']
  by (intro quiet_step) (auto simp: credentials_change_def sys_inv_def)

lemma submit_keeps:
  assumes "sys_inv db" "SubmitWithdrawal g uuid5 e pool dead v db req = (db', out)"
  shows "sys_inv db' \<and> wd_evolves db db' \<and> receipt_step db db'"
proof -
  have inv: "wd_inv db" using assms(1) by (simp add: sys_inv_def)
  note s = submit_step [OF assms(2) inv]
  have "\<exists>gr \<in> set (grant_t db). backs gr r" if "r \<in> set (request_t db')" for r
    using that s(2) assms(1) authorised_backs by (fastforce simp: receipt_step_def sys_inv_def)
  then show ?thesis
    using s SubmitWithdrawal_inv [OF assms(2) inv] audit_truth_kept [OF s(1,4)] assms(1) by (simp add: sys_inv_def)
qed

lemma wd_step_keeps:
  assumes "wd_step g uuid5 tbl db x db'" "sys_inv db"
  shows "sys_inv db' \<and> wd_evolves db db' \<and> receipt_step db db'"
  using assms(1)
proof cases
  case (submit_tx e pool dead v req out)
  then show ?thesis using submit_keeps [OF assms(2)] by blast
next
  case (reject_audit e pool c i act detail r)
  note s = reject_audit_step [OF reject_audit(2)]
  show ?thesis using assms(2) s audit_truth_kept [OF s(1,5)] by (intro quiet_step) (auto simp: sys_inv_def)
next
  case (issue_tx e c label k)
  then show ?thesis using credentials_quiet [OF assms(2)] IssueKey_keeps by blast
next
  case (rotate_tx e c grace k)
  then show ?thesis using credentials_quiet [OF assms(2)] RotateKey_keeps by blast
next
  case (revoke_key e keyID u)
  then show ?thesis using credentials_quiet [OF assms(2)] RevokeKey_keeps by blast
next
  case (supply_tx e seen op auth operator reason o1)
  then show ?thesis using grant_step_quiet [OF assms(2)] runSupplyTx_step assms(2) by (auto simp: sys_inv_def)
next
  case (revoke_tx e seen op operator reason o1)
  then show ?thesis using grant_step_quiet [OF assms(2)] runRevokeTx_step assms(2) by (auto simp: sys_inv_def)
next
  case (reissue_tx e seen inp auth operator reason o1)
  then show ?thesis using grant_step_quiet [OF assms(2)] runReissueTx_step assms(2) by (auto simp: sys_inv_def)
next
  case (bounded_tx e rr op c operator reason act o2)
  then show ?thesis using grant_step_quiet [OF assms(2)] boundedAudit_step assms(2) by (auto simp: sys_inv_def)
next
  case (publish_tx x ev)
  have "wd_evolves db db'" by (simp add: publish_tx wd_evolves_def grows_refls)
  moreover have "wd_inv db'"
    using assms(2) outbox_step_inv [OF publish_tx(3)] by (simp add: publish_tx sys_inv_def wd_inv_events wd_invD(15))
  ultimately show ?thesis using audit_truth_kept [of db db'] assms(2)
    by (intro quiet_step) (auto simp: publish_tx)
qed

interpretation wd_system: kept_along "wd_step g uuid5 tbl" "wd_trace g uuid5 tbl" sys_inv wd_evolves "\<lambda>_. True"
  by unfold_locales (auto dest: wd_step_keeps)

text \<open>Along traces from a state in which a grant is not active, its requests stay as they are.\<close>

definition requests_under :: "string \<Rightarrow> wd_db \<Rightarrow> request_row list" where
  "requests_under a db = filter (\<lambda>r. rq_AuthorizationID r = a) (request_t db)"

lemma inactive_step:
  assumes "wd_step g uuid5 tbl db x db'" "sys_inv db" "inactive db a"
  shows "requests_under a db' = requests_under a db"
proof -
  have "gr1 = gr2" if "gr1 \<in> set (grant_t db)" "gr2 \<in> set (grant_t db)" "ga_AuthorizationID gr1 = a"
    "ga_AuthorizationID gr2 = a" for gr1 gr2
    using that wd_invD(10) [of db] assms(2) by (auto simp: sys_inv_def distinct_map dest: inj_onD)
  then have "rq_AuthorizationID r \<noteq> a" if "authorised db t r" for r t
    using that assms(3) unfolding authorised_def inactive_def by metis
  with wd_step_keeps [OF assms(1,2)] show ?thesis by (auto simp: receipt_step_def requests_under_def)
qed

interpretation closed_grant: kept_along "wd_step g uuid5 tbl" "wd_trace g uuid5 tbl"
  "\<lambda>db. sys_inv db \<and> inactive db a" "\<lambda>db db'. requests_under a db' = requests_under a db" "\<lambda>_. True"
  by unfold_locales (auto dest: wd_step_keeps inactive_step intro: inactive_evolves)

end
