(* ===== verification/WithdrawalGuarantees.thy ===== *)
theory WithdrawalGuarantees
  imports WithdrawalSystem
begin

text \<open>
  The guarantees of withdrawal creation along every trace of \<open>wd_step\<close>: credentials stay revoked and
  issued keys authenticate, revoked grants admit no further request, scope versions advance, supply
  stays under authority, a submission that took effect is always answered from its request, and a
  scoped attempt that was refused has no answer.
\<close>

section \<open>Credentials\<close>

lemma wd_trace_keeps:
  assumes "wd_trace g uuid5 tbl db ops db'" "sys_inv db"
  shows "sys_inv db'" and "wd_evolves db db'"
  using wd_system.along [OF assms] by simp_all

lemma RevokeKey_row:
  assumes "RevokeKey e db keyID = (db1, Inr ())"
  shows "keyID \<in> k_KeyID ` set (api_key_t db1)"
proof -
  let ?hit = "\<lambda>k. k_KeyID k = keyID \<and> key_live (w_now e) k"
  from assms have db1: "api_key_t db1 = update_where ?hit (\<lambda>k. k\<lparr>k_RevokedAt := Some (w_now e)\<rparr>) (api_key_t db)"
    and hit: "has_row ?hit (api_key_t db)"
    by (auto simp: RevokeKey_def Let_def count_where_pos [symmetric] split: option.splits if_splits)
  have ids: "map k_KeyID (api_key_t db1) = map k_KeyID (api_key_t db)" unfolding db1 by (rule map_update_where) simp
  from hit have "keyID \<in> set (map k_KeyID (api_key_t db))" by (auto simp: has_row_iff)
  then show ?thesis unfolding ids [symmetric] by simp
qed

text \<open>C13: Revocation of an API key is final. After \<open>RevokeKey\<close> reported success, no presented key ever
  authenticates as that credential again: not after any sequence of issues, rotations, grant
  transactions or receipts, at no later time, and not when the caller row is read from yet another
  state.\<close>

theorem key_revocation_final:
  assumes "sys_inv db" and "RevokeKey e db keyID = (db1, Inr ())" and "wd_trace g uuid5 tbl db1 ops db2"
    and "w_now e \<le> w_now e2" and "Authenticate e2 (Some (db2, db3)) presented = Inr a"
  shows "kr_KeyID (au_Key a) \<noteq> keyID"
proof
  assume same: "kr_KeyID (au_Key a) = keyID"
  have inv1: "sys_inv db1" using wd_step_keeps [OF wd_step.revoke_key [OF assms(2)] assms(1)] by blast
  have inv2: "sys_inv db2" and ev: "wd_evolves db1 db2" using wd_trace_keeps [OF assms(3) inv1] by simp_all
  from Authenticate_Inr [OF assms(5)] same obtain k where k: "k \<in> set (api_key_t db2)" "k_KeyID k = keyID"
    "key_live (w_now e2) k" by auto
  from RevokeKey_row [OF assms(2)] obtain k1 where k1: "k1 \<in> set (api_key_t db1)" "k_KeyID k1 = keyID" by auto
  from ev have "grows key_moves (api_key_t db1) (api_key_t db2)" by (simp add: wd_evolves_def)
  from credential.grows_row [OF this k1(1)] obtain k2 where k2: "k2 \<in> set (api_key_t db2)" "key_moves k1 k2" by blast
  then have "k_KeyID k2 = keyID" using k1(2) by (simp add: key_moves_def)
  with k k2 inv2 have "k2 = k" by (auto simp: sys_inv_def dest!: wd_invD(2) simp: distinct_map dest: inj_onD)
  with k2 k(3) have "key_live (w_now e2) k1" by (auto intro: key_moves_live)
  with RevokeKey_kills [OF assms(2) k1 assms(4)] show False by simp
qed

text \<open>C23: Issued keys authenticate. The plaintext \<open>IssueKey\<close> returned is accepted in every later state in
  which its credential is still valid, and resolves to the caller and the credential it was issued for:
  minting, encoding, hashing, storing and looking a key up are one round trip.\<close>

theorem issued_key_authenticates:
  assumes "sys_inv db" and "rand_fills e" and "IssueKey e db callerID label = (db1, Inr (plaintext, ref))"
    and "wd_trace g uuid5 tbl db1 ops db2"
    and "\<forall>k \<in> set (api_key_t db2). k_KeyID k = kr_KeyID ref \<longrightarrow> key_live (w_now e2) k"
    and "w_fault e2 AuthKeySelect = None" and "w_fault e2 AuthCallerSelect = None"
  shows "\<exists>caller. Authenticate e2 (Some (db2, db2)) plaintext = Inr \<lparr>au_Caller = caller, au_Key = ref\<rparr> \<and>
     cr_CallerID caller = callerID"
proof -
  have inv1: "sys_inv db1" using wd_step_keeps [OF wd_step.issue_tx [OF assms(3)] assms(1)] by blast
  have inv2: "wd_inv db2" and ev: "wd_evolves db1 db2"
    using wd_trace_keeps [OF assms(4) inv1] by (simp_all add: sys_inv_def)
  from issued_row [OF assms(3)] obtain k1 where k1: "k1 \<in> set (api_key_t db1)" "k_Hash k1 = HashKey plaintext"
    "k_CallerID k1 = callerID" "k_KeyID k1 = kr_KeyID ref" "caller_exists db1 callerID"
    "ref = \<lparr>kr_KeyID = k_KeyID k1, kr_CallerID = callerID, kr_Prefix = take keyPrefixLength plaintext\<rparr>"
    "parsePresented plaintext" using assms(2) by metis
  from ev have moves: "grows key_moves (api_key_t db1) (api_key_t db2)" "grows (=) (caller_t db1) (caller_t db2)"
    by (simp_all add: wd_evolves_def)
  from credential.grows_row [OF moves(1) k1(1)] obtain k2 where k2: "k2 \<in> set (api_key_t db2)" "key_moves k1 k2" by blast
  from k1(5) obtain r1 where "r1 \<in> set (caller_t db1)" "cr_CallerID r1 = callerID"
    by (auto simp: caller_exists_def has_row_iff)
  with fixed_rows.grows_row [OF moves(2)] obtain r where r: "r \<in> set (caller_t db2)" "cr_CallerID r = callerID" by blast
  have "key_live (w_now e2) k2" using assms(5) k2 k1(4) by (simp add: key_moves_def)
  with Authenticate_live [OF wd_invD(3,1) [OF inv2], of k2 plaintext e2 r] k1 k2 r assms(6,7) inv2
  show ?thesis by (auto simp: key_moves_def)
qed

section \<open>Grants\<close>

lemma resolved_row:
  assumes "resolveByOperationID tbl rr op = Inr out"
  obtains row where "row \<in> set (grant_audit_t (rr_attempt rr))" "gu_OperationID row = op_OperationID op"
    "gu_Detail row = opInputDetail tbl op" "out = outcome_of row"
  using assms
  by (auto simp: resolveByOperationID_def readAttemptPool_def rbind_rules dest: find_Some_set
      split: option.splits if_splits)

lemma RevokeGrant_cases:
  assumes "RevokeGrant tbl e rr seen db oid a operator reason = (db1, res)"
  obtains (bad) "db1 = db" "\<exists>err. res = Inl err"
  | (tx) r where "runRevokeTx tbl e seen db (revoke_op oid a) operator reason = (db1, r)"
      "\<And>out. res = Inr out \<Longrightarrow> r = Inr out \<or> resolveByOperationID tbl rr (revoke_op oid a) = Inr out"
proof (cases "validateRevokeInput oid a")
  case (Inl err)
  with assms bad show ?thesis by (auto simp: RevokeGrant_def)
next
  case (Inr u)
  obtain d r where run: "runRevokeTx tbl e seen db (revoke_op oid a) operator reason = (d, r)"
    by (cases "runRevokeTx tbl e seen db (revoke_op oid a) operator reason")
  have "d = db1 \<and> (\<forall>out. res = Inr out \<longrightarrow> r = Inr out \<or> resolveByOperationID tbl rr (revoke_op oid a) = Inr out)"
    using assms Inr run
    by (auto simp: RevokeGrant_def Let_def split: sum.splits grant_tx_err.splits pg_error.splits if_splits)
  with run tx show ?thesis by blast
qed

lemma RevokeGrant_step:
  assumes "RevokeGrant tbl e rr seen db oid a operator reason = (db1, res)" "locks seen db a"
  shows "db1 = db \<or> wd_step g uuid5 tbl db WRevoke db1"
  using assms(1)
proof (cases rule: RevokeGrant_cases)
  case (tx r)
  then show ?thesis using assms(2) by (auto simp: revoke_op_def intro: wd_step.revoke_tx)
qed simp

lemma revoked_inactive:
  assumes "sys_inv db" and "locks seen db a"
    and "RevokeGrant tbl e rr seen db oid a operator reason = (db1, Inr out)"
    and "go_Action out \<in> {''revoked'', ''revoke_nop''}"
    and "wd_trace g uuid5 tbl db1 ops1 (rr_attempt rr)"
  shows "sys_inv (rr_attempt rr)" and "inactive (rr_attempt rr) (go_AuthorizationID out)"
proof -
  have inv1: "sys_inv db1"
    using RevokeGrant_step [OF assms(3,2), of g uuid5] wd_step_keeps [OF _ assms(1)] assms(1) by blast
  note view = wd_trace_keeps [OF assms(5) inv1]
  show "sys_inv (rr_attempt rr)" by (rule view(1))
  show "inactive (rr_attempt rr) (go_AuthorizationID out)"
    using assms(3)
  proof (cases rule: RevokeGrant_cases)
    case (tx r)
    show ?thesis
    proof (cases "r = Inr out")
      case True
      with tx(1) obtain d action c where r: "revoke_change e seen db a = Inr (d, action, c)"
        "insertAudit d (revoke_op oid a) c operator reason action (opInputDetail tbl (revoke_op oid a)) = Inr db1"
        "out = \<lparr>go_Action = action, go_AuthorizationID = a\<rparr>"
        by (cases rule: runRevokeTx_cases) (auto simp: revoke_op_def)
      have "inactive d a"
        using revoke_change_step(2) [OF r(1) _ assms(2)] assms(1,4) r(3) by (simp add: sys_inv_def)
      then have "inactive db1 a" by (simp add: inactive_def insertAudit_Inr(1) [OF r(2)])
      then show ?thesis using inactive_evolves [OF view(2)] r(3) by simp
    next
      case False
      with tx(2) have "resolveByOperationID tbl rr (revoke_op oid a) = Inr out" by blast
      then obtain row where "row \<in> set (grant_audit_t (rr_attempt rr))" "out = outcome_of row"
        by (rule resolved_row)
      with assms(4) view(1) show ?thesis by (auto simp: sys_inv_def audit_truth_def outcome_of_def)
    qed
  qed simp
qed

text \<open>C11: Revocation of a grant is final. Once \<open>RevokeGrant\<close> has answered \<^verbatim>\<open>revoked\<close> or \<^verbatim>\<open>revoke_nop\<close>, from
  its own transaction or from the attempt it found recorded under its operation id, no withdrawal
  request is ever received under the grant it names again, whatever supplies, re-supplies, re-issues
  and submissions follow.\<close>

theorem revocation_final:
  assumes "sys_inv db" and "locks seen db a"
    and "RevokeGrant tbl e rr seen db oid a operator reason = (db1, Inr out)"
    and "go_Action out \<in> {''revoked'', ''revoke_nop''}"
    and "wd_trace g uuid5 tbl db1 ops1 (rr_attempt rr)" and "wd_trace g uuid5 tbl (rr_attempt rr) ops2 db2"
  shows "inactive db2 (go_AuthorizationID out) \<and>
     requests_under (go_AuthorizationID out) db2 = requests_under (go_AuthorizationID out) (rr_attempt rr)"
  using revoked_inactive [OF assms(1-5)] closed_grant.along [OF assms(6), of "go_AuthorizationID out"] by auto

lemma bump_versions:
  assumes "bumpScopeVersion db a = Inr db'" "s \<in> set (gscope_t db)" "ws_AuthorizationID s = a"
  shows "s\<lparr>ws_AuthorizationVersion := ws_AuthorizationVersion s + 1\<rparr> \<in> set (gscope_t db')"
proof -
  from assms(1) have "gscope_t db' = update_where (\<lambda>s. ws_AuthorizationID s = a)
      (\<lambda>s. s\<lparr>ws_AuthorizationVersion := ws_AuthorizationVersion s + 1\<rparr>) (gscope_t db)"
    by (auto simp: bumpScopeVersion_def split: if_splits)
  then have "gscope_t db' = map (\<lambda>s. if ws_AuthorizationID s = a
      then s\<lparr>ws_AuthorizationVersion := ws_AuthorizationVersion s + 1\<rparr> else s) (gscope_t db)"
    by (simp add: update_where_def)
  with assms(2,3) show ?thesis by (force intro: rev_image_eqI)
qed

text \<open>C20: A revocation outdates every scope version handed out before it. When a call of \<open>RevokeGrant\<close>
  takes the grant from active to revoked, even one whose COMMIT reported an error, then in every later
  state the scope of the grant still has its content and a strictly greater version than before, so a
  version read before the revocation never matches again.\<close>

theorem revocation_outdates_scope:
  assumes "sys_inv db" and "locks seen db a"
    and "RevokeGrant tbl e rr seen db oid a operator reason = (db1, res)"
    and "\<not> inactive db a" and "inactive db1 a"
    and "s \<in> set (gscope_t db)" and "ws_AuthorizationID s = a" and "wd_trace g uuid5 tbl db1 ops db2"
  shows "\<exists>s2. scope_named db2 a = Some s2 \<and> ws_AuthorizationVersion s < ws_AuthorizationVersion s2 \<and>
     s2\<lparr>ws_AuthorizationVersion := ws_AuthorizationVersion s\<rparr> = s"
proof -
  have inv1: "sys_inv db1"
    using RevokeGrant_step [OF assms(3,2), of g uuid5] wd_step_keeps [OF _ assms(1)] assms(1) by blast
  from assms(3) obtain d action c where ch: "revoke_change e seen db a = Inr (d, action, c)"
    and au: "insertAudit d (revoke_op oid a) c operator reason action (opInputDetail tbl (revoke_op oid a)) = Inr db1"
  proof (cases rule: RevokeGrant_cases)
    case bad
    with assms(4,5) show ?thesis by simp
  next
    case (tx r)
    from tx(1) show ?thesis
    proof (cases rule: runRevokeTx_cases)
      case none
      with assms(4,5) show ?thesis by simp
    next
      case (changed d action c)
      then show ?thesis by (intro that) (simp_all add: revoke_op_def)
    qed
  qed
  have tabs: "gscope_t db1 = gscope_t d" "grant_t db1 = grant_t d" by (simp_all add: insertAudit_Inr(1) [OF au])
  from ch have "bumpScopeVersion (revokeGrantRow db a) a = Inr d"
    by (cases rule: revoke_change_cases) (use assms(4,5) tabs in \<open>auto simp: inactive_def\<close>)
  from bump_versions [OF this _ assms(7)] assms(6)
  have s1: "s\<lparr>ws_AuthorizationVersion := ws_AuthorizationVersion s + 1\<rparr> \<in> set (gscope_t db1)"
    by (simp add: revokeGrantRow_def tabs)
  from wd_trace_keeps [OF assms(8) inv1] have inv2: "wd_inv db2" and mv: "grows scope_moves (gscope_t db1) (gscope_t db2)"
    by (simp_all add: sys_inv_def wd_evolves_def)
  from gscope_rows.grows_row [OF mv s1] obtain s2 where s2: "s2 \<in> set (gscope_t db2)"
    "scope_moves (s\<lparr>ws_AuthorizationVersion := ws_AuthorizationVersion s + 1\<rparr>) s2" by blast
  have "scope_named db2 a = Some s2"
    unfolding scope_named_def
    by (rule find_unique [OF wd_invD(12) [OF inv2] s2(1)]) (use scope_moves_columns(1) [OF s2(2)] assms(7) in auto)
  moreover have "ws_AuthorizationVersion s < ws_AuthorizationVersion s2 \<and>
     s2\<lparr>ws_AuthorizationVersion := ws_AuthorizationVersion s\<rparr> = s"
    using s2(2) by (cases s; cases s2) (auto simp: scope_moves_def)
  ultimately show ?thesis by blast
qed

definition authority_holds :: "wd_env \<Rightarrow> wd_db \<Rightarrow> supply_authority \<Rightarrow> bool" where
  "authority_holds e seen auth \<longleftrightarrow> (\<exists>k \<in> set (api_key_t seen).
     k_Hash k = HashKey (sa_PresentedKey auth) \<and> key_live (w_now e) k \<and> caller_exists seen (k_CallerID k) \<and>
     (\<exists>issuers. sa_Issuers auth = Some issuers \<and> k_CallerID k \<in> set issuers))"

lemma verifySupplyAuthority_None: "verifySupplyAuthority e seen auth = Inr None \<Longrightarrow> authority_holds e seen auth"
  by (auto simp: verifySupplyAuthority_def rbind_rules authority_holds_def PermitIssue_def caller_exists_def
      has_row_iff split: option.splits if_splits dest!: find_Some_set)

text \<open>C19: Supply under authority. A supply or re-issue transaction that carries an authority and adds or
  changes any grant or scope row saw, in rows it locks until its COMMIT, a live API key with the hash of
  the presented one and its caller, and that caller is on the issuer allowlist. Every other attempt
  leaves both tables alone.\<close>

theorem supply_needs_authority:
  assumes "runSupplyTx tbl e seen db op (Some auth) operator reason = (db', r) \<or>
     runReissueTx tbl e seen db inp (Some auth) operator reason = (db', r')"
    and "grant_t db' \<noteq> grant_t db \<or> gscope_t db' \<noteq> gscope_t db"
  shows "authority_holds e seen auth"
  using assms(1)
proof
  assume "runSupplyTx tbl e seen db op (Some auth) operator reason = (db', r)"
  then show ?thesis
    by (cases rule: runSupplyTx_cases)
      (use assms(2) in \<open>auto dest!: insertAudit_Inr(1) intro: verifySupplyAuthority_None\<close>)
next
  assume "runReissueTx tbl e seen db inp (Some auth) operator reason = (db', r')"
  then show ?thesis
    by (cases rule: runReissueTx_cases)
      (use assms(2) in \<open>auto dest!: insertAudit_Inr(1) intro: verifySupplyAuthority_None\<close>)
qed

lemma named_grant:
  assumes "wd_inv db" "gr \<in> set (grant_t db)" "ga_AuthorizationID gr = a"
  shows "grant_named db a = Some gr"
  unfolding grant_named_def by (rule find_unique [OF wd_invD(10) [OF assms(1)] assms(2)]) (use assms in auto)

lemma named_scope:
  assumes "wd_inv db" "s \<in> set (gscope_t db)" "ws_AuthorizationID s = a"
  shows "scope_named db a = Some s"
  unfolding scope_named_def by (rule find_unique [OF wd_invD(12) [OF assms(1)] assms(2)]) (use assms in auto)

lemma later_grant:
  assumes "wd_evolves db db2" "wd_inv db2" "grant_named db a = Some gr"
  obtains gr2 where "grant_named db2 a = Some gr2" "grant_moves gr gr2"
proof -
  from assms(3) have gr: "gr \<in> set (grant_t db)" "ga_AuthorizationID gr = a"
    by (auto simp: grant_named_def dest: find_Some_set)
  from assms(1) have "grows grant_moves (grant_t db) (grant_t db2)" by (simp add: wd_evolves_def)
  from grant_rows.grows_row [OF this gr(1)] obtain gr2 where gr2: "gr2 \<in> set (grant_t db2)" "grant_moves gr gr2" by blast
  with named_grant [OF assms(2) gr2(1)] gr(2) show thesis by (intro that) (auto simp: grant_moves_columns)
qed

text \<open>The scope a grant has later is the one it had, moved on.\<close>

lemma scope_origin:
  assumes "wd_evolves db db2" "wd_inv db2" "wd_inv db" "grant_named db a = Some gr" "scope_named db2 a = Some s2"
  obtains s where "scope_named db a = Some s" "scope_moves s s2"
proof -
  from assms(4,5) have gr: "gr \<in> set (grant_t db)" "ga_AuthorizationID gr = a"
    and s2: "s2 \<in> set (gscope_t db2)" "ws_AuthorizationID s2 = a"
    by (auto simp: grant_named_def scope_named_def dest: find_Some_set)
  from gr have "a \<in> ga_AuthorizationID ` set (grant_t db)" by auto
  with assms(1) s2 have "a \<in> ws_AuthorizationID ` set (gscope_t db)" by (auto simp: wd_evolves_def)
  then obtain s where s: "s \<in> set (gscope_t db)" "ws_AuthorizationID s = a" by auto
  from assms(1) have "grows scope_moves (gscope_t db) (gscope_t db2)" by (simp add: wd_evolves_def)
  from gscope_rows.grows_row [OF this s(1)] obtain s3 where s3: "s3 \<in> set (gscope_t db2)" "scope_moves s s3" by blast
  then have "ws_AuthorizationID s3 = a" using s(2) scope_moves_columns by metis
  with named_scope [OF assms(2) s3(1)] assms(5) s3 s show thesis
    by (intro that [OF named_scope [OF assms(3) s]]) auto
qed

lemma grant_moves_matches: "grant_moves g1 g2 \<Longrightarrow> grant_matchesOp g2 op = grant_matchesOp g1 op"
  by (simp add: grant_matchesOp_def grant_moves_columns)

lemma refused_supply:
  assumes "runSupplyTx tbl e seen db op auth operator reason = (db1, Inr out)" "go_Action out = ''supply_refused''"
    "locks seen db (op_AuthorizationID op)"
  obtains gr row where "grant_named db (op_AuthorizationID op) = Some gr" "\<not> grant_matchesOp gr op"
    "db1 = db\<lparr>grant_audit_t := grant_audit_t db @ [row]\<rparr>" "gu_OperationID row = op_OperationID op"
    "gu_Detail row = opInputDetail tbl op"
  using assms(1)
proof (cases rule: runSupplyTx_cases)
  case (changed d action)
  then have act: "action = ''supply_refused''" using assms(2) by auto
  from changed(1) obtain gr where "grant_named seen (op_AuthorizationID op) = Some gr" "\<not> grant_matchesOp gr op" "d = db"
    by (cases rule: supply_change_cases) (use act in auto)
  then show ?thesis using assms(3) insertAudit_Inr(1) [OF changed(2)] by (intro that) (auto simp: locks_def)
qed auto

text \<open>The validation of an attempt depends on the time only through its expiry.\<close>

lemma guard_Inr: "(if b then Inl err else x) = Inr y \<longleftrightarrow> \<not> b \<and> x = Inr y"
  by simp

lemma validateSupply_later:
  assumes "validateSupplyOpInput g op t1 = Inr norm"
  shows "validateSupplyOpInput g op t2 \<in> {Inr norm, Inl (vfail ''expires_at'' ''expires_at must be in the future'')}"
proof -
  let ?check = "\<lambda>t. case op_ExpiresAt op of
      None \<Rightarrow> Inr None
    | Some x \<Rightarrow> let u = truncate_us x in
        if \<not> u > t then Inl (vfail ''expires_at'' ''expires_at must be in the future'') else Inr (Some u)"
  have fixed: "?check t2 = ?check t1 \<or> ?check t2 = Inl (vfail ''expires_at'' ''expires_at must be in the future'')"
    if "?check t1 = Inr x" for x
    using that by (auto simp: Let_def split: option.splits if_splits)
  from assms obtain asset recipient v expires where
    ok: "op_OperationID op \<noteq> []" "op_Action op = ''supply''" "op_AuthorizationID op \<noteq> []" "\<not> op_CallerID op \<le> 0"
      "\<not> op_ChainID op \<le> 0" "canonicalAddressField g (op_Asset op) ''asset'' = Inr asset"
      "canonicalAddressField g (op_Recipient op) ''recipient'' = Inr recipient" "ValidateAmount (op_Amount op) = Inr v"
      "?check t1 = Inr expires"
    by (simp only: validateSupplyOpInput_def guard_Inr rbind_eq_Inr not_not) blast
  show ?thesis
    using fixed [OF ok(9)]
  proof
    assume "?check t2 = ?check t1"
    then have "validateSupplyOpInput g op t2 = validateSupplyOpInput g op t1" unfolding validateSupplyOpInput_def by (simp only:)
    with assms show ?thesis by simp
  next
    assume "?check t2 = Inl (vfail ''expires_at'' ''expires_at must be in the future'')"
    with ok(1-8) show ?thesis by (simp add: validateSupplyOpInput_def)
  qed
qed

lemma resolveByOperationID_unscoped:
  assumes "scoped op" "case scope_named (rr_scope rr) (op_AuthorizationID op) of None \<Rightarrow> True | Some s \<Rightarrow> \<not> scope_matchesOp s op"
    "find (\<lambda>a. gu_OperationID a = op_OperationID op) (grant_audit_t (rr_attempt rr)) = Some row"
    "gu_Detail row = opInputDetail tbl op"
  shows "\<exists>err. resolveByOperationID tbl rr op = Inl err \<and> ((\<forall>s. w_fault (rr_env rr) s = None) \<longrightarrow> err = notYetVisible)"
  using assms
  by (auto simp: resolveByOperationID_def readAttemptPool_def grantStmt_def run_stmt_def split: option.splits)

text \<open>A recorded operation id stops a supply transaction before its COMMIT, with the unique violation of the
  audit table or with whatever a statement failed with.\<close>

definition stopped :: "wd_env \<Rightarrow> grant_tx_err + 'a \<Rightarrow> bool" where
  "stopped e x \<longleftrightarrow> (\<exists>p. x = Inl (GStorage p) \<and>
     (p = PgError ''23505'' ''withdrawal_grant_audit_operation_id_uniq'' \<or> (\<exists>s. w_fault e s = Some p)))"

lemma stopped_rbind:
  assumes "\<And>err. m = Inl err \<Longrightarrow> stopped e m" "\<And>x. m = Inr x \<Longrightarrow> stopped e (f x)"
  shows "stopped e (rbind m f)"
  using assms by (cases m) (auto simp: stopped_def)

lemma stopped_stmt: "grantStmt e s (Inr x) = Inl err \<Longrightarrow> stopped e (Inl err)"
  by (auto simp: stopped_def grantStmt_def run_stmt_def split: option.splits)

lemma stopped_insertAudit:
  assumes "row \<in> set (grant_audit_t db)" "gu_OperationID row = op_OperationID op"
  shows "stopped e (rbind (grantStmt e s (insertAudit db op c operator reason ''supply_refused'' detail)) f)"
proof -
  have "insertAudit db op c operator reason ''supply_refused'' detail =
      Inl (PgError ''23505'' ''withdrawal_grant_audit_operation_id_uniq'')"
    using assms by (auto simp: insertAudit_def insert_grant_audit_def unique_or_def has_row_iff)
  then show ?thesis by (auto simp: stopped_def grantStmt_def run_stmt_def split: option.splits)
qed

lemma stopped_authority: "verifySupplyAuthority e seen auth = Inl err \<Longrightarrow> stopped e (Inl err)"
  by (auto simp: verifySupplyAuthority_def rbind_def stopped_def grantStmt_def run_stmt_def
      split: option.splits sum.splits if_splits)

lemma runSupplyTx_recorded:
  assumes "row \<in> set (grant_audit_t db)" "gu_OperationID row = op_OperationID op"
    and "grant_named seen (op_AuthorizationID op) = Some gr" "\<not> grant_matchesOp gr op"
  obtains p where "runSupplyTx tbl e seen db op auth operator reason = (db, Inl (GStorage p))"
    "p = PgError ''23505'' ''withdrawal_grant_audit_operation_id_uniq'' \<or> (\<exists>s. w_fault e s = Some p)"
proof -
  note aud = stopped_insertAudit [OF assms(1,2)]
  let ?body = "rbind (supply_change e seen db op operator) (\<lambda>(db1, action).
    rbind (grantStmt e GrantAuditInsert
      (insertAudit db1 op (op_CallerID op) operator reason action (opInputDetail tbl op))) (\<lambda>db2.
    Inr (db2, Inr \<lparr>go_Action = action, go_AuthorizationID = op_AuthorizationID op\<rparr>)))"
  have body: "stopped e ?body"
  proof (cases "w_fault e GrantSelectForUpdate")
    case None
    with assms(3,4) have "supply_change e seen db op operator = Inr (db, ''supply_refused'')"
      by (simp add: supply_change_def grantStmt_def run_stmt_def)
    then show ?thesis using aud by simp
  next
    case (Some p)
    then have "supply_change e seen db op operator = Inl (GStorage p)"
      by (simp add: supply_change_def grantStmt_def run_stmt_def)
    with Some show ?thesis by (auto simp: stopped_def)
  qed
  have auth: "stopped e (under_authority e seen auth (\<lambda>why. grantStmt e GrantAuditInsert
      (insertAudit db op (op_CallerID op) operator why ''supply_refused'' (opInputDetail tbl op))) ?body)"
    by (auto simp: under_authority_def body intro!: stopped_rbind aud dest: stopped_authority split: option.split)
  have "stopped e (rbind (open_tx e) (\<lambda>_. under_authority e seen auth (\<lambda>why. grantStmt e GrantAuditInsert
      (insertAudit db op (op_CallerID op) operator why ''supply_refused'' (opInputDetail tbl op))) ?body))"
    by (rule stopped_rbind [OF _ auth])
      (auto simp: open_tx_def stopped_def grantStmt_def run_stmt_def split: option.splits)
  then obtain p where "rbind (open_tx e) (\<lambda>_. under_authority e seen auth (\<lambda>why. grantStmt e GrantAuditInsert
      (insertAudit db op (op_CallerID op) operator why ''supply_refused'' (opInputDetail tbl op))) ?body) = Inl (GStorage p)"
    "p = PgError ''23505'' ''withdrawal_grant_audit_operation_id_uniq'' \<or> (\<exists>s. w_fault e s = Some p)"
    unfolding stopped_def by blast
  then show thesis by (intro that [of p]) (simp_all add: runSupplyTx_def grant_commit_def)
qed

text \<open>C24: A refused scoped attempt has no answer. Let a supply transaction record a scoped attempt as
  \<^verbatim>\<open>supply_refused\<close> because the grant has other parameters, and let the grant have no scope or a different
  one. Then no retry of the attempt with its operation id ever learns this: from any later state, at any
  time, with or without an authority and whichever statements fail, it changes nothing and answers an error. When no statement
  fails, the error says that the outcome is not visible yet and to retry, until the expiry of the attempt has
  passed, when the retry fails validation. The recovery wants a matching scope row, and none can ever
  appear, because the scope of a grant never changes. (The grant exists and is read first, so the statements do
  not report a violation of its primary key.)\<close>

theorem scoped_refusal_never_answers:
  assumes "sys_inv db" and "validateSupplyOpInput g op (w_time e) = Inr norm" and "scoped norm"
    and "locks seen db (op_AuthorizationID norm)"
    and "runSupplyTx tbl e seen db norm auth operator reason = (db1, Inr out)"
    and "go_Action out = ''supply_refused''"
    and "case scope_named db (op_AuthorizationID norm) of None \<Rightarrow> True | Some s \<Rightarrow> \<not> scope_matchesOp s norm"
    and "\<forall>d \<in> {seen2, db2, rr_attempt (re_first re2), rr_scope (re_first re2)}. \<exists>ops. wd_trace g uuid5 tbl db1 ops d"
    and "\<forall>s. w_fault e2 s \<noteq> Some (PgError ''23505'' ''withdrawal_authorizations_pkey'')"
  shows "\<exists>err. supply_grant g tbl e2 re2 seen2 db2 op auth2 operator2 reason2 = (db2, Inl err) \<and>
     (if validateSupplyOpInput g op (w_time e2) = Inr norm
      then (\<forall>s. w_fault e2 s = None \<and> w_fault (rr_env (re_first re2)) s = None) \<longrightarrow> err = notYetVisible
      else we_Code err = CodeValidationFailed)"
proof -
  let ?a = "op_AuthorizationID norm" and ?rr = "re_first re2"
  from refused_supply [OF assms(5,6,4)] obtain gr row where gr: "grant_named db ?a = Some gr" "\<not> grant_matchesOp gr norm"
    and db1: "db1 = db\<lparr>grant_audit_t := grant_audit_t db @ [row]\<rparr>"
    and row: "gu_OperationID row = op_OperationID norm" "gu_Detail row = opInputDetail tbl norm" .
  have inv1: "sys_inv db1" using wd_step_keeps [OF wd_step.supply_tx [OF assms(5,4)] assms(1)] by blast
  then have w1: "wd_inv db1" by (simp add: sys_inv_def)
  have gr1: "grant_named db1 ?a = Some gr" and row1: "row \<in> set (grant_audit_t db1)"
    using gr(1) by (simp_all add: db1 grant_named_def)
  have later: "wd_inv d" "wd_evolves db1 d" "row \<in> set (grant_audit_t d)"
    if in_views: "d \<in> {seen2, db2, rr_attempt ?rr, rr_scope ?rr}" for d
  proof -
    from bspec [OF assms(8) in_views] obtain ops where "wd_trace g uuid5 tbl db1 ops d" ..
    from wd_trace_keeps [OF this inv1] show "wd_inv d" and ev: "wd_evolves db1 d" by (simp_all add: sys_inv_def)
    from ev have "grows (=) (grant_audit_t db1) (grant_audit_t d)" by (simp add: wd_evolves_def)
    from fixed_rows.grows_row [OF this row1] show "row \<in> set (grant_audit_t d)" by blast
  qed
  from later_grant [OF later(2,1) gr1, of seen2] obtain gr2 where
    gr2: "grant_named seen2 ?a = Some gr2" "\<not> grant_matchesOp gr2 norm"
    using gr(2) grant_moves_matches by auto metis
  have scope2: "case scope_named (rr_scope ?rr) ?a of None \<Rightarrow> True | Some s \<Rightarrow> \<not> scope_matchesOp s norm"
  proof (cases "scope_named (rr_scope ?rr) ?a")
    case (Some s2)
    from scope_origin [OF later(2,1) w1 gr1 Some] obtain s where "scope_named db1 ?a = Some s" "scope_moves s s2" by auto
    with assms(7) Some show ?thesis by (simp add: db1 scope_named_def scope_moves_columns)
  qed simp
  have found: "find (\<lambda>x. gu_OperationID x = op_OperationID norm) (grant_audit_t (rr_attempt ?rr)) = Some row"
    by (rule find_unique [OF wd_invD(14) [OF later(1)] later(3)]) (use row in auto)
  from resolveByOperationID_unscoped [OF assms(3) scope2 found row(2)] obtain err where
    res: "resolveByOperationID tbl ?rr norm = Inl err" "(\<forall>s. w_fault (rr_env ?rr) s = None) \<longrightarrow> err = notYetVisible" by blast
  have in2: "row \<in> set (grant_audit_t db2)" by (rule later(3)) simp
  from runSupplyTx_recorded [OF in2 row(1) gr2] obtain p where
    tx: "runSupplyTx tbl e2 seen2 db2 norm auth2 operator2 reason2 = (db2, Inl (GStorage p))"
    "p = PgError ''23505'' ''withdrawal_grant_audit_operation_id_uniq'' \<or> (\<exists>s. w_fault e2 s = Some p)" .
  show ?thesis
    using validateSupply_later [OF assms(2), of "w_time e2"]
  proof (elim insertE emptyE)
    assume v: "validateSupplyOpInput g op (w_time e2) = Inr norm"
    show ?thesis
      using v tx res assms(9) by (cases p) (auto simp: supply_grant_def)
  qed (simp_all add: supply_grant_def vfail_def WithField_def wd_New_def)
qed

section \<open>Requests\<close>

lemma submitted_row:
  assumes "SubmitWithdrawal g uuid5 e pool dead v db req = (db1, out)" "wd_inv db" "db1 \<noteq> db"
    "Authenticate e (Some (sv_auth v)) (su_PresentedKey req) = Inr auth"
  obtains norm r where "normalizeSubmit g req = Inr norm" "receipt_of db db1 r" "row_matches r norm"
    "rq_CallerID r = cr_CallerID (au_Caller auth)" "rq_IdempotencyKey r = su_IdempotencyKey req"
  using assms(1)
proof (cases rule: SubmitWithdrawal_cases)
  case (2 auth' norm allow)
  with assms(4) have same: "auth' = auth" by simp
  from 2(7) assms(3) obtain rid where
    "receipt_body uuid5 e db (cr_CallerID (au_Caller auth)) (su_IdempotencyKey req) norm rid = Inr db1"
    unfolding same by (cases rule: submitInTx_cases) auto
  from receipt_body_receipt [OF this assms(2)] obtain amount where
    "ValidateAmount (pa_Amount norm) = Inr amount"
    "receipt_of db db1 (receipt_row e (cr_CallerID (au_Caller auth)) (su_IdempotencyKey req) norm rid amount)" by blast
  with 2(3) show ?thesis
    by (intro that) (auto simp: row_matches_def receipt_row_def dest!: ValidateAmount_text(3))
qed (use assms(3) in simp)

text \<open>C12: A submission that took effect is answered from its request for ever. Whatever a submission that
  changed the database answered (a COMMIT whose outcome it did not learn, a crash before the response),
  submitting the same request again for the same caller, in every later state, answers 200 with the one
  request the first submission stored and changes nothing: rotating the API key, revoking the grant,
  changing the policy or filling the backlog in between makes no difference.\<close>

theorem retry_converges:
  assumes "sys_inv db" and "SubmitWithdrawal g uuid5 e pool dead v db req = (db1, out)" and "db1 \<noteq> db"
    and "Authenticate e (Some (sv_auth v)) (su_PresentedKey req) = Inr auth"
    and "wd_trace g uuid5 tbl db1 ops db2"
    and "req2 = req\<lparr>su_PresentedKey := presented, su_Allowlist := l, su_ResolveAllowlist := r,
       su_CapacityGate := gate\<rparr>"
    and "Authenticate e2 (Some (sv_auth v2)) presented = Inr auth2" and "cr_CanCreate (au_Caller auth2)"
    and "cr_CallerID (au_Caller auth2) = cr_CallerID (au_Caller auth)"
    and "sv_fast v2 = db2" and "w_fault e2 SelectByKey = None"
  shows "\<exists>row. receipt_of db db1 row \<and>
     SubmitWithdrawal g uuid5 e2 True False v2 db3 req2 = (db3, Inr (replay_result (rq_CallerID row) row))"
proof -
  have inv: "wd_inv db" using assms(1) by (simp add: sys_inv_def)
  from submitted_row [OF assms(2) inv assms(3,4)] obtain norm row where s: "normalizeSubmit g req = Inr norm"
    "receipt_of db db1 row" "row_matches row norm" "rq_CallerID row = cr_CallerID (au_Caller auth)"
    "rq_IdempotencyKey row = su_IdempotencyKey req" .
  have inv1: "sys_inv db1" using submit_keeps [OF assms(1,2)] by blast
  have inv2: "wd_inv db2" and ev: "wd_evolves db1 db2"
    using wd_trace_keeps [OF assms(5) inv1] by (simp_all add: sys_inv_def)
  have "row \<in> set (request_t db1)" by (simp add: receipt_of_tables [OF s(2)])
  with ev have row: "row \<in> set (request_t db2)"
    using fixed_rows.grows_row [of "request_t db1" "request_t db2"] by (auto simp: wd_evolves_def)
  have "normalizeSubmit g req2 = normalizeSubmit g req" by (simp add: assms(6) normalizeSubmit_def)
  with s(1) have "normalizeSubmit g req2 = Inr norm" by simp
  moreover have "find (\<lambda>r. rq_CallerID r = cr_CallerID (au_Caller auth2) \<and> rq_IdempotencyKey r = su_IdempotencyKey req2)
      (request_t db2) = Some row"
    using find_request [OF inv2 row] s(4,5) assms(6,9) by simp
  ultimately have "SubmitWithdrawal g uuid5 e2 True False v2 db3 req2 = (db3, Inr (replay_result (rq_CallerID row) row))"
    using assms(6-11) s(3,4) by (simp add: SubmitWithdrawal_def Let_def readRequestByKey_def run_stmt_def)
  with s(2) show ?thesis by blast
qed

definition empty_wd :: wd_db where
  "empty_wd = \<lparr>caller_t = [], api_key_t = [], key_seq = 0, request_t = [], grant_t = [], gscope_t = [],
     request_audit_t = [], grant_audit_t = [], events_t = no_events\<rparr>"

lemma empty_wd_inv: "sys_inv empty_wd"
  by (simp add: sys_inv_def wd_inv_def empty_wd_def audit_truth_def)

text \<open>C8: One request per grant and per key, for ever. In every state the system can reach from the empty
  tables, however its sessions interleave and whichever statements fail, requests have distinct
  identities, no two share a grant or a caller's idempotency key, each has exactly the caller, chain,
  asset, recipient and amount of its grant, and no stored request is ever changed or removed
  afterwards.\<close>

theorem requests_sound:
  assumes "wd_trace g uuid5 tbl empty_wd ops db" and "wd_trace g uuid5 tbl db ops2 db2"
  shows "distinct (map rq_RequestID (request_t db)) \<and> distinct (map rq_AuthorizationID (request_t db)) \<and>
     distinct (map (\<lambda>r. (rq_CallerID r, rq_IdempotencyKey r)) (request_t db)) \<and>
     (\<forall>r \<in> set (request_t db). \<exists>gr \<in> set (grant_t db). backs gr r) \<and>
     take (length (request_t db)) (request_t db2) = request_t db"
proof -
  have inv: "sys_inv db" using wd_trace_keeps(1) [OF assms(1) empty_wd_inv] .
  then have w: "wd_inv db" by (simp add: sys_inv_def)
  have "grows (=) (request_t db) (request_t db2)" using wd_trace_keeps(2) [OF assms(2) inv] by (simp add: wd_evolves_def)
  then have "take (length (request_t db)) (request_t db2) = request_t db" by (simp add: grows_def list.rel_eq)
  with wd_invD(6-8) [OF w] inv show ?thesis by (simp add: sys_inv_def)
qed

section \<open>Concrete runs\<close>

abbreviation no_table :: "nat \<Rightarrow> bool" where
  "no_table \<equiv> \<lambda>_. False"

lemma demo_sys_inv: "sys_inv (demo_wd [])"
  using demo_wd_inv [OF demo_no_audit] by (simp add: sys_inv_def audit_truth_def) (simp add: demo_wd_def)

text \<open>A second credential, whose digest is not that of the demonstration key.\<close>

definition other_hash :: string where
  "other_hash = (if HashKey demo_key = replicate 64 (CHR ''0'') then replicate 64 (CHR ''1'') else replicate 64 (CHR ''0''))"

lemma other_hash_differs: "other_hash \<noteq> HashKey demo_key"
proof -
  have "replicate 64 (CHR ''1'') \<noteq> replicate 64 (CHR ''0'')" by simp
  then show ?thesis by (auto simp: other_hash_def)
qed

definition two_keys :: wd_db where
  "two_keys = (demo_wd [])\<lparr>api_key_t := api_key_t (demo_wd []) @
     [\<lparr>k_KeyID = 2, k_CallerID = 7, k_Hash = other_hash, k_Prefix = ''txh_BBBB'', k_RevokedAt = None\<rparr>], key_seq := 2\<rparr>"

lemma two_keys_inv: "sys_inv two_keys"
  using demo_sys_inv other_hash_differs
  by (simp add: sys_inv_def wd_inv_def two_keys_def audit_truth_def) (simp add: demo_wd_def inactive_def caller_exists_def has_row_def demo_grant_def)

theorem key_revocation_final_witness:
  "\<exists>db1 a. RevokeKey demo_wd_env two_keys 2 = (db1, Inr ()) \<and>
     Authenticate demo_wd_env (Some (db1, db1)) demo_key = Inr a \<and> kr_KeyID (au_Key a) \<noteq> 2"
proof -
  obtain db1 where rev: "RevokeKey demo_wd_env two_keys 2 = (db1, Inr ())"
    by (simp add: RevokeKey_def two_keys_def demo_wd_def demo_wd_env_def count_where_def key_live_def Let_def)
  have "db1 = two_keys\<lparr>api_key_t := api_key_t (demo_wd []) @
      [\<lparr>k_KeyID = 2, k_CallerID = 7, k_Hash = other_hash, k_Prefix = ''txh_BBBB'', k_RevokedAt = Some 10\<rparr>]\<rparr>"
    using rev by (simp add: RevokeKey_def two_keys_def demo_wd_def demo_wd_env_def count_where_def key_live_def
        Let_def update_where_def)
  then obtain a where a: "Authenticate demo_wd_env (Some (db1, db1)) demo_key = Inr a"
    using demo_key_shape other_hash_differs
    by (simp add: Authenticate_def Let_def run_stmt_def demo_wd_env_def two_keys_def demo_wd_def key_live_def)
  have "wd_trace lower_geth id no_table db1 [] db1" by simp
  from key_revocation_final [OF two_keys_inv rev this order_refl a] rev a show ?thesis by blast
qed

lemma demo_issued:
  "IssueKey demo_wd_env empty_wd 7 ''desk'' =
     ((demo_wd [])\<lparr>grant_t := []\<rparr>, Inr (demo_key, \<lparr>kr_KeyID = 1, kr_CallerID = 7, kr_Prefix = ''txh_AAAA''\<rparr>))"
proof -
  have gen: "GenerateKey demo_wd_env = Some (demo_key, HashKey demo_key, ''txh_AAAA'')"
  proof -
    have "take 8 demo_key = ''txh_AAAA''" by (simp add: demo_key_text numeral_eq_Suc)
    then show ?thesis by (simp add: GenerateKey_def demo_wd_env_def demo_key_def keyPrefixLength_def Let_def)
  qed
  have "insert_caller empty_wd 7 ''desk'' = Inr (empty_wd\<lparr>caller_t := [\<lparr>cr_CallerID = 7, cr_Label = ''desk'', cr_CanCreate = True\<rparr>]\<rparr>)"
    by (simp add: insert_caller_def caller_exists_def has_row_def empty_wd_def)
  moreover have "w_fault demo_wd_env s = None" for s by (simp add: demo_wd_env_def)
  ultimately show ?thesis
    using HashKey_column [of demo_key]
    by (simp add: IssueKey_def gen in_tx_def run_stmt_def insert_api_key_def unique_or_def
        caller_exists_def has_row_def empty_wd_def demo_wd_def)
qed

theorem issued_key_authenticates_witness:
  "\<exists>db1 caller ref. IssueKey demo_wd_env empty_wd 7 ''desk'' = (db1, Inr (demo_key, ref)) \<and>
     Authenticate demo_wd_env (Some (db1, db1)) demo_key = Inr \<lparr>au_Caller = caller, au_Key = ref\<rparr> \<and> cr_CallerID caller = 7"
proof -
  let ?db = "(demo_wd [])\<lparr>grant_t := []\<rparr>"
  have tr: "wd_trace lower_geth id no_table ?db [] ?db" by simp
  have live: "\<forall>k \<in> set (api_key_t ?db). k_KeyID k = kr_KeyID \<lparr>kr_KeyID = 1, kr_CallerID = 7, kr_Prefix = ''txh_AAAA''\<rparr>
      \<longrightarrow> key_live (w_now demo_wd_env) k"
    by (simp add: demo_wd_def key_live_def)
  from issued_key_authenticates [OF empty_wd_inv demo_wd_env_facts(2) demo_issued tr live] demo_issued show ?thesis
    by (force simp: demo_wd_env_def)
qed

lemma demo_locks: "locks db db a"
  by (simp add: locks_def)

text \<open>Revoking the demonstration grant.\<close>

definition demo_reads :: "wd_db \<Rightarrow> recovery_reads" where
  "demo_reads db = \<lparr>rr_env = demo_wd_env, rr_attempt = db, rr_grant = db, rr_scope = db\<rparr>"

lemma demo_revoked:
  assumes "grant_t db = [demo_grant]" "grant_audit_t db = []" "list_all (\<lambda>s. ws_AuthorizationVersion s = 1) (gscope_t db)"
  shows "\<exists>db1. RevokeGrant no_table demo_wd_env (demo_reads db1) db db ''op-1'' ''grant-1'' ''ops'' ''why'' =
     (db1, Inr \<lparr>go_Action = ''revoked'', go_AuthorizationID = ''grant-1''\<rparr>)"
proof -
  have "\<not> has_row (\<lambda>s. ws_AuthorizationID s = ''grant-1'' \<and> 2 ^ 63 - 1 \<le> ws_AuthorizationVersion s) (gscope_t db)"
    using assms(3) by (auto simp: has_row_iff list_all_iff)
  then show ?thesis
    using assms(1,2)
    by (simp add: RevokeGrant_def validateRevokeInput_def Let_def runRevokeTx_def open_tx_def grantStmt_def run_stmt_def
        demo_wd_env_def revoke_op_def revoke_change_def grant_named_def demo_grant_def bumpScopeVersion_def
        revokeGrantRow_def insertAudit_def insert_grant_audit_def unique_or_def has_row_def grant_commit_def)
qed

theorem revocation_final_witness:
  "\<exists>db1 db2 rr. RevokeGrant no_table demo_wd_env rr (demo_wd []) (demo_wd []) ''op-1'' ''grant-1'' ''ops'' ''why'' =
     (db1, Inr \<lparr>go_Action = ''revoked'', go_AuthorizationID = ''grant-1''\<rparr>) \<and>
     wd_trace lower_geth id no_table db1 [WSubmit] db2 \<and> requests_under ''grant-1'' db2 = requests_under ''grant-1'' db1"
proof -
  obtain db1 where rev: "RevokeGrant no_table demo_wd_env (demo_reads db1) (demo_wd []) (demo_wd []) ''op-1'' ''grant-1'' ''ops'' ''why'' =
     (db1, Inr \<lparr>go_Action = ''revoked'', go_AuthorizationID = ''grant-1''\<rparr>)"
    using demo_revoked [of "demo_wd []"] by (auto simp: demo_wd_def)
  obtain db2 out where sub: "SubmitWithdrawal lower_geth id demo_wd_env True False (one_view db1) db1 demo_submit = (db2, out)"
    by (cases "SubmitWithdrawal lower_geth id demo_wd_env True False (one_view db1) db1 demo_submit")
  have tr2: "wd_trace lower_geth id no_table db1 [WSubmit] db2" using wd_step.submit_tx [OF sub] by auto
  have tr1: "wd_trace lower_geth id no_table db1 [] (rr_attempt (demo_reads db1))" by (simp add: demo_reads_def)
  from revocation_final [OF demo_sys_inv demo_locks rev _ tr1, of "[WSubmit]" db2] tr2 rev show ?thesis
    by (auto simp: demo_reads_def)
qed

definition demo_scope :: grant_scope where
  "demo_scope = \<lparr>ws_AuthorizationID = ''grant-1'', ws_IntentID = ''i1'', ws_RequestID = [], ws_Sender = lower_demo,
     ws_FeeMaxTotal = 9, ws_FeeMaxPerGas = 3, ws_FeeMaxPriority = 2, ws_AllowsFeeReplacement = False,
     ws_AuthorizationVersion = 1, ws_AttestedBy = ''ops''\<rparr>"

lemma demo_scoped_inv: "sys_inv ((demo_wd [])\<lparr>gscope_t := [demo_scope]\<rparr>)"
  using demo_sys_inv demo_lower
  by (simp add: sys_inv_def wd_inv_def audit_truth_def)
    (simp add: demo_wd_def demo_scope_def scope_checks_def address_column_def has_row_def demo_grant_def caller_exists_def)

theorem revocation_outdates_scope_witness:
  "\<exists>db1 rr s2. RevokeGrant no_table demo_wd_env rr ((demo_wd [])\<lparr>gscope_t := [demo_scope]\<rparr>)
       ((demo_wd [])\<lparr>gscope_t := [demo_scope]\<rparr>) ''op-1'' ''grant-1'' ''ops'' ''why'' =
     (db1, Inr \<lparr>go_Action = ''revoked'', go_AuthorizationID = ''grant-1''\<rparr>) \<and>
     scope_named db1 ''grant-1'' = Some s2 \<and> 1 < ws_AuthorizationVersion s2"
proof -
  let ?db = "(demo_wd [])\<lparr>gscope_t := [demo_scope]\<rparr>"
  obtain db1 where rev: "RevokeGrant no_table demo_wd_env (demo_reads db1) ?db ?db ''op-1'' ''grant-1'' ''ops'' ''why'' =
     (db1, Inr \<lparr>go_Action = ''revoked'', go_AuthorizationID = ''grant-1''\<rparr>)"
    using demo_revoked [of ?db] by (auto simp: demo_wd_def demo_scope_def)
  have on: "\<not> inactive ?db ''grant-1''" by (simp add: inactive_def demo_wd_def demo_grant_def)
  from rev have off: "inactive db1 ''grant-1''"
    by (auto simp: RevokeGrant_def validateRevokeInput_def Let_def runRevokeTx_def open_tx_def grantStmt_def run_stmt_def
        demo_wd_env_def revoke_op_def revoke_change_def grant_named_def demo_grant_def bumpScopeVersion_def demo_wd_def
        revokeGrantRow_def insertAudit_def insert_grant_audit_def unique_or_def has_row_def grant_commit_def
        inactive_def update_where_def demo_scope_def)
  have s: "demo_scope \<in> set (gscope_t ?db)" "ws_AuthorizationID demo_scope = ''grant-1''" by (simp_all add: demo_scope_def)
  have tr: "wd_trace lower_geth id no_table db1 [] db1" by simp
  from revocation_outdates_scope [OF demo_scoped_inv demo_locks rev on off s tr] rev show ?thesis
    by (auto simp: demo_scope_def)
qed

text \<open>Supplying the demonstration grant.\<close>

definition demo_op :: op_input where
  "demo_op = \<lparr>op_OperationID = ''op-1'', op_Action = ''supply'', op_AuthorizationID = ''grant-1'', op_CallerID = 7,
     op_ChainID = 1, op_Asset = lower_demo, op_Recipient = lower_demo, op_Amount = ''5'', op_ExpiresAt = Some 100,
     op_IntentID = [], op_RequestID = [], op_Sender = [], op_FeeMaxTotal = 0, op_FeeMaxPerGas = 0,
     op_FeeMaxPriority = 0, op_AllowsFeeReplacement = False, op_AttestedBy = []\<rparr>"

definition demo_audit :: grant_audit where
  "demo_audit = \<lparr>gu_OperationID = ''op-1'', gu_AuthorizationID = ''grant-1'', gu_CallerID = 7, gu_Action = ''supplied'',
     gu_Operator = ''ops'', gu_Reason = ''why'', gu_Detail = opInputDetail no_table demo_op\<rparr>"

lemma demo_supplied:
  assumes "auth = None \<or> auth = Some \<lparr>sa_PresentedKey = demo_key, sa_Issuers = Some [7]\<rparr>"
  shows "runSupplyTx no_table demo_wd_env ((demo_wd [])\<lparr>grant_t := []\<rparr>) ((demo_wd [])\<lparr>grant_t := []\<rparr>) demo_op auth ''ops'' ''why'' =
     (demo_wd [demo_audit], Inr \<lparr>go_Action = ''supplied'', go_AuthorizationID = ''grant-1''\<rparr>)"
proof -
  let ?db = "(demo_wd [])\<lparr>grant_t := []\<rparr>"
  have "numeric_param ''5'' = Inr 5" using demo_amount by (simp add: numeric_param_Inr)
  then have ins: "insertGrant ?db demo_op ''ops'' = Inr (demo_wd [])"
    using demo_lower by (simp add: insertGrant_def demo_op_def insert_grant_def unique_or_def grant_checks_def has_row_def
        amount_column_def address_column_def demo_wd_def demo_grant_def caller_exists_def)
  have aud: "insertAudit (demo_wd []) demo_op 7 ''ops'' ''why'' ''supplied'' (opInputDetail no_table demo_op) = Inr (demo_wd [demo_audit])"
    by (simp add: insertAudit_def insert_grant_audit_def unique_or_def has_row_def demo_wd_def demo_audit_def) (simp add: demo_op_def)
  have op: "op_CallerID demo_op = 7" "op_AuthorizationID demo_op = ''grant-1''" "\<not> scoped demo_op"
    by (simp_all add: demo_op_def scoped_def)
  have none: "grant_named ?db ''grant-1'' = None" by (simp add: grant_named_def)
  have ver: "verifySupplyAuthority demo_wd_env ?db \<lparr>sa_PresentedKey = demo_key, sa_Issuers = Some [7]\<rparr> = Inr None"
    by (simp add: verifySupplyAuthority_def grantStmt_def run_stmt_def demo_wd_env_def demo_wd_def key_live_def PermitIssue_def)
  have nofault: "grantStmt demo_wd_env s x = map_err GStorage x" for s and x :: "pg_error + 'b"
    by (simp add: grantStmt_def run_stmt_def demo_wd_env_def)
  show ?thesis
    using assms ins aud op none ver
    by (auto simp: runSupplyTx_def grant_commit_def open_tx_def under_authority_def supply_change_def nofault)
      (simp_all add: demo_wd_env_def)
qed

theorem supply_needs_authority_witness:
  "\<exists>auth db'. runSupplyTx no_table demo_wd_env ((demo_wd [])\<lparr>grant_t := []\<rparr>) ((demo_wd [])\<lparr>grant_t := []\<rparr>) demo_op (Some auth) ''ops'' ''why'' =
     (db', Inr \<lparr>go_Action = ''supplied'', go_AuthorizationID = ''grant-1''\<rparr>) \<and>
     authority_holds demo_wd_env ((demo_wd [])\<lparr>grant_t := []\<rparr>) auth"
proof -
  have "grant_t (demo_wd [demo_audit]) \<noteq> grant_t ((demo_wd [])\<lparr>grant_t := []\<rparr>)" by (simp add: demo_wd_def)
  then show ?thesis
    using demo_supplied [OF disjI2 [OF refl]] supply_needs_authority [OF disjI1 [OF demo_supplied [OF disjI2 [OF refl]]] disjI1]
    by blast
qed

theorem requests_sound_witness:
  "\<exists>db. wd_trace lower_geth id no_table empty_wd [WIssue, WSupply, WSubmit] db \<and>
     (\<exists>r. request_t db = [r] \<and> rq_AuthorizationID r = ''grant-1'' \<and> (\<exists>gr \<in> set (grant_t db). backs gr r))"
proof -
  have "distinct (map gu_OperationID [demo_audit])" by simp
  from demo_accepted [OF this] obtain db res r where
    sub: "SubmitWithdrawal lower_geth id demo_wd_env True False (one_view (demo_wd [demo_audit])) (demo_wd [demo_audit]) demo_submit = (db, Inr res)"
    and r: "request_t db = [r]" "rq_AuthorizationID r = ''grant-1''" by blast
  have "wd_step lower_geth id no_table empty_wd WIssue ((demo_wd [])\<lparr>grant_t := []\<rparr>)"
    by (rule wd_step.issue_tx [OF demo_issued])
  moreover have "wd_step lower_geth id no_table ((demo_wd [])\<lparr>grant_t := []\<rparr>) WSupply (demo_wd [demo_audit])"
    by (rule wd_step.supply_tx [OF demo_supplied [OF disjI1 [OF refl]] demo_locks])
  moreover have "wd_step lower_geth id no_table (demo_wd [demo_audit]) WSubmit db"
    by (rule wd_step.submit_tx [OF sub])
  ultimately have tr: "wd_trace lower_geth id no_table empty_wd [WIssue, WSupply, WSubmit] db" by auto
  have "wd_trace lower_geth id no_table db [] db" by simp
  from requests_sound [OF tr this] tr r show ?thesis by auto
qed

theorem retry_converges_witness:
  "\<exists>db1 out row. SubmitWithdrawal lower_geth id demo_wd_env True False (one_view (demo_wd [])) (demo_wd []) demo_submit = (db1, out) \<and>
     receipt_of (demo_wd []) db1 row \<and>
     SubmitWithdrawal lower_geth id demo_wd_env True False (one_view db1) db1 demo_submit =
       (db1, Inr (replay_result (rq_CallerID row) row))"
proof -
  from demo_accepted [OF demo_no_audit] obtain db1 res r where
    sub: "SubmitWithdrawal lower_geth id demo_wd_env True False (one_view (demo_wd [])) (demo_wd []) demo_submit = (db1, Inr res)"
    and same: "api_key_t db1 = api_key_t (demo_wd [])" "caller_t db1 = caller_t (demo_wd [])"
    and r: "request_t db1 = [r]" by blast
  have ch: "db1 \<noteq> demo_wd []" using r by (auto simp: demo_wd_def)
  have a1: "Authenticate demo_wd_env (Some (sv_auth (one_view (demo_wd [])))) (su_PresentedKey demo_submit) =
      Inr \<lparr>au_Caller = \<lparr>cr_CallerID = 7, cr_Label = ''desk'', cr_CanCreate = True\<rparr>,
         au_Key = \<lparr>kr_KeyID = 1, kr_CallerID = 7, kr_Prefix = take 8 demo_key\<rparr>\<rparr>"
    using demo_auth [OF refl refl, of "[]"] by simp
  have a2: "Authenticate demo_wd_env (Some (sv_auth (one_view db1))) demo_key =
      Inr \<lparr>au_Caller = \<lparr>cr_CallerID = 7, cr_Label = ''desk'', cr_CanCreate = True\<rparr>,
         au_Key = \<lparr>kr_KeyID = 1, kr_CallerID = 7, kr_Prefix = take 8 demo_key\<rparr>\<rparr>"
    using demo_auth [OF same] by simp
  have tr: "wd_trace lower_geth id no_table db1 [] db1" by simp
  have req: "demo_submit = demo_submit\<lparr>su_PresentedKey := demo_key, su_Allowlist := [lower_demo],
      su_ResolveAllowlist := None, su_CapacityGate := None\<rparr>"
    by (simp add: demo_submit_def)
  from retry_converges [OF demo_sys_inv sub ch a1 tr req a2, of db1] sub show ?thesis
    by (auto simp: demo_wd_env_def)
qed

text \<open>A scoped attempt against a grant with another expiry.\<close>

definition demo_scoped_op :: op_input where
  "demo_scoped_op = demo_op\<lparr>op_OperationID := ''op-2'', op_ExpiresAt := None, op_Sender := lower_demo,
     op_AttestedBy := ''ops''\<rparr>"

theorem scoped_refusal_never_answers_witness:
  "\<exists>db1 err. runSupplyTx no_table demo_wd_env (demo_wd []) (demo_wd []) demo_scoped_op None ''ops'' ''why'' =
       (db1, Inr \<lparr>go_Action = ''supply_refused'', go_AuthorizationID = ''grant-1''\<rparr>) \<and>
     supply_grant lower_geth no_table demo_wd_env
       \<lparr>re_first = demo_reads db1, re_retry = demo_wd_env, re_second = demo_reads db1, re_later = id\<rparr> db1 db1 demo_scoped_op None ''ops'' ''why'' = (db1, Inl err) \<and>
     we_Code err = CodeTemporarilyUnavailable"
proof -
  have addr: "canonicalAddressField lower_geth lower_demo f = Inr lower_demo" for f
    by (simp add: canonicalAddressField_def CanonicalAddress_demo)
  have val: "validateSupplyOpInput lower_geth demo_scoped_op (w_time demo_wd_env) = Inr demo_scoped_op"
    using demo_amount by (simp add: validateSupplyOpInput_def demo_scoped_op_def demo_op_def addr Let_def validateFeeScope_def scoped_def)
  have sc: "scoped demo_scoped_op" by (simp add: scoped_def demo_scoped_op_def lower_demo_def)
  obtain db1 where run: "runSupplyTx no_table demo_wd_env (demo_wd []) (demo_wd []) demo_scoped_op None ''ops'' ''why'' =
       (db1, Inr \<lparr>go_Action = ''supply_refused'', go_AuthorizationID = ''grant-1''\<rparr>)"
    by (simp add: runSupplyTx_def grant_commit_def open_tx_def under_authority_def supply_change_def grantStmt_def run_stmt_def
        demo_wd_env_def demo_scoped_op_def demo_op_def demo_wd_def grant_named_def demo_grant_def grant_matchesOp_def insertAudit_def
        insert_grant_audit_def unique_or_def has_row_def)
  have none: "case scope_named (demo_wd []) (op_AuthorizationID demo_scoped_op) of None \<Rightarrow> True | Some s \<Rightarrow> \<not> scope_matchesOp s demo_scoped_op"
    by (simp add: scope_named_def demo_wd_def)
  let ?re = "\<lparr>re_first = demo_reads db1, re_retry = demo_wd_env, re_second = demo_reads db1, re_later = id\<rparr>"
  have views: "\<forall>d \<in> {db1, db1, rr_attempt (re_first ?re), rr_scope (re_first ?re)}. \<exists>ops. wd_trace lower_geth id no_table db1 ops d"
    by (auto simp: demo_reads_def intro: exI [of _ "[]"])
  from scoped_refusal_never_answers [OF demo_sys_inv val sc demo_locks run _ none views, of demo_wd_env None "''ops''" "''why''"]
  have "\<exists>err. supply_grant lower_geth no_table demo_wd_env ?re db1 db1 demo_scoped_op None ''ops'' ''why'' = (db1, Inl err) \<and>
     we_Code err = CodeTemporarilyUnavailable"
    using val by (auto simp: demo_reads_def notYetVisible_def wd_New_def demo_wd_env_facts(1) [unfolded faultless_def])
  with run show ?thesis by blast
qed

end
