(* ===== verification/Spec2Isabelle.thy ===== *)
theory Spec2Isabelle
  imports TxPrelude TxEvolution NonceNumeric NonceTypes NonceClassify NonceStore NonceAllocate
    NonceAllocateSpec NonceReconcile NonceReconcileSpec NonceObserve NonceAdmin NonceAdminSpec
    NonceAdminRefine NonceAdminReplay NonceRebuild NonceRead NonceSystem GoStrings
    WithdrawalValidate EventsCatalog EventsOutbox EventsOutboxSpec
    WithdrawalStore WithdrawalAuth WithdrawalIntake WithdrawalIntakeSpec
    WithdrawalGrant WithdrawalSystem WithdrawalGuarantees
begin

text \<open>
  Verification of TxHarbor, a withdrawal service for EVM chains: its withdrawal creation
  (\<^verbatim>\<open>src/internal/withdrawal\<close>, \<^verbatim>\<open>src/internal/app/withdrawalhttp.go\<close>), its nonce manager (\<^verbatim>\<open>src/internal/nonce\<close>, with the
  startup gate of \<^verbatim>\<open>src/internal/app/serve.go\<close>) and its transactional event outbox (\<^verbatim>\<open>src/internal/events\<close>).

  \<^bold>\<open>The program.\<close> A withdrawal starts as a grant, which an issuer supplies under an operation id (\<^verbatim>\<open>grant.go\<close>): the
  authorization of one caller to withdraw one amount of one asset to one recipient, with an optional scope. The caller
  authenticates with an API key (\<^verbatim>\<open>auth.go\<close>) and submits a request under an idempotency key (\<^verbatim>\<open>intake.go\<close>); the receipt
  transaction checks the grant under a row lock and stores the request, its audit row and an outbox event together.
  The owner can query the request (\<^verbatim>\<open>query.go\<close>). The outbox (\<^verbatim>\<open>append.go\<close>, \<^verbatim>\<open>outbox.go\<close>) numbers the events of each business object, hands them
  to a publisher under guarded state changes, and bounds its backlog (\<^verbatim>\<open>capacity.go\<close>). The nonce manager later binds an
  intent that has a valid grant to a nonce of a sender. It owns seven tables: the wallet registry, the scope state (one row per
  chain and sender), the bindings, the log of binding events, the chain observations, the scope holds and the operator
  audit. Three writers share them, each running one transaction under the lock row of the chain: \<open>Allocate\<close> admits an
  intent and binds the next nonce (\<^verbatim>\<open>allocate.go\<close>), \<open>reconcileScope\<close> records what the chain shows and moves bindings along
  their state machine (\<^verbatim>\<open>reconcile.go\<close>), and \<open>Run\<close> executes an operator's release or registry change (\<^verbatim>\<open>admin.go\<close>). All
  three feed one decision matrix, \<open>Classify\<close> (\<^verbatim>\<open>classify.go\<close>), with what the observer read from the node
  (\<^verbatim>\<open>observe.go\<close>). A startup gate verifies catalogue and rows before anything is admitted (\<^verbatim>\<open>binding.go\<close>, \<^verbatim>\<open>serve.go\<close>), and a
  read interface answers lookups from one snapshot (\<^verbatim>\<open>readapi.go\<close>).

  \<^bold>\<open>How it is modelled.\<close> A Go function that can fail is a function into a sum type, sequenced with \<open>rbind\<close>; a
  table is the list of its rows in insertion order; a statement is a function on the record of all tables (\<open>nonce_db\<close>,
  \<open>events_db\<close>, \<open>wd_db\<close>), with the constraint the migrations declare as an explicit error of the matching SQLSTATE and name; a
  transaction is a state-passing step whose result replaces the database only if it commits. Environment records (\<open>env\<close>,
  \<open>wd_env\<close>) hold what the environment decides: whether each statement fails and how, the clocks, the random bytes
  of the minted identifiers, and whether a COMMIT that reported an error took effect. In the nonce tables a server error aborts the transaction
  and a driver error does not (\<open>tx_state\<close>). The JSON-RPC node is a parameter, the answers of its requests by attempt; go-ethereum's address
  functions (\<open>geth\<close>), the name-based UUID of google/uuid and the printable-rune table of \<^verbatim>\<open>strconv\<close> are parameters too. Nonces are
  \<open>int option\<close> as \<^verbatim>\<open>*big.Int\<close> is nullable, with the range checks written out; durations are 64-bit words, as their products
  wrap. SHA-256, hexadecimal and base64url are defined and computed, not assumed.

  \<^bold>\<open>Shared theories.\<close>
  \<^item> \<open>TxPrelude\<close>: the result sum with \<open>rbind\<close>, byte strings, digits, hexadecimal, SHA-256, the list functions the tables use.
  \<^item> \<open>TxEvolution\<close>: how tables evolve and what holds along a trace (locales \<open>evolution\<close>, \<open>keyed_evolution\<close>,
    \<open>kept_along\<close>), interpreted on the tables and transition systems of each component.
  \<^item> \<open>GoStrings\<close>: the functions of \<^verbatim>\<open>strings\<close> and \<^verbatim>\<open>strconv\<close> the sources use.

  \<^bold>\<open>Nonce manager.\<close>
  \<^item> \<open>NonceNumeric\<close> (\<^verbatim>\<open>numeric.go\<close>): decimal and hexadecimal text, range check, successor, the numeric column, and their round trips.
  \<^item> \<open>NonceTypes\<close> (\<^verbatim>\<open>errors.go\<close>, \<^verbatim>\<open>binding.go\<close>): outcomes, causes, refusals, binding rows and their legal moves.
  \<^item> \<open>NonceClassify\<close> (\<^verbatim>\<open>classify.go\<close>): the matrix. A candidate is safe, refusals fail closed.
  \<^item> \<open>NonceStore\<close> (\<^verbatim>\<open>coord.go\<close>, \<^verbatim>\<open>registry.go\<close>, \<^verbatim>\<open>hold.go\<close>, \<^verbatim>\<open>binding.go\<close>, \<^verbatim>\<open>observe.go\<close>): the tables and every statement.
  \<^item> \<open>NonceInv\<close>: the invariant \<open>nonce_inv\<close> of the tables, the forward evolution \<open>db_evolves\<close> of their rows, and that
    every statement keeps both.
  \<^item> \<open>NonceAllocate\<close>, \<open>NonceAllocateSpec\<close> (\<^verbatim>\<open>allocate.go\<close>): admission against \<open>allocate_spec\<close>, which reads the
    answer off the durable rows; safety of what is bound, failure, replay, retry after a lost COMMIT and races.
  \<^item> \<open>NonceReconcile\<close>, \<open>NonceReconcileSpec\<close> (\<^verbatim>\<open>reconcile.go\<close>): the state the chain dictates for each binding, success,
    idempotence, isolation of scopes in a pass, the backoff and the loop.
  \<^item> \<open>NonceObserve\<close> (\<^verbatim>\<open>observe.go\<close>): bounded retry of a request, total waiting time, all-or-nothing observations.
  \<^item> \<open>NonceAdmin\<close>, \<open>NonceAdminSpec\<close>, \<open>NonceAdminRefine\<close>, \<open>NonceAdminReplay\<close> (\<^verbatim>\<open>admin.go\<close>): the operator
    transactions, their evidence and effects, refinement of \<open>admin_spec\<close>, one audit row per durable attempt, replay by
    operation id.
  \<^item> \<open>NonceRebuild\<close> (\<^verbatim>\<open>binding.go\<close>, \<^verbatim>\<open>serve.go\<close>): the gate opens exactly when the probes pass, and an invariant database
    passes them.
  \<^item> \<open>NonceRead\<close> (\<^verbatim>\<open>readapi.go\<close>): a lookup answers the snapshot or fails, and degrades only its annotations.
  \<^item> \<open>NonceSystem\<close>: the writers as one transition system: nonces are never reissued and leave no gaps, bindings are
    permanent, holds stop their scope, and which holds no release can end.

  \<^bold>\<open>Event outbox.\<close>
  \<^item> \<open>EventsCatalog\<close> (\<^verbatim>\<open>catalog.go\<close>, \<^verbatim>\<open>errors.go\<close>): the catalog, routing, envelope validation, natural keys, canonical payload and
    the scan for forbidden material.
  \<^item> \<open>EventsOutbox\<close>, \<open>EventsOutboxSpec\<close> (\<^verbatim>\<open>append.go\<close>, \<^verbatim>\<open>outbox.go\<close>, \<^verbatim>\<open>capacity.go\<close>): append, publish states, retention, capacity; events
    are never lost before they are published, streams are contiguous, and what retention does to identities.

  \<^bold>\<open>Withdrawal creation.\<close>
  \<^item> \<open>WithdrawalValidate\<close> (\<^verbatim>\<open>errors.go\<close>, \<^verbatim>\<open>validate.go\<close>, \<^verbatim>\<open>allowlist.go\<close>, parts of \<^verbatim>\<open>config.go\<close>): error values, validators, allowlists.
  \<^item> \<open>WithdrawalStore\<close> (migrations 7 and 10): the tables, their inserts and the invariant \<open>wd_inv\<close>.
  \<^item> \<open>WithdrawalAuth\<close> (\<^verbatim>\<open>auth.go\<close>): minting, authenticating, issuing, rotating and revoking API keys.
  \<^item> \<open>WithdrawalIntake\<close>, \<open>WithdrawalIntakeSpec\<close> (\<^verbatim>\<open>intake.go\<close>, \<^verbatim>\<open>query.go\<close>, \<^verbatim>\<open>withdrawalhttp.go\<close>): the receive path, the query
    and the two handlers; every receipt is authorised and announced, the answer refines \<open>intake_decision\<close>, replays are immune to what
    happened since, and a caller learns nothing about the requests of others.
  \<^item> \<open>WithdrawalGrant\<close> (\<^verbatim>\<open>grant.go\<close>): supply, re-supply, re-issue and revocation, the authority check and recovery by
    operation id.
  \<^item> \<open>WithdrawalSystem\<close>, \<open>WithdrawalGuarantees\<close>: all transactions, with the outbox's, as one transition system \<open>wd_step\<close>; requests stay sound,
    revocations of keys and grants are final, scope versions advance, supply needs authority, retries converge, and
    which attempts are never answered.

  This theory joins the components: the grants of \<open>wd_db\<close> are the authorizations \<open>Allocate\<close> reads.

  \<^bold>\<open>Bounds.\<close> Every loop of the modelled code is bounded by its data (rows, senders, attempts, bytes), so the definitions are
  total and need no fuel; the retry loop of the observer runs over the remaining attempts, and the reconcile loop over
  the list of passes an execution makes.

  \<^bold>\<open>Concurrency.\<close> Transactions are atomic steps. Those of the nonce manager take the lock row of their chain first, and rows of
  different chains are disjoint. A grant transaction may have read before others committed: it sees a database \<open>seen\<close> that agrees
  with the current one on the grant row it locks (\<open>locks\<close>). Reads outside a transaction have views of their own. What a transaction
  cannot see ahead, a row inserted by a writer that does not take its lock, shows up as a unique violation injected by the
  environment or raised by the current rows, and the race branches re-read an arbitrary later database.

  \<^bold>\<open>Not modelled.\<close> Connection pools, contexts and timeouts of the driver (a timeout is a statement fault); log and metric
  output beyond the calls \<open>Allocate\<close> makes; JSON encoding of HTTP bodies, trace ids and the routing and recovery gate in front of the
  handlers. The Kafka publisher and consumers around the outbox, the transaction lifecycle, execution, signing, indexing,
  disaster recovery, reconciliation, rate limiting, configuration loading and process wiring are outside the development; the
  manifest lists each with its reason.
\<close>

section \<open>Grants and nonces\<close>

text \<open>Withdrawal creation writes the grants that nonce admission reads: \<^verbatim>\<open>withdrawal_authorizations\<close> is one table,
  of which the nonce manager selects these columns.\<close>

definition authorization_of :: "grant_row \<Rightarrow> authorization_row" where
  "authorization_of g = \<lparr>az_AuthorizationID = ga_AuthorizationID g, az_ChainID = ga_ChainID g, az_Asset = ga_Asset g,
     az_Recipient = ga_Recipient g, az_Amount = ga_Amount g, az_State = ga_State g, az_ExpiresAt = ga_ExpiresAt g\<rparr>"

lemma inactive_not_valid:
  assumes "wd_inv w" "inactive w a" "authorization_t db = map authorization_of (grant_t w)"
  shows "\<not> has_row (grant_valid e a chain) (authorization_t db)"
proof
  assume "has_row (grant_valid e a chain) (authorization_t db)"
  then obtain g where g: "g \<in> set (grant_t w)" "ga_AuthorizationID g = a" "ga_State g = ''active''"
    by (auto simp: has_row_iff assms(3) grant_valid_def authorization_of_def)
  from assms(2) obtain h where "h \<in> set (grant_t w)" "ga_AuthorizationID h = a" "ga_State h \<noteq> ''active''"
    by (auto simp: inactive_def)
  with g wd_invD(10) [OF assms(1)] show False by (auto simp: distinct_map dest: inj_onD)
qed

text \<open>C7: A revoked grant is never bound to a nonce. Once \<open>RevokeGrant\<close> has answered \<^verbatim>\<open>revoked\<close> or \<^verbatim>\<open>revoke_nop\<close>, in
  every later state of the withdrawal tables an attempt of the nonce manager to admit an intent under
  that grant, in any environment and even when its COMMIT reports an unknown outcome, binds nothing and
  is not answered with \<^verbatim>\<open>allocated\<close>.\<close>

theorem revoked_grant_gets_no_nonce:
  assumes "sys_inv w" and "locks seen w a"
    and "RevokeGrant tbl we rr seen w oid a operator reason = (w1, Inr out)"
    and "go_Action out \<in> {''revoked'', ''revoke_nop''}"
    and "wd_trace g uuid5 tbl w1 ops1 (rr_attempt rr)" and "wd_trace g uuid5 tbl (rr_attempt rr) ops2 w2"
    and "nonce_inv db" and "authorization_t db = map authorization_of (grant_t w2)"
    and "Allocate gate e db req obs e2 db2 = (db', rep, calls)"
    and "ar_AuthorizationID req = go_AuthorizationID out"
  shows "rp_outcome rep \<noteq> OutcomeAllocated \<and> binding_t db' = binding_t db \<and> event_t db' = event_t db"
proof -
  have "sys_inv w2" "inactive w2 (go_AuthorizationID out)"
    using revoked_inactive [OF assms(1-5)] wd_trace_keeps [OF assms(6)] inactive_evolves by blast+
  then have "\<not> has_row (grant_valid e (ar_AuthorizationID req) (ar_ChainID req)) (authorization_t db)"
    using inactive_not_valid [OF _ _ assms(8)] by (auto simp: sys_inv_def assms(10))
  then have "allocate_spec e db req obs \<noteq> OutcomeAllocated"
    using admission_refusals [of e db req] by (auto simp: allocate_spec_def admission_refusal_def Let_def)
  then show ?thesis using Allocate_effect [OF assms(9,7)] by (auto simp: untouched_def)
qed

theorem revoked_grant_gets_no_nonce_witness:
  "\<exists>w1 rr db' rep calls.
     RevokeGrant no_table demo_wd_env rr (demo_wd []) (demo_wd []) ''op-1'' ''grant-1'' ''ops'' ''why'' =
       (w1, Inr \<lparr>go_Action = ''revoked'', go_AuthorizationID = ''grant-1''\<rparr>) \<and>
     Allocate demo_gate demo_env (demo_db\<lparr>authorization_t := map authorization_of (grant_t w1)\<rparr>)
       (demo_req\<lparr>ar_AuthorizationID := ''grant-1''\<rparr>) (demo_obs 0 0) demo_env demo_db = (db', rep, calls) \<and>
     rp_outcome rep \<noteq> OutcomeAllocated \<and> binding_t db' = []"
proof -
  obtain w1 where rev: "RevokeGrant no_table demo_wd_env (demo_reads w1) (demo_wd []) (demo_wd []) ''op-1'' ''grant-1'' ''ops'' ''why'' =
     (w1, Inr \<lparr>go_Action = ''revoked'', go_AuthorizationID = ''grant-1''\<rparr>)"
    using demo_revoked [of "demo_wd []"] by (auto simp: demo_wd_def)
  let ?db = "demo_db\<lparr>authorization_t := map authorization_of (grant_t w1)\<rparr>"
  obtain db' rep calls where run: "Allocate demo_gate demo_env ?db
      (demo_req\<lparr>ar_AuthorizationID := ''grant-1''\<rparr>) (demo_obs 0 0) demo_env demo_db = (db', rep, calls)"
    by (metis prod.collapse)
  have inv: "nonce_inv ?db" using demo_inv by (simp add: nonce_inv_def table_inv_defs)
  have tr: "wd_trace lower_geth id no_table w1 [] (rr_attempt (demo_reads w1))" by (simp add: demo_reads_def)
  from revoked_grant_gets_no_nonce [OF demo_sys_inv demo_locks rev _ tr _ inv _ run, of "[]" w1] rev run show ?thesis
    by (auto simp: demo_reads_def demo_db_def)
qed

end
